(* ===== verification/Python_Base.thy ===== *)
theory Python_Base
  imports Main "HOL-Library.Word"
begin

text \<open>
  Shared prelude of the development: Python's unbounded integers with their bit operations
  (masks, shifts, fields of an instruction word), results that may carry an exception, and
  stateful computations that may raise.

  Python's \<open>int\<close> is \<open>int\<close>; \<open>x & m\<close>, \<open>x | y\<close>, \<open>x ^ y\<close>, \<open>~x\<close> are
  \<open>AND\<close>, \<open>OR\<close>, \<open>XOR\<close>, \<open>NOT\<close> (two's complement with infinite sign, as in Python),
  \<open>x << n\<close> is \<open>push_bit n x\<close> and \<open>x >> n\<close> is \<open>drop_bit n x\<close> (floor division, as in Python).
\<close>

unbundle bit_operations_syntax

section \<open>Named collections\<close>

named_theorems mask_simps \<open>numeral masks of the code as \<open>take_bit\<close>\<close>
named_theorems field_simps_bits \<open>bit-level description of the packers and decoders\<close>
named_theorems sx_simps \<open>evaluation of stateful computations\<close>

section \<open>Masks and fields\<close>

lemma int_and_mask_eq: "(x :: int) AND mask n = take_bit n x"
  by (simp add: take_bit_eq_mask)

lemma and_0x1 [mask_simps]: "(x :: int) AND 1 = take_bit 1 x"
  and and_0x7 [mask_simps]: "x AND 0x7 = take_bit 3 x"
  and and_0xF [mask_simps]: "x AND 0xF = take_bit 4 x"
  and and_0x1F [mask_simps]: "x AND 0x1F = take_bit 5 x"
  and and_0x3F [mask_simps]: "x AND 0x3F = take_bit 6 x"
  and and_0x7F [mask_simps]: "x AND 0x7F = take_bit 7 x"
  and and_0xFF [mask_simps]: "x AND 0xFF = take_bit 8 x"
  and and_0x3FF [mask_simps]: "x AND 0x3FF = take_bit 10 x"
  and and_0xFFF [mask_simps]: "x AND 0xFFF = take_bit 12 x"
  and and_0xFFFF [mask_simps]: "x AND 0xFFFF = take_bit 16 x"
  and and_0xFFFFF [mask_simps]: "x AND 0xFFFFF = take_bit 20 x"
  and and_0xFFFFFFFF [mask_simps]: "x AND 0xFFFFFFFF = take_bit 32 x"
  by (simp_all add: take_bit_eq_mask mask_eq_exp_minus_1)

lemma and_3 [mask_simps]: "(x :: int) AND 3 = take_bit 2 x"
  by (simp add: take_bit_eq_mask mask_eq_exp_minus_1)

lemma bit_int_take: "bit (take_bit n (x :: int)) k \<longleftrightarrow> k < n \<and> bit x k"
  by (simp add: bit_take_bit_iff)

lemmas int_bit_simps =
  bit_take_bit_iff bit_push_bit_iff_int bit_drop_bit_eq bit_or_iff bit_and_iff bit_xor_iff
  bit_signed_take_bit_iff

text \<open>The low bits of a number that fits are the number.\<close>

lemma take_bit_id: "0 \<le> (x :: int) \<Longrightarrow> x < 2 ^ n \<Longrightarrow> take_bit n x = x"
  by (simp add: take_bit_int_eq_self)

lemma take_bit_range: "0 \<le> take_bit n (x :: int)" "take_bit n x < 2 ^ n"
  by (simp_all add: take_bit_nonnegative take_bit_int_less_exp)

lemma take_bit_add_left: "take_bit n (take_bit n (x :: int) + y) = take_bit n (x + y)"
  and take_bit_add_right: "take_bit n (x + take_bit n y) = take_bit n (x + y)"
  by (simp_all add: take_bit_eq_mod mod_simps)

text \<open>Rounding down to a power of two, the code's \<open>x & ~(2^n - 1)\<close>.\<close>

lemma and_not_mask: "(x :: int) AND NOT (2 ^ n - 1) = x - x mod 2 ^ n"
proof -
  have "x AND NOT (mask n) = push_bit n (drop_bit n x)"
    by (rule bit_eqI) (auto simp: bit_and_iff bit_not_iff bit_mask_iff bit_push_bit_iff bit_drop_bit_eq)
  then show ?thesis
    by (simp add: mask_eq_exp_minus_1 push_bit_eq_mult drop_bit_eq_div minus_mod_eq_div_mult)
qed

section \<open>Sign extension\<close>

text \<open>
  The code sign-extends with \<open>(value ^ sign) - sign\<close> after masking; HOL's
  \<open>signed_take_bit\<close> is the same function.
\<close>

lemma xor_sign_extend:
  "(take_bit (Suc n) (x :: int) XOR 2 ^ n) - 2 ^ n = signed_take_bit n x"
proof -
  have low: "take_bit n x + 2 ^ n = take_bit n x OR 2 ^ n"
    by (rule disjunctive_add [where ?'a = int, of "take_bit n x" "2 ^ n"])
      (auto simp: bit_take_bit_iff bit_exp_iff)
  show ?thesis
  proof (cases "bit x n")
    case True
    have "take_bit (Suc n) x XOR 2 ^ n = take_bit n x"
      by (rule bit_eqI) (use True in \<open>auto simp: bit_xor_iff bit_take_bit_iff bit_exp_iff less_Suc_eq\<close>)
    with True show ?thesis
      by (simp add: signed_take_bit_eq_take_bit_minus take_bit_Suc_from_most)
  next
    case False
    have "take_bit (Suc n) x XOR 2 ^ n = take_bit n x OR 2 ^ n"
      by (rule bit_eqI) (use False in \<open>auto simp: bit_xor_iff bit_or_iff bit_take_bit_iff bit_exp_iff less_Suc_eq\<close>)
    with False low show ?thesis
      by (simp add: signed_take_bit_eq_take_bit_minus take_bit_Suc_from_most)
  qed
qed

lemma signed_take_bit_id:
  "- (2 ^ n) \<le> (x :: int) \<Longrightarrow> x < 2 ^ n \<Longrightarrow> signed_take_bit n x = x"
  by (simp add: signed_take_bit_int_eq_self)

lemma signed_take_bit_range:
  "- (2 ^ n) \<le> signed_take_bit n (x :: int)" "signed_take_bit n x < 2 ^ n"
  by (simp_all add: signed_take_bit_int_greater_eq_minus_exp signed_take_bit_int_less_exp)

section \<open>Results that may be an exception\<close>

text \<open>
  A call that may raise returns \<open>'e + 'a\<close>: \<open>Inl e\<close> is the exception, \<open>Inr x\<close> the value.
  \<open>bindE m f\<close> is "evaluate \<open>m\<close>; if it did not raise, go on with \<open>f\<close>", the order in which Python
  evaluates consecutive statements.
\<close>

definition bindE :: "'e + 'a \<Rightarrow> ('a \<Rightarrow> 'e + 'b) \<Rightarrow> 'e + 'b" where
  "bindE m f = (case m of Inl e \<Rightarrow> Inl e | Inr x \<Rightarrow> f x)"

lemma bindE_simps [simp]: "bindE (Inl e) f = Inl e" "bindE (Inr x) f = f x"
  by (simp_all add: bindE_def)

lemma bindE_Inr_iff: "bindE m f = Inr y \<longleftrightarrow> (\<exists>x. m = Inr x \<and> f x = Inr y)"
  by (cases m) simp_all

lemma bindE_Inl_iff: "bindE m f = Inl e \<longleftrightarrow> m = Inl e \<or> (\<exists>x. m = Inr x \<and> f x = Inl e)"
  by (cases m) auto

lemma bindE_assoc: "bindE (bindE m f) g = bindE m (\<lambda>x. bindE (f x) g)"
  by (cases m) simp_all

text \<open>A list comprehension whose body may raise: the first exception wins.\<close>

fun mapE :: "('a \<Rightarrow> 'e + 'b) \<Rightarrow> 'a list \<Rightarrow> 'e + 'b list" where
  "mapE f [] = Inr []"
| "mapE f (x # xs) = bindE (f x) (\<lambda>y. bindE (mapE f xs) (\<lambda>ys. Inr (y # ys)))"

lemma mapE_Inr_iff: "mapE f xs = Inr ys \<longleftrightarrow> list_all2 (\<lambda>x y. f x = Inr y) xs ys"
  by (induction xs arbitrary: ys) (auto simp: bindE_Inr_iff list_all2_Cons1)

lemma mapE_all: "mapE f xs = Inr ys \<Longrightarrow> (\<And>x y. f x = Inr y \<Longrightarrow> P y) \<Longrightarrow> list_all P ys"
  by (induction xs arbitrary: ys) (auto simp: bindE_Inr_iff)

lemma mapE_length: "mapE f xs = Inr ys \<Longrightarrow> length ys = length xs"
  by (simp add: mapE_Inr_iff list_all2_lengthD)

section \<open>Stateful computations that may raise\<close>

text \<open>
  A method of a Python object reads and updates the object and may raise. The state is
  returned in both cases: what was assigned before the \<open>raise\<close> stays assigned.
\<close>

type_synonym ('s, 'e, 'a) sx = "'s \<Rightarrow> ('e + 'a) \<times> 's"

definition sx_return :: "'a \<Rightarrow> ('s, 'e, 'a) sx" where
  "sx_return x = (\<lambda>s. (Inr x, s))"

definition sx_raise :: "'e \<Rightarrow> ('s, 'e, 'a) sx" where
  "sx_raise e = (\<lambda>s. (Inl e, s))"

definition sx_bind :: "('s, 'e, 'a) sx \<Rightarrow> ('a \<Rightarrow> ('s, 'e, 'b) sx) \<Rightarrow> ('s, 'e, 'b) sx" where
  "sx_bind m f = (\<lambda>s. case m s of (r, s') \<Rightarrow> (case r of Inl e \<Rightarrow> (Inl e, s') | Inr x \<Rightarrow> f x s'))"

definition sx_gets :: "('s \<Rightarrow> 'a) \<Rightarrow> ('s, 'e, 'a) sx" where
  "sx_gets g = (\<lambda>s. (Inr (g s), s))"

definition sx_read :: "('s \<Rightarrow> 'e + 'a) \<Rightarrow> ('s, 'e, 'a) sx" where
  "sx_read g = (\<lambda>s. (g s, s))"

definition sx_modify :: "('s \<Rightarrow> 's) \<Rightarrow> ('s, 'e, unit) sx" where
  "sx_modify g = (\<lambda>s. (Inr (), g s))"

lemma sx_apply [sx_simps]:
  "sx_return x s = (Inr x, s)"
  "sx_raise e s = (Inl e, s)"
  "sx_gets g s = (Inr (g s), s)"
  "sx_read h s = (h s, s)"
  "sx_modify k s = (Inr (), k s)"
  by (simp_all add: sx_return_def sx_raise_def sx_gets_def sx_read_def sx_modify_def)

lemma sx_bind_apply [sx_simps]:
  "sx_bind m f s = (case m s of (r, s') \<Rightarrow> (case r of Inl e \<Rightarrow> (Inl e, s') | Inr x \<Rightarrow> f x s'))"
  by (simp add: sx_bind_def)

subsection \<open>Invariants of computations\<close>

text \<open>\<open>sx_keeps I m\<close>: whether it returns or raises, \<open>m\<close> keeps the invariant \<open>I\<close>.\<close>

definition sx_keeps :: "('s \<Rightarrow> bool) \<Rightarrow> ('s, 'e, 'a) sx \<Rightarrow> bool" where
  "sx_keeps I m \<longleftrightarrow> (\<forall>s. I s \<longrightarrow> I (snd (m s)))"

text \<open>\<open>sx_ensures I Q m\<close>: from a state with \<open>I\<close>, \<open>I\<close> is kept and a returned value satisfies \<open>Q\<close>.\<close>

definition sx_ensures :: "('s \<Rightarrow> bool) \<Rightarrow> ('a \<Rightarrow> bool) \<Rightarrow> ('s, 'e, 'a) sx \<Rightarrow> bool" where
  "sx_ensures I Q m \<longleftrightarrow>
     (\<forall>s. I s \<longrightarrow> I (snd (m s)) \<and> (\<forall>x. fst (m s) = Inr x \<longrightarrow> Q x))"

text \<open>\<open>sx_atomic m\<close>: if \<open>m\<close> raises, it has changed nothing.\<close>

definition sx_atomic :: "('s, 'e, 'a) sx \<Rightarrow> bool" where
  "sx_atomic m \<longleftrightarrow> (\<forall>s e. fst (m s) = Inl e \<longrightarrow> snd (m s) = s)"

text \<open>\<open>sx_total m\<close>: \<open>m\<close> never raises. \<open>sx_pure m\<close>: \<open>m\<close> never changes the state.\<close>

definition sx_total :: "('s, 'e, 'a) sx \<Rightarrow> bool" where
  "sx_total m \<longleftrightarrow> (\<forall>s e. fst (m s) \<noteq> Inl e)"

definition sx_pure :: "('s, 'e, 'a) sx \<Rightarrow> bool" where
  "sx_pure m \<longleftrightarrow> (\<forall>s. snd (m s) = s)"

named_theorems sx_rules \<open>compositional rules for \<open>sx_ensures\<close>, \<open>sx_atomic\<close>, \<open>sx_total\<close>, \<open>sx_pure\<close>\<close>

named_theorems sx_keeps_rules \<open>compositional rules for \<open>sx_keeps\<close>\<close>

lemma sx_keeps_basic [sx_keeps_rules]:
  "sx_keeps I (sx_return x)" "sx_keeps I (sx_raise e)" "sx_keeps I (sx_gets g)" "sx_keeps I (sx_read h)"
  "sx_keeps I m \<Longrightarrow> sx_keeps I n \<Longrightarrow> sx_keeps I (if b then m else n)"
  by (simp_all add: sx_keeps_def sx_simps)

lemma sx_keeps_modify: "(\<And>s. I s \<Longrightarrow> I (k s)) \<Longrightarrow> sx_keeps I (sx_modify k)"
  by (simp add: sx_keeps_def sx_simps)

lemma sx_keeps_bind [sx_keeps_rules]:
  "sx_keeps I m \<Longrightarrow> (\<And>x. sx_keeps I (f x)) \<Longrightarrow> sx_keeps I (sx_bind m f)"
  by (auto simp: sx_keeps_def sx_bind_def split: prod.splits sum.splits)

lemma sx_keeps_case [sx_keeps_rules]:
  "sx_keeps I m \<Longrightarrow> (\<And>x. sx_keeps I (f x)) \<Longrightarrow> sx_keeps I (case v of None \<Rightarrow> m | Some x \<Rightarrow> f x)"
  "(\<And>x y. sx_keeps I (g x y)) \<Longrightarrow> sx_keeps I (case w of (x, y) \<Rightarrow> g x y)"
  by (auto split: option.splits prod.splits)

lemma sx_ensures_bind:
  assumes "sx_ensures I Q m" and "\<And>x. Q x \<Longrightarrow> sx_ensures I R (f x)"
  shows "sx_ensures I R (sx_bind m f)"
  unfolding sx_ensures_def
proof (intro allI impI)
  fix s assume s: "I s"
  show "I (snd (sx_bind m f s)) \<and> (\<forall>x. fst (sx_bind m f s) = Inr x \<longrightarrow> R x)"
  proof (cases "m s")
    case (Pair r s')
    with assms(1) s have "I s'" "\<forall>x. r = Inr x \<longrightarrow> Q x"
      by (auto simp: sx_ensures_def dest!: spec [of _ s])
    with assms(2) Pair show ?thesis
      by (cases r) (auto simp: sx_bind_def sx_ensures_def)
  qed
qed

lemma sx_ensures_return [sx_rules]: "Q x \<Longrightarrow> sx_ensures I Q (sx_return x)"
  and sx_ensures_raise [sx_rules]: "sx_ensures I Q (sx_raise e)"
  and sx_ensures_gets: "(\<And>s. I s \<Longrightarrow> Q (g s)) \<Longrightarrow> sx_ensures I Q (sx_gets g)"
  and sx_ensures_read: "(\<And>s x. I s \<Longrightarrow> h s = Inr x \<Longrightarrow> Q x) \<Longrightarrow> sx_ensures I Q (sx_read h)"
  and sx_ensures_modify: "(\<And>s. I s \<Longrightarrow> I (k s)) \<Longrightarrow> sx_ensures I (\<lambda>_. True) (sx_modify k)"
  by (auto simp: sx_ensures_def sx_simps)

lemma sx_ensures_if [sx_rules]:
  "(b \<Longrightarrow> sx_ensures I Q m) \<Longrightarrow> (\<not> b \<Longrightarrow> sx_ensures I Q n) \<Longrightarrow> sx_ensures I Q (if b then m else n)"
  by simp

lemma sx_atomic_bind_total:
  "sx_atomic m \<Longrightarrow> (\<And>x. sx_total (f x)) \<Longrightarrow> sx_atomic (sx_bind m f)"
  by (auto simp: sx_atomic_def sx_total_def sx_bind_def split: prod.splits sum.splits)
    (metis fst_conv snd_conv)+

lemma sx_atomic_bind_pure:
  "sx_pure m \<Longrightarrow> (\<And>x. sx_atomic (f x)) \<Longrightarrow> sx_atomic (sx_bind m f)"
  by (auto simp: sx_atomic_def sx_pure_def sx_bind_def split: prod.splits sum.splits)
    (metis fst_conv snd_conv)+

lemma sx_atomic_basic [sx_rules]:
  "sx_atomic (sx_return x)" "sx_atomic (sx_raise e)" "sx_atomic (sx_gets g)"
  "sx_atomic (sx_read h)" "sx_atomic (sx_modify k)"
  by (simp_all add: sx_atomic_def sx_simps)

lemma sx_atomic_if [sx_rules]:
  "sx_atomic m \<Longrightarrow> sx_atomic n \<Longrightarrow> sx_atomic (if b then m else n)"
  by simp

lemma sx_total_basic [sx_rules]:
  "sx_total (sx_return x)" "sx_total (sx_gets g)" "sx_total (sx_modify k)"
  by (simp_all add: sx_total_def sx_simps)

lemma sx_total_bind [sx_rules]:
  "sx_total m \<Longrightarrow> (\<And>x. sx_total (f x)) \<Longrightarrow> sx_total (sx_bind m f)"
  by (auto simp: sx_total_def sx_bind_def split: prod.splits sum.splits) (metis fst_conv)

lemma sx_total_if [sx_rules]:
  "sx_total m \<Longrightarrow> sx_total n \<Longrightarrow> sx_total (if b then m else n)"
  by simp

lemma sx_pure_basic [sx_rules]:
  "sx_pure (sx_return x)" "sx_pure (sx_raise e)" "sx_pure (sx_gets g)" "sx_pure (sx_read h)"
  by (simp_all add: sx_pure_def sx_simps)

text \<open>Statements that only read, and a last assignment: the forms a bind takes in the code.\<close>

lemma sx_atomic_bind_read [sx_rules]:
  "(\<And>x. sx_atomic (f x)) \<Longrightarrow> sx_atomic (sx_bind (sx_gets g) f)"
  "(\<And>x. sx_atomic (f x)) \<Longrightarrow> sx_atomic (sx_bind (sx_read h) f)"
  by (simp_all add: sx_atomic_bind_pure sx_pure_basic)

lemma sx_atomic_bind_modify [sx_rules]:
  "(\<And>x. sx_total (f x)) \<Longrightarrow> sx_atomic (sx_bind (sx_modify k) f)"
  by (simp add: sx_atomic_bind_total sx_atomic_basic)

text \<open>\<open>sx_commutes h m\<close>: what \<open>m\<close> does where it returns, it also does on the state changed by \<open>h\<close>.\<close>

definition sx_commutes :: "('s \<Rightarrow> 's) \<Rightarrow> ('s, 'e, 'a) sx \<Rightarrow> bool" where
  "sx_commutes h m \<longleftrightarrow> (\<forall>s x s'. m s = (Inr x, s') \<longrightarrow> m (h s) = (Inr x, h s'))"

named_theorems sx_commute_rules \<open>compositional rules for \<open>sx_commutes\<close>\<close>

lemma sx_commutes_basic [sx_commute_rules]:
  "sx_commutes h (sx_return x)" "sx_commutes h (sx_raise e)"
  "(\<And>s. g (h s) = g s) \<Longrightarrow> sx_commutes h (sx_gets g)"
  "(\<And>s x. k s = Inr x \<Longrightarrow> k (h s) = Inr x) \<Longrightarrow> sx_commutes h (sx_read k)"
  "(\<And>s. u (h s) = h (u s)) \<Longrightarrow> sx_commutes h (sx_modify u)"
  by (auto simp: sx_commutes_def sx_simps)

lemma sx_commutes_bind [sx_commute_rules]:
  "sx_commutes h m \<Longrightarrow> (\<And>x. sx_commutes h (f x)) \<Longrightarrow> sx_commutes h (sx_bind m f)"
  by (auto simp: sx_commutes_def sx_bind_def split: prod.splits sum.splits)

lemma sx_commutes_case [sx_commute_rules]:
  "sx_commutes h m \<Longrightarrow> sx_commutes h n \<Longrightarrow> sx_commutes h (if b then m else n)"
  "sx_commutes h m \<Longrightarrow> (\<And>x. sx_commutes h (f x)) \<Longrightarrow> sx_commutes h (case v of None \<Rightarrow> m | Some x \<Rightarrow> f x)"
  "(\<And>x y. sx_commutes h (g x y)) \<Longrightarrow> sx_commutes h (case w of (x, y) \<Rightarrow> g x y)"
  by (auto split: option.splits prod.splits)

end
