(* ===== verification/Encoding.thy ===== *)
theory Encoding
  imports Python_Base
begin

text \<open>
  \<open>tools/refmodel/encoding.py\<close>: the RV32I encoding tables that the assembler and the reference
  emulator share. Each \<open>IntEnum\<close> is a datatype with the members of the class, and a function
  giving the integer of each member. Constructors carry the prefix that
  \<open>scripts/encoding_check.py\<close> strips from the SystemVerilog names (\<open>OP_\<close>, \<open>F3_\<close>, \<open>ALU_\<close>, ...).
\<close>

definition XLEN :: nat where
  "XLEN = 32"

section \<open>Opcodes, \<open>inst[6:0]\<close>\<close>

datatype Opcode =
  OP_LUI | OP_AUIPC | OP_JAL | OP_JALR | OP_BRANCH | OP_LOAD | OP_STORE | OP_IMM | OP_REG
| OP_FENCE | OP_SYSTEM

fun Opcode_value :: "Opcode \<Rightarrow> int" where
  "Opcode_value OP_LUI    = 0b0110111"
| "Opcode_value OP_AUIPC  = 0b0010111"
| "Opcode_value OP_JAL    = 0b1101111"
| "Opcode_value OP_JALR   = 0b1100111"
| "Opcode_value OP_BRANCH = 0b1100011"
| "Opcode_value OP_LOAD   = 0b0000011"
| "Opcode_value OP_STORE  = 0b0100011"
| "Opcode_value OP_IMM    = 0b0010011"
| "Opcode_value OP_REG    = 0b0110011"
| "Opcode_value OP_FENCE  = 0b0001111"
| "Opcode_value OP_SYSTEM = 0b1110011"

section \<open>\<open>funct3\<close> fields\<close>

datatype F3Op = F3_ADD_SUB | F3_SLL | F3_SLT | F3_SLTU | F3_XOR | F3_SR | F3_OR | F3_AND

fun F3Op_value :: "F3Op \<Rightarrow> int" where
  "F3Op_value F3_ADD_SUB = 0b000"
| "F3Op_value F3_SLL     = 0b001"
| "F3Op_value F3_SLT     = 0b010"
| "F3Op_value F3_SLTU    = 0b011"
| "F3Op_value F3_XOR     = 0b100"
| "F3Op_value F3_SR      = 0b101"
| "F3Op_value F3_OR      = 0b110"
| "F3Op_value F3_AND     = 0b111"

datatype F3Branch = F3_BEQ | F3_BNE | F3_BLT | F3_BGE | F3_BLTU | F3_BGEU

fun F3Branch_value :: "F3Branch \<Rightarrow> int" where
  "F3Branch_value F3_BEQ  = 0b000"
| "F3Branch_value F3_BNE  = 0b001"
| "F3Branch_value F3_BLT  = 0b100"
| "F3Branch_value F3_BGE  = 0b101"
| "F3Branch_value F3_BLTU = 0b110"
| "F3Branch_value F3_BGEU = 0b111"

datatype F3Load = F3_LB | F3_LH | F3_LW | F3_LBU | F3_LHU

fun F3Load_value :: "F3Load \<Rightarrow> int" where
  "F3Load_value F3_LB  = 0b000"
| "F3Load_value F3_LH  = 0b001"
| "F3Load_value F3_LW  = 0b010"
| "F3Load_value F3_LBU = 0b100"
| "F3Load_value F3_LHU = 0b101"

datatype F3Store = F3_SB | F3_SH | F3_SW

fun F3Store_value :: "F3Store \<Rightarrow> int" where
  "F3Store_value F3_SB = 0b000"
| "F3Store_value F3_SH = 0b001"
| "F3Store_value F3_SW = 0b010"

section \<open>\<open>funct7\<close> and \<open>funct12\<close> distinguishers\<close>

definition F7_DEFAULT :: int where "F7_DEFAULT = 0b0000000"
definition F7_ALT :: int where "F7_ALT = 0b0100000"
definition F12_ECALL :: int where "F12_ECALL = 0x000"
definition F12_EBREAK :: int where "F12_EBREAK = 0x001"

section \<open>Selectors of the datapath\<close>

datatype AluOp =
  ALU_ADD | ALU_SUB | ALU_AND | ALU_OR | ALU_XOR | ALU_SLL | ALU_SRL | ALU_SRA | ALU_SLT
| ALU_SLTU | ALU_PASS_B

fun AluOp_value :: "AluOp \<Rightarrow> int" where
  "AluOp_value ALU_ADD    = 0"
| "AluOp_value ALU_SUB    = 1"
| "AluOp_value ALU_AND    = 2"
| "AluOp_value ALU_OR     = 3"
| "AluOp_value ALU_XOR    = 4"
| "AluOp_value ALU_SLL    = 5"
| "AluOp_value ALU_SRL    = 6"
| "AluOp_value ALU_SRA    = 7"
| "AluOp_value ALU_SLT    = 8"
| "AluOp_value ALU_SLTU   = 9"
| "AluOp_value ALU_PASS_B = 10"

datatype AluSrcA = ALU_A_RS1 | ALU_A_PC

fun AluSrcA_value :: "AluSrcA \<Rightarrow> int" where
  "AluSrcA_value ALU_A_RS1 = 0"
| "AluSrcA_value ALU_A_PC  = 1"

datatype AluSrcB = ALU_B_RS2 | ALU_B_IMM

fun AluSrcB_value :: "AluSrcB \<Rightarrow> int" where
  "AluSrcB_value ALU_B_RS2 = 0"
| "AluSrcB_value ALU_B_IMM = 1"

datatype WbSrc = WB_ALU | WB_MEM | WB_PC4

fun WbSrc_value :: "WbSrc \<Rightarrow> int" where
  "WbSrc_value WB_ALU = 0"
| "WbSrc_value WB_MEM = 1"
| "WbSrc_value WB_PC4 = 2"

datatype BranchOp = BR_NONE | BR_EQ | BR_NE | BR_LT | BR_GE | BR_LTU | BR_GEU | BR_JUMP

fun BranchOp_value :: "BranchOp \<Rightarrow> int" where
  "BranchOp_value BR_NONE = 0"
| "BranchOp_value BR_EQ   = 1"
| "BranchOp_value BR_NE   = 2"
| "BranchOp_value BR_LT   = 3"
| "BranchOp_value BR_GE   = 4"
| "BranchOp_value BR_LTU  = 5"
| "BranchOp_value BR_GEU  = 6"
| "BranchOp_value BR_JUMP = 7"

datatype MemSize = MEM_B | MEM_H | MEM_W

fun MemSize_value :: "MemSize \<Rightarrow> int" where
  "MemSize_value MEM_B = 0"
| "MemSize_value MEM_H = 1"
| "MemSize_value MEM_W = 2"

section \<open>The tables are usable as encodings\<close>

lemma Opcode_value_range: "0 \<le> Opcode_value op \<and> Opcode_value op < 128"
  by (cases op) simp_all

lemma Opcode_value_inj: "Opcode_value a = Opcode_value b \<longleftrightarrow> a = b"
  by (cases a; cases b) simp_all

lemma F3Op_value_range: "0 \<le> F3Op_value f \<and> F3Op_value f < 8"
  by (cases f) simp_all

lemma F3Op_value_inj: "F3Op_value a = F3Op_value b \<longleftrightarrow> a = b"
  by (cases a; cases b) simp_all

lemma F3Branch_value_range: "0 \<le> F3Branch_value f \<and> F3Branch_value f < 8"
  by (cases f) simp_all

lemma F3Load_value_range: "0 \<le> F3Load_value f \<and> F3Load_value f < 8"
  by (cases f) simp_all

lemma F3Store_value_range: "0 \<le> F3Store_value f \<and> F3Store_value f < 8"
  by (cases f) simp_all

end
