(* ===== verification/Python_Strings.thy ===== *)
theory Python_Strings
  imports Python_Base "HOL-Library.Sublist"
begin

text \<open>
  The part of Python's \<open>str\<close> and \<open>int\<close> that the tools use, for ASCII text: character classes,
  \<open>strip\<close>, \<open>lower\<close>, \<open>splitlines\<close>, \<open>split\<close>, \<open>int(s, base)\<close> and the \<open>{v:08x}\<close> and \<open>{v}\<close> formats.
  A \<open>str\<close> is a \<open>string\<close>; \<open>of_char\<close> reads a character's code.
\<close>

section \<open>Character classes\<close>

abbreviation char_code :: "char \<Rightarrow> nat" where
  "char_code c \<equiv> (of_char c :: nat)"

text \<open>\<open>str.isspace\<close> and the regular expression class \<open>\s\<close>, on ASCII.\<close>

definition py_isspace :: "char \<Rightarrow> bool" where
  "py_isspace c = (let n = char_code c in (9 \<le> n \<and> n \<le> 13) \<or> (28 \<le> n \<and> n \<le> 32))"

text \<open>The C \<open>isspace\<close> that \<open>int()\<close> applies inside its argument.\<close>

definition c_isspace :: "char \<Rightarrow> bool" where
  "c_isspace c = (let n = char_code c in (9 \<le> n \<and> n \<le> 13) \<or> n = 32)"

definition py_isupper :: "char \<Rightarrow> bool" where
  "py_isupper c = (65 \<le> char_code c \<and> char_code c \<le> 90)"

definition py_islower :: "char \<Rightarrow> bool" where
  "py_islower c = (97 \<le> char_code c \<and> char_code c \<le> 122)"

definition py_isdigit :: "char \<Rightarrow> bool" where
  "py_isdigit c = (48 \<le> char_code c \<and> char_code c \<le> 57)"

definition py_isalpha :: "char \<Rightarrow> bool" where
  "py_isalpha c = (py_isupper c \<or> py_islower c)"

text \<open>The line boundaries of \<open>str.splitlines\<close>, apart from the pair CR LF.\<close>

definition py_islinebreak :: "char \<Rightarrow> bool" where
  "py_islinebreak c = (let n = char_code c in (10 \<le> n \<and> n \<le> 13) \<or> (28 \<le> n \<and> n \<le> 30))"

text \<open>The classes by the bits of the code, for evaluation.\<close>

lemma py_isspace_code [code]:
  "py_isspace (Char b0 b1 b2 b3 b4 b5 b6 b7) =
     (\<not> b7 \<and> \<not> b6 \<and> (if b5 then \<not> b4 \<and> \<not> b3 \<and> \<not> b2 \<and> \<not> b1 \<and> \<not> b0
        else b3 \<and> (if b4 then b2 else (b2 \<or> b1 \<or> b0) \<and> \<not> (b2 \<and> b1))))"
  by (simp add: py_isspace_def of_char_def Let_def)

lemma c_isspace_code [code]:
  "c_isspace (Char b0 b1 b2 b3 b4 b5 b6 b7) =
     (\<not> b7 \<and> \<not> b6 \<and> \<not> b4 \<and> (if b5 then \<not> b3 \<and> \<not> b2 \<and> \<not> b1 \<and> \<not> b0
        else b3 \<and> (b2 \<or> b1 \<or> b0) \<and> \<not> (b2 \<and> b1)))"
  by (simp add: c_isspace_def of_char_def Let_def)

lemma py_isdigit_code [code]:
  "py_isdigit (Char b0 b1 b2 b3 b4 b5 b6 b7) = (\<not> b7 \<and> \<not> b6 \<and> b5 \<and> b4 \<and> (b3 \<longrightarrow> \<not> b2 \<and> \<not> b1))"
  by (simp add: py_isdigit_def of_char_def)

lemma py_isupper_code [code]:
  "py_isupper (Char b0 b1 b2 b3 b4 b5 b6 b7) =
     (\<not> b7 \<and> b6 \<and> \<not> b5 \<and> (if b4 then \<not> b3 \<or> \<not> b2 \<and> (\<not> b1 \<or> \<not> b0) else b3 \<or> b2 \<or> b1 \<or> b0))"
  by (simp add: py_isupper_def of_char_def)

lemma py_islower_code [code]:
  "py_islower (Char b0 b1 b2 b3 b4 b5 b6 b7) =
     (\<not> b7 \<and> b6 \<and> b5 \<and> (if b4 then \<not> b3 \<or> \<not> b2 \<and> (\<not> b1 \<or> \<not> b0) else b3 \<or> b2 \<or> b1 \<or> b0))"
  by (simp add: py_islower_def of_char_def)

lemma py_islinebreak_code [code]:
  "py_islinebreak (Char b0 b1 b2 b3 b4 b5 b6 b7) =
     (\<not> b7 \<and> \<not> b6 \<and> \<not> b5 \<and> b3 \<and> (if b4 then b2 \<and> (\<not> b1 \<or> \<not> b0) else (if b2 then \<not> b1 else b1)))"
  by (simp add: py_islinebreak_def of_char_def Let_def)

section \<open>String methods\<close>

definition py_lstrip :: "string \<Rightarrow> string" where
  "py_lstrip s = dropWhile py_isspace s"

definition py_rstrip :: "string \<Rightarrow> string" where
  "py_rstrip s = rev (dropWhile py_isspace (rev s))"

definition py_strip :: "string \<Rightarrow> string" where
  "py_strip s = py_rstrip (py_lstrip s)"

definition py_lower_char :: "char \<Rightarrow> char" where
  "py_lower_char c = (if py_isupper c then char_of (char_code c + 32) else c)"

lemma py_lower_char_code [code]:
  "py_lower_char (Char b0 b1 b2 b3 b4 b5 b6 b7) =
     (if py_isupper (Char b0 b1 b2 b3 b4 b5 b6 b7) then Char b0 b1 b2 b3 b4 True b6 b7
      else Char b0 b1 b2 b3 b4 b5 b6 b7)"
proof (cases "py_isupper (Char b0 b1 b2 b3 b4 b5 b6 b7)")
  case True
  then have "\<not> b5" by (simp add: py_isupper_code)
  then have "char_code (Char b0 b1 b2 b3 b4 b5 b6 b7) + 32 = char_code (Char b0 b1 b2 b3 b4 True b6 b7)"
    by (simp add: of_char_def)
  then show ?thesis
    unfolding py_lower_char_def using True by (metis char_of_char)
qed (simp add: py_lower_char_def)

definition py_lower :: "string \<Rightarrow> string" where
  "py_lower s = map py_lower_char s"

definition py_startswith :: "string \<Rightarrow> string \<Rightarrow> bool" where
  "py_startswith p s = (take (length p) s = p)"

text \<open>\<open>s.replace(c, "")\<close> for a single character.\<close>

definition py_remove :: "char \<Rightarrow> string \<Rightarrow> string" where
  "py_remove c s = filter (\<lambda>d. d \<noteq> c) s"

text \<open>\<open>s.split(c)\<close> for a single-character separator: never empty, keeps empty pieces.\<close>

fun py_split_on :: "char \<Rightarrow> string \<Rightarrow> string list" where
  "py_split_on c [] = [[]]"
| "py_split_on c (d # s) =
     (if d = c then [] # py_split_on c s
      else (case py_split_on c s of [] \<Rightarrow> [[d]] | p # ps \<Rightarrow> (d # p) # ps))"

text \<open>\<open>s.split(None, 1)\<close>: the first word, then what follows the white space after it.\<close>

definition py_split1 :: "string \<Rightarrow> string list" where
  "py_split1 s =
     (let t = py_lstrip s;
          w = takeWhile (\<lambda>c. \<not> py_isspace c) t;
          r = py_lstrip (dropWhile (\<lambda>c. \<not> py_isspace c) t)
      in if w = [] then [] else if r = [] then [w] else [w, r])"

text \<open>\<open>s.splitlines()\<close>; \<open>cur\<close> is the current line, reversed.\<close>

fun py_splitlines_from :: "string \<Rightarrow> string \<Rightarrow> string list" where
  "py_splitlines_from cur [] = (if cur = [] then [] else [rev cur])"
| "py_splitlines_from cur (c # s) =
     (if c = CHR 0x0D then
        rev cur # (case s of [] \<Rightarrow> []
                   | d # s' \<Rightarrow> if d = CHR 0x0A then py_splitlines_from [] s'
                               else py_splitlines_from [] s)
      else if py_islinebreak c then rev cur # py_splitlines_from [] s
      else py_splitlines_from (c # cur) s)"

definition py_splitlines :: "string \<Rightarrow> string list" where
  "py_splitlines s = py_splitlines_from [] s"

section \<open>Reading integers: \<open>int(s, base)\<close>\<close>

text \<open>The value of a digit, in any base up to 36.\<close>

definition digit_value :: "char \<Rightarrow> nat option" where
  "digit_value c =
     (if py_isdigit c then Some (char_code c - 48)
      else if py_islower c then Some (char_code c - 87)
      else if py_isupper c then Some (char_code c - 55)
      else None)"

definition is_digit_of :: "nat \<Rightarrow> char \<Rightarrow> bool" where
  "is_digit_of base c = (case digit_value c of None \<Rightarrow> False | Some d \<Rightarrow> d < base)"

definition digits_value :: "nat \<Rightarrow> string \<Rightarrow> int" where
  "digits_value base s =
     foldl (\<lambda>a c. a * int base + (case digit_value c of None \<Rightarrow> 0 | Some d \<Rightarrow> int d)) 0 s"

text \<open>
  \<open>int(s, base)\<close> skips white space, takes one sign, an optional base prefix (\<open>0x\<close> in base 16,
  \<open>0o\<close> in base 8, \<open>0b\<close> in base 2), then at least one digit, then white space to the end; anything
  else is a \<open>ValueError\<close> (\<open>None\<close>). The callers remove underscores first, so an underscore is no
  digit here.
\<close>

definition base_prefix :: "nat \<Rightarrow> string list" where
  "base_prefix base =
     (if base = 16 then [''0x'', ''0X''] else if base = 8 then [''0o'', ''0O'']
      else if base = 2 then [''0b'', ''0B''] else [])"

definition py_int :: "nat \<Rightarrow> string \<Rightarrow> int option" where
  "py_int base s =
     (let s1 = dropWhile c_isspace s;
          neg = py_startswith ''-'' s1;
          s2 = (if neg \<or> py_startswith ''+'' s1 then drop 1 s1 else s1);
          s3 = (if list_ex (\<lambda>p. py_startswith p s2) (base_prefix base) then drop 2 s2 else s2);
          ds = takeWhile (is_digit_of base) s3;
          rest = dropWhile (is_digit_of base) s3
      in if ds = [] \<or> \<not> list_all c_isspace rest then None
         else Some (if neg then - digits_value base ds else digits_value base ds))"

section \<open>Writing integers: the formats \<open>{v}\<close>, \<open>{v:x}\<close>, \<open>{v:08x}\<close>\<close>

definition digit_char :: "nat \<Rightarrow> char" where
  "digit_char d = ''0123456789abcdef'' ! d"

fun digits_of :: "nat \<Rightarrow> nat \<Rightarrow> string" where
  "digits_of base n =
     (if n < base \<or> base < 2 then [digit_char n]
      else digits_of base (n div base) @ [digit_char (n mod base)])"

declare digits_of.simps [simp del]

text \<open>\<open>format_int base width v\<close>: zero padding comes after the sign, which counts in the width.\<close>

definition format_int :: "nat \<Rightarrow> nat \<Rightarrow> int \<Rightarrow> string" where
  "format_int base width v =
     (let sign = (if v < 0 then ''-'' else ''''); body = digits_of base (nat \<bar>v\<bar>)
      in sign @ replicate (width - (length sign + length body)) (CHR ''0'') @ body)"

abbreviation fmt_d :: "int \<Rightarrow> string" where
  "fmt_d v \<equiv> format_int 10 0 v"

abbreviation fmt_x :: "nat \<Rightarrow> int \<Rightarrow> string" where
  "fmt_x width v \<equiv> format_int 16 width v"

section \<open>Reading back what was written\<close>

lemma digit_value_digit_char:
  assumes "d < 16"
  shows "digit_value (digit_char d) = Some d"
proof -
  have "\<forall>d \<in> {0..<16}. digit_value (digit_char d) = Some d"
    by code_simp
  with assms show ?thesis by simp
qed

lemma is_digit_of_digit_char: "d < base \<Longrightarrow> base \<le> 16 \<Longrightarrow> is_digit_of base (digit_char d)"
  by (simp add: is_digit_of_def digit_value_digit_char)

lemma digits_value_append: "digits_value base (s @ [c]) =
    digits_value base s * int base + (case digit_value c of None \<Rightarrow> 0 | Some d \<Rightarrow> int d)"
  by (simp add: digits_value_def)

lemma digits_of_nonempty: "digits_of base n \<noteq> []"
  by (subst digits_of.simps) simp

lemma digits_of_digits:
  assumes "2 \<le> base" "base \<le> 16"
  shows "list_all (is_digit_of base) (digits_of base n)"
  using assms
proof (induction base n rule: digits_of.induct)
  case (1 base n)
  then show ?case
    by (cases "n < base") (auto simp: digits_of.simps [of base n] is_digit_of_digit_char)
qed

lemma digits_value_digits_of:
  assumes "2 \<le> base" "base \<le> 16"
  shows "digits_value base (digits_of base n) = int n"
  using assms
proof (induction base n rule: digits_of.induct)
  case (1 base n)
  show ?case
  proof (cases "n < base")
    case True
    with 1 show ?thesis
      by (simp add: digits_of.simps [of base n] digits_value_def digit_value_digit_char)
  next
    case False
    with 1 have "digits_value base (digits_of base (n div base)) = int (n div base)"
      by simp
    moreover have "n mod base < base"
      using "1.prems" by simp
    then have "digit_value (digit_char (n mod base)) = Some (n mod base)"
      using "1.prems" by (intro digit_value_digit_char) linarith
    ultimately show ?thesis
      using False "1.prems"
      by (simp add: digits_of.simps [of base n] digits_value_append flip: of_nat_mult of_nat_add)
  qed
qed

lemma digits_value_zeros: "digits_value base (replicate k (CHR ''0'') @ s) = digits_value base s"
proof -
  have "foldl (\<lambda>a c. a * int base + (case digit_value c of None \<Rightarrow> 0 | Some d \<Rightarrow> int d)) 0
          (replicate k (CHR ''0'')) = 0"
    by (induction k) (simp_all add: digit_value_def py_isdigit_def)
  then show ?thesis by (simp add: digits_value_def)
qed

section \<open>Digits are no prefix, sign or white space\<close>

lemma digit_code:
  assumes "is_digit_of base c" "base \<le> 16"
  shows "48 \<le> char_code c" "char_code c \<le> 57 \<or> (65 \<le> char_code c \<and> char_code c \<le> 70) \<or> (97 \<le> char_code c \<and> char_code c \<le> 102)"
  using assms
  by (auto simp: is_digit_of_def digit_value_def py_isdigit_def py_islower_def py_isupper_def
      split: if_splits)

lemma digit_plain:
  assumes "is_digit_of base c" "base \<le> 16"
  shows "\<not> c_isspace c" "\<not> py_isspace c" "\<not> py_islinebreak c" "c \<noteq> CHR 0x0D" "c \<noteq> CHR ''-''" "c \<noteq> CHR ''+''"
    "c \<noteq> CHR ''x''" "c \<noteq> CHR ''X''" "c \<noteq> CHR ''o''" "c \<noteq> CHR ''O''" "c \<noteq> CHR ''_''"
  using digit_code [OF assms] by (auto simp: c_isspace_def py_isspace_def py_islinebreak_def Let_def)

lemma digit_2_plain: "is_digit_of 2 c \<Longrightarrow> c \<noteq> CHR ''b'' \<and> c \<noteq> CHR ''B''"
  by (auto simp: is_digit_of_def digit_value_def py_isdigit_def py_islower_def py_isupper_def
      split: if_splits)

text \<open>\<open>int(s, base)\<close> of a string of digits is their value: no digit is taken for a prefix.\<close>

lemma no_base_prefix:
  assumes "list_all (is_digit_of base) s" "base \<in> {2, 8, 10, 16}"
  shows "\<not> list_ex (\<lambda>p. py_startswith p s) (base_prefix base)"
proof -
  have second: "\<not> py_startswith [c, d] s" if "\<not> is_digit_of base d" for c d
    using that assms(1) by (cases s; cases "tl s") (auto simp: py_startswith_def)
  have "\<not> is_digit_of base d" if "[c, d] \<in> set (base_prefix base)" for c d
    using that assms(2) digit_plain(7-10) [of base d] digit_2_plain [of d] by (auto simp: base_prefix_def)
  with second show ?thesis
    by (auto simp: list_ex_iff base_prefix_def split: if_splits)
qed

lemma py_int_digits:
  assumes "s \<noteq> []" "list_all (is_digit_of base) s" "base \<in> {2, 8, 10, 16}"
  shows "py_int base s = Some (digits_value base s)"
proof -
  obtain c t where s: "s = c # t" using assms(1) by (cases s) auto
  have c: "is_digit_of base c" "base \<le> 16" using assms(2,3) s by auto
  have all: "takeWhile (is_digit_of base) s = s" "dropWhile (is_digit_of base) s = []"
    using assms(2) by (simp_all add: takeWhile_eq_all_conv dropWhile_eq_Nil_conv list_all_iff)
  have "\<not> py_startswith ''-'' s" "\<not> py_startswith ''+'' s" "dropWhile c_isspace s = s"
    using digit_plain [OF c] by (simp_all add: s py_startswith_def)
  then show ?thesis
    using no_base_prefix [OF assms(2,3)] assms(1) by (simp add: py_int_def Let_def all)
qed

section \<open>Lines and blanks\<close>

lemma splitlines_line:
  assumes "list_all (\<lambda>c. c \<noteq> CHR 0x0D \<and> \<not> py_islinebreak c) l"
  shows "py_splitlines_from cur (l @ CHR 0x0A # s) = (rev cur @ l) # py_splitlines_from [] s"
  using assms
  by (induction l arbitrary: cur) (auto simp: py_islinebreak_def Let_def)

lemma splitlines_concat:
  assumes "list_all (list_all (\<lambda>c. c \<noteq> CHR 0x0D \<and> \<not> py_islinebreak c)) ls"
  shows "py_splitlines (concat (map (\<lambda>l. l @ [CHR 0x0A]) ls)) = ls"
  using assms unfolding py_splitlines_def
  by (induction ls) (simp_all add: splitlines_line)

lemma dropWhile_none: "list_all (\<lambda>c. \<not> P c) s \<Longrightarrow> dropWhile P s = s"
  by (cases s) simp_all

lemma strip_plain: "list_all (\<lambda>c. \<not> py_isspace c) s \<Longrightarrow> py_strip s = s"
  by (simp add: py_strip_def py_lstrip_def py_rstrip_def dropWhile_none)

lemma remove_plain: "list_all (\<lambda>c. c \<noteq> d) s \<Longrightarrow> py_remove d s = s"
  by (simp add: py_remove_def list_all_iff filter_id_conv)

lemma digit_10: "is_digit_of 10 c \<longleftrightarrow> py_isdigit c"
  by (auto simp: is_digit_of_def digit_value_def py_isdigit_def py_islower_def py_isupper_def
      split: if_splits)

lemma digit_mono: "is_digit_of b c \<Longrightarrow> b \<le> b' \<Longrightarrow> is_digit_of b' c"
  by (auto simp: is_digit_of_def split: option.splits)

end
