(* ===== verification/Asm_Text.thy ===== *)
theory Asm_Text
  imports Encoding Python_Strings "HOL-Library.AList"
begin

text \<open>
  \<open>tools/assembler/assemble.py\<close>, the textual half: \<open>AsmError\<close>, \<open>parse_reg\<close>, \<open>parse_int\<close>, the
  regular expressions, \<open>_split_args\<close>, the \<open>Line\<close> record and \<open>tokenize\<close>.
\<close>

section \<open>Errors\<close>

text \<open>
  What an \<open>AsmError\<close> complains about: one constructor for each \<open>raise\<close> of the source, with the
  values its message shows. The wording of the message is not modelled.
\<close>

datatype asm_msg =
  Bad_register string
| Bad_int_literal string
| Out_of_signed string int nat
| Out_of_unsigned string int nat
| Duplicate_label string
| Align_needs_one
| Align_unreasonable int
| Word_needs_value
| Byte_needs_value
| Empty_operand
| Undefined_symbol string
| Expected_operands string nat nat
| Branch_not_aligned int
| Jal_not_aligned int
| Jal_operands
| Jalr_operands
| Upper_out_of_range string int
| Ret_operands
| Unknown_mnemonic string

text \<open>
  \<open>AsmError lineno msg src\<close>, or a built-in exception that escapes: \<open>1 << n\<close> raises
  \<open>ValueError\<close> for a negative count.
\<close>

datatype asm_exn =
  AsmError (err_lineno: int) asm_msg string
| PyValueError string

section \<open>Registers\<close>

definition REG_ALIASES :: "(string \<times> int) list" where
  "REG_ALIASES =
    [(''zero'', 0), (''ra'', 1), (''sp'', 2), (''gp'', 3), (''tp'', 4),
     (''t0'', 5), (''t1'', 6), (''t2'', 7),
     (''s0'', 8), (''fp'', 8), (''s1'', 9),
     (''a0'', 10), (''a1'', 11), (''a2'', 12), (''a3'', 13),
     (''a4'', 14), (''a5'', 15), (''a6'', 16), (''a7'', 17),
     (''s2'', 18), (''s3'', 19), (''s4'', 20), (''s5'', 21),
     (''s6'', 22), (''s7'', 23), (''s8'', 24), (''s9'', 25),
     (''s10'', 26), (''s11'', 27),
     (''t3'', 28), (''t4'', 29), (''t5'', 30), (''t6'', 31)]"

text \<open>\<open>re.fullmatch(r"x([0-9]+)", t)\<close>.\<close>

definition match_xreg :: "string \<Rightarrow> string option" where
  "match_xreg t =
     (case t of [] \<Rightarrow> None
      | c # ds \<Rightarrow> if c = CHR ''x'' \<and> ds \<noteq> [] \<and> list_all py_isdigit ds then Some ds else None)"

definition parse_reg :: "string \<Rightarrow> int \<Rightarrow> string \<Rightarrow> asm_exn + int" where
  "parse_reg tok lineno src =
     (let t = py_lower (py_strip tok); bad = Inl (AsmError lineno (Bad_register tok) src) in
      case map_of REG_ALIASES t of
        Some n \<Rightarrow> Inr n
      | None \<Rightarrow>
          (case match_xreg t of
             None \<Rightarrow> bad
           | Some ds \<Rightarrow>
               (case py_int 10 ds of
                  None \<Rightarrow> bad
                | Some n \<Rightarrow> if 0 \<le> n \<and> n \<le> 31 then Inr n else bad)))"

section \<open>Integer literals\<close>

definition parse_int_text :: "string \<Rightarrow> int option" where
  "parse_int_text t =
     (let neg = map_option uminus in
      if py_startswith ''-0x'' t \<or> py_startswith ''-0X'' t then neg (py_int 16 (drop 3 t))
      else if py_startswith ''0x'' t \<or> py_startswith ''0X'' t then py_int 16 (drop 2 t)
      else if py_startswith ''-0b'' t \<or> py_startswith ''-0B'' t then neg (py_int 2 (drop 3 t))
      else if py_startswith ''0b'' t \<or> py_startswith ''0B'' t then py_int 2 (drop 2 t)
      else if py_startswith ''-0o'' t \<or> py_startswith ''-0O'' t then neg (py_int 8 (drop 3 t))
      else if py_startswith ''0o'' t \<or> py_startswith ''0O'' t then py_int 8 (drop 2 t)
      else py_int 10 t)"

definition parse_int :: "string \<Rightarrow> int \<Rightarrow> string \<Rightarrow> asm_exn + int" where
  "parse_int tok lineno src =
     (case parse_int_text (py_remove (CHR ''_'') (py_strip tok)) of
        None \<Rightarrow> Inl (AsmError lineno (Bad_int_literal tok) src)
      | Some v \<Rightarrow> Inr v)"

section \<open>Lines\<close>

record Line =
  ln_lineno :: int
  ln_raw :: string
  ln_label :: "string option"
  ln_op :: "string option"
  ln_args :: "string list"
  ln_section :: string
  ln_pc :: int
  ln_size :: int

text \<open>\<open>_COMMENT_RE.sub("", raw)\<close>: cut at the first \<open>#\<close> or \<open>//\<close>.\<close>

fun strip_comment :: "string \<Rightarrow> string" where
  "strip_comment [] = []"
| "strip_comment (c # s) =
     (if c = CHR ''#'' \<or> (c = CHR ''/'' \<and> py_startswith ''/'' s) then [] else c # strip_comment s)"

definition label_start :: "char \<Rightarrow> bool" where
  "label_start c = (py_isalpha c \<or> c = CHR ''_'' \<or> c = CHR ''.'')"

definition label_char :: "char \<Rightarrow> bool" where
  "label_char c = (label_start c \<or> py_isdigit c \<or> c = CHR ''$'')"

text \<open>\<open>_LABEL_RE.match(line)\<close>, with its two groups.\<close>

definition match_label :: "string \<Rightarrow> (string \<times> string) option" where
  "match_label line =
     (let ident = takeWhile label_char line;
          rest = py_lstrip (dropWhile label_char line)
      in if line \<noteq> [] \<and> label_start (hd line) \<and> py_startswith '':'' rest
         then Some (ident, py_lstrip (drop 1 rest)) else None)"

text \<open>
  \<open>re.sub(r"\(\s*([^()]+?)\s*\)", r", \1", rest)\<close>. The group is the stripped content; when the
  content is white space only, the lazy \<open>+?\<close> still needs one character, which is the last.
\<close>

definition not_paren :: "char \<Rightarrow> bool" where
  "not_paren c = (c \<noteq> CHR ''('' \<and> c \<noteq> CHR '')'')"

definition paren_group :: "string \<Rightarrow> string" where
  "paren_group inner = (let t = py_strip inner in if t = [] then [last inner] else t)"

function sub_parens :: "string \<Rightarrow> string" where
  "sub_parens [] = []"
| "sub_parens (c # s) =
     (let inner = takeWhile not_paren s; rest = dropWhile not_paren s in
      if c = CHR ''('' \<and> inner \<noteq> [] \<and> py_startswith '')'' rest
      then '', '' @ paren_group inner @ sub_parens (drop 1 rest)
      else c # sub_parens s)"
  by pat_completeness auto
termination
  by (relation "measure length") (auto simp: less_Suc_eq_le intro: le_trans [OF diff_le_self length_dropWhile_le])

definition split_args :: "string \<Rightarrow> string list" where
  "split_args rest =
     (let t = py_strip rest in
      if t = [] then []
      else filter (\<lambda>a. a \<noteq> []) (map py_strip (py_split_on (CHR '','') (sub_parens t))))"

text \<open>One source line: \<open>None\<close> for a line that is blank after its comment is stripped.\<close>

definition tokenize_line :: "int \<Rightarrow> string \<Rightarrow> Line option" where
  "tokenize_line lineno raw =
     (let line0 = py_strip (strip_comment raw) in
      if line0 = [] then None
      else
        (let (label, line) = (case match_label line0 of None \<Rightarrow> (None, line0)
                              | Some (l, rest) \<Rightarrow> (Some l, py_strip rest));
             mk = (\<lambda>op args. \<lparr>ln_lineno = lineno, ln_raw = raw, ln_label = label, ln_op = op,
                     ln_args = args, ln_section = ''text'', ln_pc = 0, ln_size = 0\<rparr>)
         in if line = [] then Some (mk None [])
            else
              (let parts = py_split1 line;
                   op = py_lower (parts ! 0);
                   rest = (if length parts > 1 then parts ! 1 else '''')
               in Some (mk (Some op) (split_args rest)))))"

fun tokenize_from :: "int \<Rightarrow> string list \<Rightarrow> Line list" where
  "tokenize_from lineno [] = []"
| "tokenize_from lineno (raw # raws) =
     (case tokenize_line lineno raw of
        None \<Rightarrow> tokenize_from (lineno + 1) raws
      | Some ln \<Rightarrow> ln # tokenize_from (lineno + 1) raws)"

definition tokenize :: "string \<Rightarrow> Line list" where
  "tokenize source = tokenize_from 1 (py_splitlines source)"

end
