(* ===== verification/Asm_Pack.thy ===== *)
theory Asm_Pack
  imports Asm_Text
begin

text \<open>
  \<open>tools/assembler/assemble.py\<close>: the immediate fitters and the field packers.
\<close>

definition fit_signed :: "int \<Rightarrow> nat \<Rightarrow> int \<Rightarrow> string \<Rightarrow> string \<Rightarrow> asm_exn + int" where
  "fit_signed v bits lineno src what =
     (let lo = - push_bit (bits - 1) 1; hi = push_bit (bits - 1) 1 - 1 in
      if \<not> (lo \<le> v \<and> v \<le> hi) then Inl (AsmError lineno (Out_of_signed what v bits) src)
      else Inr (v AND (push_bit bits 1 - 1)))"

definition fit_unsigned :: "int \<Rightarrow> nat \<Rightarrow> int \<Rightarrow> string \<Rightarrow> string \<Rightarrow> asm_exn + int" where
  "fit_unsigned v bits lineno src what =
     (if \<not> (0 \<le> v \<and> v < push_bit bits 1)
      then Inl (AsmError lineno (Out_of_unsigned what v bits) src)
      else Inr v)"

definition r_type :: "int \<Rightarrow> int \<Rightarrow> int \<Rightarrow> int \<Rightarrow> int \<Rightarrow> int \<Rightarrow> int" where
  "r_type opcode rd f3 rs1 rs2 f7 =
     push_bit 25 (f7 AND 0x7F)
     OR push_bit 20 (rs2 AND 0x1F)
     OR push_bit 15 (rs1 AND 0x1F)
     OR push_bit 12 (f3 AND 0x7)
     OR push_bit 7 (rd AND 0x1F)
     OR (opcode AND 0x7F)"

definition i_type :: "int \<Rightarrow> int \<Rightarrow> int \<Rightarrow> int \<Rightarrow> int \<Rightarrow> int" where
  "i_type opcode rd f3 rs1 imm12 =
     push_bit 20 (imm12 AND 0xFFF)
     OR push_bit 15 (rs1 AND 0x1F)
     OR push_bit 12 (f3 AND 0x7)
     OR push_bit 7 (rd AND 0x1F)
     OR (opcode AND 0x7F)"

definition s_type :: "int \<Rightarrow> int \<Rightarrow> int \<Rightarrow> int \<Rightarrow> int \<Rightarrow> int" where
  "s_type opcode f3 rs1 rs2 imm12 =
     (let hi = drop_bit 5 imm12 AND 0x7F; lo = imm12 AND 0x1F in
      push_bit 25 hi
      OR push_bit 20 (rs2 AND 0x1F)
      OR push_bit 15 (rs1 AND 0x1F)
      OR push_bit 12 (f3 AND 0x7)
      OR push_bit 7 lo
      OR (opcode AND 0x7F))"

definition b_type :: "int \<Rightarrow> int \<Rightarrow> int \<Rightarrow> int \<Rightarrow> int \<Rightarrow> int" where
  "b_type opcode f3 rs1 rs2 imm13 =
     (let b12 = drop_bit 12 imm13 AND 1;
          b11 = drop_bit 11 imm13 AND 1;
          b10_5 = drop_bit 5 imm13 AND 0x3F;
          b4_1 = drop_bit 1 imm13 AND 0xF in
      push_bit 31 b12
      OR push_bit 25 b10_5
      OR push_bit 20 (rs2 AND 0x1F)
      OR push_bit 15 (rs1 AND 0x1F)
      OR push_bit 12 (f3 AND 0x7)
      OR push_bit 8 b4_1
      OR push_bit 7 b11
      OR (opcode AND 0x7F))"

definition u_type :: "int \<Rightarrow> int \<Rightarrow> int \<Rightarrow> int" where
  "u_type opcode rd imm20 =
     push_bit 12 (imm20 AND 0xFFFFF) OR push_bit 7 (rd AND 0x1F) OR (opcode AND 0x7F)"

definition j_type :: "int \<Rightarrow> int \<Rightarrow> int \<Rightarrow> int" where
  "j_type opcode rd imm21 =
     (let b20 = drop_bit 20 imm21 AND 1;
          b19_12 = drop_bit 12 imm21 AND 0xFF;
          b11 = drop_bit 11 imm21 AND 1;
          b10_1 = drop_bit 1 imm21 AND 0x3FF in
      push_bit 31 b20
      OR push_bit 21 b10_1
      OR push_bit 20 b11
      OR push_bit 12 b19_12
      OR push_bit 7 (rd AND 0x1F)
      OR (opcode AND 0x7F))"

section \<open>The fitters\<close>

lemma fit_signed_Inr [simp]:
  "fit_signed v bits lineno src what = Inr w \<longleftrightarrow>
     - (2 ^ (bits - 1)) \<le> v \<and> v < 2 ^ (bits - 1) \<and> w = take_bit bits v"
  by (auto simp: fit_signed_def push_bit_eq_mult take_bit_eq_mask mask_eq_exp_minus_1)

lemma fit_unsigned_Inr [simp]:
  "fit_unsigned v bits lineno src what = Inr w \<longleftrightarrow> 0 \<le> v \<and> v < 2 ^ bits \<and> w = v"
  by (auto simp: fit_unsigned_def push_bit_eq_mult)

section \<open>Packed words are 32-bit words\<close>

text \<open>Every bit of a packed word below 32, and only those, comes from one field.\<close>

lemmas pack_defs = r_type_def i_type_def s_type_def b_type_def u_type_def j_type_def

lemmas pack_bits =
  bit_or_iff bit_push_bit_iff_int bit_take_bit_iff bit_drop_bit_eq bit_signed_take_bit_iff

lemma or_lt_exp: "(a :: int) OR b < 2 ^ n \<longleftrightarrow> a < 2 ^ n \<and> b < 2 ^ n" if "0 \<le> a" "0 \<le> b"
proof -
  have iff: "x < 2 ^ n \<longleftrightarrow> take_bit n x = x" if "0 \<le> x" for x :: int
    using that by (auto simp: take_bit_int_eq_self_iff)
  have "take_bit n (a OR b) = a OR b \<longleftrightarrow> take_bit n a = a \<and> take_bit n b = b"
    by (simp add: bit_eq_iff bit_take_bit_iff bit_or_iff) blast
  with that show ?thesis by (simp add: iff)
qed

lemma push_take_lt: "k + m \<le> n \<Longrightarrow> push_bit k (take_bit m (x :: int)) < 2 ^ n"
proof -
  assume "k + m \<le> n"
  have "push_bit k (take_bit m x) < 2 ^ k * 2 ^ m"
    using take_bit_int_less_exp [of m x] by (simp add: push_bit_eq_mult)
  also have "(2 :: int) ^ k * 2 ^ m \<le> 2 ^ n"
    using \<open>k + m \<le> n\<close> by (simp add: power_increasing flip: power_add)
  finally show ?thesis .
qed

lemma take_lt: "m \<le> n \<Longrightarrow> take_bit m (x :: int) < 2 ^ n"
  using push_take_lt [of 0 m n x] by simp

lemma packed_range:
  "0 \<le> r_type opcode rd f3 rs1 rs2 f7 \<and> r_type opcode rd f3 rs1 rs2 f7 < 2 ^ 32"
  "0 \<le> i_type opcode rd f3 rs1 imm12 \<and> i_type opcode rd f3 rs1 imm12 < 2 ^ 32"
  "0 \<le> s_type opcode f3 rs1 rs2 imm12 \<and> s_type opcode f3 rs1 rs2 imm12 < 2 ^ 32"
  "0 \<le> b_type opcode f3 rs1 rs2 imm13 \<and> b_type opcode f3 rs1 rs2 imm13 < 2 ^ 32"
  "0 \<le> u_type opcode rd imm20 \<and> u_type opcode rd imm20 < 2 ^ 32"
  "0 \<le> j_type opcode rd imm21 \<and> j_type opcode rd imm21 < 2 ^ 32"
  unfolding pack_defs Let_def mask_simps
  by (simp_all only: or_lt_exp or_nonnegative_int_iff push_bit_nonnegative_int_iff take_bit_nonnegative
      push_take_lt take_lt)

end
