(* ===== verification/Asm_Encode.thy ===== *)
theory Asm_Encode
  imports Asm_Pack
begin

text \<open>
  \<open>tools/assembler/assemble.py\<close>, pass 2: \<open>_resolve\<close>, \<open>_expect_args\<close> and \<open>encode_line\<close>, the latter
  as one definition per group of mnemonics and one that dispatches in the order of the source.
\<close>

type_synonym syms = "string \<Rightarrow> int option"

section \<open>Mnemonic tables\<close>

definition R_TABLE :: "(string \<times> int \<times> int) list" where
  "R_TABLE =
    [(''add'', F3Op_value F3_ADD_SUB, F7_DEFAULT),
     (''sub'', F3Op_value F3_ADD_SUB, F7_ALT),
     (''sll'', F3Op_value F3_SLL, F7_DEFAULT),
     (''slt'', F3Op_value F3_SLT, F7_DEFAULT),
     (''sltu'', F3Op_value F3_SLTU, F7_DEFAULT),
     (''xor'', F3Op_value F3_XOR, F7_DEFAULT),
     (''srl'', F3Op_value F3_SR, F7_DEFAULT),
     (''sra'', F3Op_value F3_SR, F7_ALT),
     (''or'', F3Op_value F3_OR, F7_DEFAULT),
     (''and'', F3Op_value F3_AND, F7_DEFAULT)]"

definition I_ALU_TABLE :: "(string \<times> int) list" where
  "I_ALU_TABLE =
    [(''addi'', F3Op_value F3_ADD_SUB), (''slti'', F3Op_value F3_SLT),
     (''sltiu'', F3Op_value F3_SLTU), (''xori'', F3Op_value F3_XOR),
     (''ori'', F3Op_value F3_OR), (''andi'', F3Op_value F3_AND)]"

definition LOAD_TABLE :: "(string \<times> int) list" where
  "LOAD_TABLE =
    [(''lb'', F3Load_value F3_LB), (''lh'', F3Load_value F3_LH), (''lw'', F3Load_value F3_LW),
     (''lbu'', F3Load_value F3_LBU), (''lhu'', F3Load_value F3_LHU)]"

definition STORE_TABLE :: "(string \<times> int) list" where
  "STORE_TABLE =
    [(''sb'', F3Store_value F3_SB), (''sh'', F3Store_value F3_SH), (''sw'', F3Store_value F3_SW)]"

definition BRANCH_TABLE :: "(string \<times> int) list" where
  "BRANCH_TABLE =
    [(''beq'', F3Branch_value F3_BEQ), (''bne'', F3Branch_value F3_BNE),
     (''blt'', F3Branch_value F3_BLT), (''bge'', F3Branch_value F3_BGE),
     (''bltu'', F3Branch_value F3_BLTU), (''bgeu'', F3Branch_value F3_BGEU)]"

section \<open>Operands\<close>

definition resolve :: "string \<Rightarrow> syms \<Rightarrow> int \<Rightarrow> string \<Rightarrow> asm_exn + int" where
  "resolve tok syms lineno src =
     (let t = py_strip tok in
      if t = [] then Inl (AsmError lineno Empty_operand src)
      else if py_isalpha (hd t) \<or> hd t = CHR ''_'' \<or> hd t = CHR ''.'' then
        (case syms t of
           Some v \<Rightarrow> Inr v
         | None \<Rightarrow> Inl (AsmError lineno (Undefined_symbol t) src))
      else parse_int t lineno src)"

definition expect_args :: "Line \<Rightarrow> nat \<Rightarrow> string \<Rightarrow> asm_exn + unit" where
  "expect_args ln n what =
     (if length (ln_args ln) \<noteq> n
      then Inl (AsmError (ln_lineno ln) (Expected_operands what n (length (ln_args ln))) (ln_raw ln))
      else Inr ())"

text \<open>The two ways \<open>encode_line\<close> reads \<open>ln.args[k]\<close>.\<close>

definition arg_reg :: "Line \<Rightarrow> nat \<Rightarrow> asm_exn + int" where
  "arg_reg ln k = parse_reg (ln_args ln ! k) (ln_lineno ln) (ln_raw ln)"

definition arg_val :: "Line \<Rightarrow> syms \<Rightarrow> nat \<Rightarrow> asm_exn + int" where
  "arg_val ln syms k = resolve (ln_args ln ! k) syms (ln_lineno ln) (ln_raw ln)"

definition fit_s :: "Line \<Rightarrow> int \<Rightarrow> nat \<Rightarrow> string \<Rightarrow> asm_exn + int" where
  "fit_s ln v bits what = fit_signed v bits (ln_lineno ln) (ln_raw ln) what"

definition asm_fail :: "Line \<Rightarrow> asm_msg \<Rightarrow> asm_exn + 'a" where
  "asm_fail ln m = Inl (AsmError (ln_lineno ln) m (ln_raw ln))"

section \<open>Real instructions\<close>

definition enc_r :: "Line \<Rightarrow> string \<Rightarrow> int \<times> int \<Rightarrow> asm_exn + int list" where
  "enc_r ln op f =
     bindE (expect_args ln 3 op) (\<lambda>_.
     bindE (arg_reg ln 0) (\<lambda>rd.
     bindE (arg_reg ln 1) (\<lambda>rs1.
     bindE (arg_reg ln 2) (\<lambda>rs2.
     Inr [r_type (Opcode_value OP_REG) rd (fst f) rs1 rs2 (snd f)]))))"

definition enc_i_alu :: "Line \<Rightarrow> syms \<Rightarrow> string \<Rightarrow> int \<Rightarrow> asm_exn + int list" where
  "enc_i_alu ln syms op f3 =
     bindE (expect_args ln 3 op) (\<lambda>_.
     bindE (arg_reg ln 0) (\<lambda>rd.
     bindE (arg_reg ln 1) (\<lambda>rs1.
     bindE (arg_val ln syms 2) (\<lambda>imm.
     bindE (fit_s ln imm 12 ''imm'') (\<lambda>imm12.
     Inr [i_type (Opcode_value OP_IMM) rd f3 rs1 imm12])))))"

definition enc_shift :: "Line \<Rightarrow> syms \<Rightarrow> string \<Rightarrow> asm_exn + int list" where
  "enc_shift ln syms op =
     bindE (expect_args ln 3 op) (\<lambda>_.
     bindE (arg_reg ln 0) (\<lambda>rd.
     bindE (arg_reg ln 1) (\<lambda>rs1.
     bindE (arg_val ln syms 2) (\<lambda>sh0.
     bindE (fit_unsigned sh0 5 (ln_lineno ln) (ln_raw ln) ''shamt'') (\<lambda>sh.
     let f3 = (if op = ''slli'' then F3Op_value F3_SLL else F3Op_value F3_SR);
         f7 = (if op = ''srai'' then F7_ALT else F7_DEFAULT)
     in Inr [r_type (Opcode_value OP_IMM) rd f3 rs1 sh f7])))))"

definition enc_load :: "Line \<Rightarrow> syms \<Rightarrow> string \<Rightarrow> int \<Rightarrow> asm_exn + int list" where
  "enc_load ln syms op f3 =
     bindE (expect_args ln 3 op) (\<lambda>_.
     bindE (arg_reg ln 0) (\<lambda>rd.
     bindE (arg_val ln syms 1) (\<lambda>imm.
     bindE (arg_reg ln 2) (\<lambda>rs1.
     bindE (fit_s ln imm 12 ''offset'') (\<lambda>imm12.
     Inr [i_type (Opcode_value OP_LOAD) rd f3 rs1 imm12])))))"

definition enc_store :: "Line \<Rightarrow> syms \<Rightarrow> string \<Rightarrow> int \<Rightarrow> asm_exn + int list" where
  "enc_store ln syms op f3 =
     bindE (expect_args ln 3 op) (\<lambda>_.
     bindE (arg_reg ln 0) (\<lambda>rs2.
     bindE (arg_val ln syms 1) (\<lambda>imm.
     bindE (arg_reg ln 2) (\<lambda>rs1.
     bindE (fit_s ln imm 12 ''offset'') (\<lambda>imm12.
     Inr [s_type (Opcode_value OP_STORE) f3 rs1 rs2 imm12])))))"

definition enc_branch :: "Line \<Rightarrow> syms \<Rightarrow> string \<Rightarrow> int \<Rightarrow> asm_exn + int list" where
  "enc_branch ln syms op f3 =
     bindE (expect_args ln 3 op) (\<lambda>_.
     bindE (arg_reg ln 0) (\<lambda>rs1.
     bindE (arg_reg ln 1) (\<lambda>rs2.
     bindE (arg_val ln syms 2) (\<lambda>target.
     let offset = target - ln_pc ln in
     if offset AND 1 \<noteq> 0 then asm_fail ln (Branch_not_aligned target)
     else bindE (fit_s ln offset 13 ''branch offset'') (\<lambda>imm13.
       Inr [b_type (Opcode_value OP_BRANCH) f3 rs1 rs2 imm13])))))"

definition enc_jal :: "Line \<Rightarrow> syms \<Rightarrow> asm_exn + int list" where
  "enc_jal ln syms =
     bindE (if length (ln_args ln) = 1 then bindE (arg_val ln syms 0) (\<lambda>t. Inr (1, t))
            else if length (ln_args ln) = 2 then
              bindE (arg_reg ln 0) (\<lambda>rd. bindE (arg_val ln syms 1) (\<lambda>t. Inr (rd, t)))
            else asm_fail ln Jal_operands) (\<lambda>(rd, target).
     let offset = target - ln_pc ln in
     if offset AND 1 \<noteq> 0 then asm_fail ln (Jal_not_aligned target)
     else bindE (fit_s ln offset 21 ''jal offset'') (\<lambda>imm21.
       Inr [j_type (Opcode_value OP_JAL) rd imm21]))"

text \<open>
  The three-operand \<open>jalr\<close> tries \<open>rd, rs1, imm\<close> first and, on any \<open>AsmError\<close>, \<open>rd, imm, rs1\<close>.
\<close>

definition enc_jalr :: "Line \<Rightarrow> syms \<Rightarrow> asm_exn + int list" where
  "enc_jalr ln syms =
     bindE (if length (ln_args ln) = 1 then bindE (arg_reg ln 0) (\<lambda>rs1. Inr (1, rs1, 0))
            else if length (ln_args ln) = 3 then
              bindE (arg_reg ln 0) (\<lambda>rd.
                case bindE (arg_reg ln 1) (\<lambda>rs1. bindE (arg_val ln syms 2) (\<lambda>imm. Inr (rd, rs1, imm))) of
                  Inr x \<Rightarrow> Inr x
                | Inl (AsmError _ _ _) \<Rightarrow>
                    bindE (arg_val ln syms 1) (\<lambda>imm. bindE (arg_reg ln 2) (\<lambda>rs1. Inr (rd, rs1, imm)))
                | Inl e \<Rightarrow> Inl e)
            else asm_fail ln Jalr_operands) (\<lambda>(rd, rs1, imm).
     bindE (fit_s ln imm 12 ''offset'') (\<lambda>imm12.
     Inr [i_type (Opcode_value OP_JALR) rd 0 rs1 imm12]))"

definition enc_upper :: "Line \<Rightarrow> syms \<Rightarrow> string \<Rightarrow> asm_exn + int list" where
  "enc_upper ln syms op =
     bindE (expect_args ln 2 op) (\<lambda>_.
     bindE (arg_reg ln 0) (\<lambda>rd.
     bindE (arg_val ln syms 1) (\<lambda>v.
     if - push_bit 19 1 \<le> v \<and> v < push_bit 20 1 then
       (let imm20 = v AND 0xFFFFF;
            opcode = (if op = ''lui'' then OP_LUI else OP_AUIPC)
        in Inr [u_type (Opcode_value opcode) rd imm20])
     else asm_fail ln (Upper_out_of_range op v))))"

section \<open>Pseudo-instructions\<close>

text \<open>\<open>mv\<close>, \<open>not\<close>, \<open>neg\<close>: two registers, one instruction.\<close>

definition enc_two_regs :: "Line \<Rightarrow> string \<Rightarrow> (int \<Rightarrow> int \<Rightarrow> int) \<Rightarrow> asm_exn + int list" where
  "enc_two_regs ln op mk =
     bindE (expect_args ln 2 op) (\<lambda>_.
     bindE (arg_reg ln 0) (\<lambda>rd.
     bindE (arg_reg ln 1) (\<lambda>rs. Inr [mk rd rs])))"

definition enc_j :: "Line \<Rightarrow> syms \<Rightarrow> asm_exn + int list" where
  "enc_j ln syms =
     bindE (expect_args ln 1 ''j'') (\<lambda>_.
     bindE (arg_val ln syms 0) (\<lambda>target.
     let offset = target - ln_pc ln in
     bindE (fit_s ln offset 21 ''j offset'') (\<lambda>imm21.
     Inr [j_type (Opcode_value OP_JAL) 0 imm21])))"

definition enc_jr :: "Line \<Rightarrow> asm_exn + int list" where
  "enc_jr ln =
     bindE (expect_args ln 1 ''jr'') (\<lambda>_.
     bindE (arg_reg ln 0) (\<lambda>rs1. Inr [i_type (Opcode_value OP_JALR) 0 0 rs1 0]))"

definition enc_ret :: "Line \<Rightarrow> asm_exn + int list" where
  "enc_ret ln =
     (if ln_args ln \<noteq> [] then asm_fail ln Ret_operands
      else Inr [i_type (Opcode_value OP_JALR) 0 0 1 0])"

text \<open>\<open>beqz\<close> and \<open>bnez\<close>.\<close>

definition enc_branch_zero :: "Line \<Rightarrow> syms \<Rightarrow> string \<Rightarrow> int \<Rightarrow> asm_exn + int list" where
  "enc_branch_zero ln syms op f3 =
     bindE (expect_args ln 2 op) (\<lambda>_.
     bindE (arg_reg ln 0) (\<lambda>rs1.
     bindE (arg_val ln syms 1) (\<lambda>target.
     let offset = target - ln_pc ln in
     bindE (fit_s ln offset 13 (op @ '' offset'')) (\<lambda>imm13.
     Inr [b_type (Opcode_value OP_BRANCH) f3 rs1 0 imm13]))))"

definition nop_word :: int where
  "nop_word = i_type (Opcode_value OP_IMM) 0 (F3Op_value F3_ADD_SUB) 0 0"

text \<open>
  The split of a 32-bit constant into LUI/AUIPC and a sign-extended 12-bit part: the upper half
  is bumped when bit 11 of the lower half is set.
\<close>

definition hi_lo :: "int \<Rightarrow> int \<times> int" where
  "hi_lo v32 =
     (let lo = v32 AND 0xFFF; hi = drop_bit 12 v32 AND 0xFFFFF in
      (if lo AND 0x800 \<noteq> 0 then (hi + 1) AND 0xFFFFF else hi, lo))"

definition li_words :: "int \<Rightarrow> int \<Rightarrow> int list" where
  "li_words rd v =
     (let v32 = v AND 0xFFFFFFFF in
      if - push_bit 11 1 \<le> v \<and> v \<le> push_bit 11 1 - 1 then
        [i_type (Opcode_value OP_IMM) rd (F3Op_value F3_ADD_SUB) 0 (v AND 0xFFF), nop_word]
      else
        (let (hi, lo) = hi_lo v32 in
         [u_type (Opcode_value OP_LUI) rd hi,
          i_type (Opcode_value OP_IMM) rd (F3Op_value F3_ADD_SUB) rd lo]))"

definition la_words :: "int \<Rightarrow> int \<Rightarrow> int \<Rightarrow> int list" where
  "la_words rd target pc0 =
     (let (hi, lo) = hi_lo ((target - pc0) AND 0xFFFFFFFF) in
      [u_type (Opcode_value OP_AUIPC) rd hi,
       i_type (Opcode_value OP_IMM) rd (F3Op_value F3_ADD_SUB) rd lo])"

definition call_words :: "int \<Rightarrow> int \<Rightarrow> int list" where
  "call_words target pc0 =
     (let (hi, lo) = hi_lo ((target - pc0) AND 0xFFFFFFFF) in
      [u_type (Opcode_value OP_AUIPC) 1 hi,
       i_type (Opcode_value OP_JALR) 1 0 1 lo])"

definition enc_li :: "Line \<Rightarrow> syms \<Rightarrow> asm_exn + int list" where
  "enc_li ln syms =
     bindE (expect_args ln 2 ''li'') (\<lambda>_.
     bindE (arg_reg ln 0) (\<lambda>rd.
     bindE (arg_val ln syms 1) (\<lambda>v. Inr (li_words rd v))))"

definition enc_la :: "Line \<Rightarrow> syms \<Rightarrow> asm_exn + int list" where
  "enc_la ln syms =
     bindE (expect_args ln 2 ''la'') (\<lambda>_.
     bindE (arg_reg ln 0) (\<lambda>rd.
     bindE (arg_val ln syms 1) (\<lambda>target. Inr (la_words rd target (ln_pc ln)))))"

definition enc_call :: "Line \<Rightarrow> syms \<Rightarrow> asm_exn + int list" where
  "enc_call ln syms =
     bindE (expect_args ln 1 ''call'') (\<lambda>_.
     bindE (arg_val ln syms 0) (\<lambda>target. Inr (call_words target (ln_pc ln))))"

section \<open>Dispatch\<close>

definition enc_pseudo :: "Line \<Rightarrow> syms \<Rightarrow> string \<Rightarrow> asm_exn + int list" where
  "enc_pseudo ln syms op =
     (let addi = F3Op_value F3_ADD_SUB in
      if op = ''nop'' then Inr [nop_word]
      else if op = ''mv'' then enc_two_regs ln ''mv'' (\<lambda>rd rs. i_type (Opcode_value OP_IMM) rd addi rs 0)
      else if op = ''not'' then
        enc_two_regs ln ''not'' (\<lambda>rd rs. i_type (Opcode_value OP_IMM) rd (F3Op_value F3_XOR) rs (-1 AND 0xFFF))
      else if op = ''neg'' then
        enc_two_regs ln ''neg'' (\<lambda>rd rs. r_type (Opcode_value OP_REG) rd addi 0 rs F7_ALT)
      else if op = ''j'' then enc_j ln syms
      else if op = ''jr'' then enc_jr ln
      else if op = ''ret'' then enc_ret ln
      else if op = ''beqz'' then enc_branch_zero ln syms ''beqz'' (F3Branch_value F3_BEQ)
      else if op = ''bnez'' then enc_branch_zero ln syms ''bnez'' (F3Branch_value F3_BNE)
      else if op = ''li'' then enc_li ln syms
      else if op = ''la'' then enc_la ln syms
      else if op = ''call'' then enc_call ln syms
      else asm_fail ln (Unknown_mnemonic op))"

definition enc_fixed :: "string \<Rightarrow> int list option" where
  "enc_fixed op =
     (if op = ''fence'' then Some [i_type (Opcode_value OP_FENCE) 0 0 0 0b000011111111]
      else if op = ''fence.i'' then Some [i_type (Opcode_value OP_FENCE) 0 1 0 0]
      else if op = ''ecall'' then Some [i_type (Opcode_value OP_SYSTEM) 0 0 0 F12_ECALL]
      else if op = ''ebreak'' then Some [i_type (Opcode_value OP_SYSTEM) 0 0 0 F12_EBREAK]
      else None)"

text \<open>\<open>.word\<close> and \<open>.byte\<close>: every value is resolved and masked.\<close>

definition enc_data :: "Line \<Rightarrow> syms \<Rightarrow> int \<Rightarrow> asm_exn + int list" where
  "enc_data ln syms m =
     mapE (\<lambda>a. bindE (resolve a syms (ln_lineno ln) (ln_raw ln)) (\<lambda>v. Inr (v AND m))) (ln_args ln)"

definition enc_insn :: "Line \<Rightarrow> syms \<Rightarrow> string \<Rightarrow> asm_exn + int list" where
  "enc_insn ln syms op =
     (case map_of R_TABLE op of Some f \<Rightarrow> enc_r ln op f | None \<Rightarrow>
      case map_of I_ALU_TABLE op of Some f3 \<Rightarrow> enc_i_alu ln syms op f3 | None \<Rightarrow>
      if op = ''slli'' \<or> op = ''srli'' \<or> op = ''srai'' then enc_shift ln syms op else
      case map_of LOAD_TABLE op of Some f3 \<Rightarrow> enc_load ln syms op f3 | None \<Rightarrow>
      case map_of STORE_TABLE op of Some f3 \<Rightarrow> enc_store ln syms op f3 | None \<Rightarrow>
      case map_of BRANCH_TABLE op of Some f3 \<Rightarrow> enc_branch ln syms op f3 | None \<Rightarrow>
      if op = ''jal'' then enc_jal ln syms
      else if op = ''jalr'' then enc_jalr ln syms
      else if op = ''lui'' \<or> op = ''auipc'' then enc_upper ln syms op
      else (case enc_fixed op of Some ws \<Rightarrow> Inr ws | None \<Rightarrow> enc_pseudo ln syms op))"

definition encode_line :: "Line \<Rightarrow> syms \<Rightarrow> asm_exn + int list" where
  "encode_line ln syms =
     (case ln_op ln of
        None \<Rightarrow> Inr []
      | Some op \<Rightarrow>
          if op = ''.text'' \<or> op = ''.data'' \<or> op = ''.align'' then Inr []
          else if op = ''.word'' then enc_data ln syms 0xFFFFFFFF
          else if op = ''.byte'' then enc_data ln syms 0xFF
          else enc_insn ln syms op)"

end
