(* ===== verification/Byte_Memory.thy ===== *)
theory Byte_Memory
  imports Python_Base
begin

text \<open>
  Little-endian words over byte-addressed storage. Two components store words as bytes: the
  emulator's bytearray and the assembler's image dict. The locale states what both promise of a
  single byte, and proves once what follows for words of any width.
\<close>

section \<open>Words as consecutive bytes\<close>

fun le_write :: "(int \<Rightarrow> int \<Rightarrow> 'm \<Rightarrow> 'm) \<Rightarrow> nat \<Rightarrow> int \<Rightarrow> int \<Rightarrow> 'm \<Rightarrow> 'm" where
  "le_write put 0 a v m = m"
| "le_write put (Suc n) a v m = le_write put n (a + 1) (drop_bit 8 v) (put a v m)"

fun le_read :: "('m \<Rightarrow> int \<Rightarrow> int) \<Rightarrow> nat \<Rightarrow> int \<Rightarrow> 'm \<Rightarrow> int" where
  "le_read get 0 a m = 0"
| "le_read get (Suc n) a m = get m a + 2 ^ 8 * le_read get n (a + 1) m"

text \<open>Splitting off the low byte of a word.\<close>

lemma take_bit_split:
  "take_bit (m + n) (x :: int) = take_bit m x + 2 ^ m * take_bit n (drop_bit m x)"
  using zmod_zmult2_eq [of "2 ^ n" x "2 ^ m"]
  by (simp add: take_bit_eq_mod drop_bit_eq_div power_add)

section \<open>The contract of byte storage\<close>

locale byte_memory =
  fixes get :: "'m \<Rightarrow> int \<Rightarrow> int"
    and put :: "int \<Rightarrow> int \<Rightarrow> 'm \<Rightarrow> 'm"
    and inside :: "'m \<Rightarrow> int \<Rightarrow> bool"
  assumes get_put: "inside m a \<Longrightarrow> get (put a v m) b = (if b = a then take_bit 8 v else get m b)"
    and inside_put: "inside (put a v m) b = inside m b"
    and put_byte: "put a (take_bit 8 v) m = put a v m"
begin

definition inside_n :: "'m \<Rightarrow> int \<Rightarrow> nat \<Rightarrow> bool" where
  "inside_n m a n \<longleftrightarrow> (\<forall>k < n. inside m (a + int k))"

lemma inside_n_Suc: "inside_n m a (Suc n) \<longleftrightarrow> inside m a \<and> inside_n m (a + 1) n"
  unfolding inside_n_def by (auto simp: less_Suc_eq_0_disj algebra_simps)

lemma inside_le_write: "inside (le_write put n a v m) b = inside m b"
  by (induction n arbitrary: a v m) (simp_all add: inside_put)

lemma inside_n_put: "inside_n (put a v m) b n = inside_n m b n"
  by (simp add: inside_n_def inside_put)

text \<open>Only the low \<open>8 * n\<close> bits of the value are stored.\<close>

lemma put_low_bits: "8 \<le> k \<Longrightarrow> put a (take_bit k v) m = put a v m"
  using put_byte [of a "take_bit k v" m] put_byte [of a v m] by (simp add: min_def)

lemma le_write_low_bits: "8 * n \<le> k \<Longrightarrow> le_write put n a (take_bit k v) m = le_write put n a v m"
proof (induction n arbitrary: a v m k)
  case (Suc n)
  have "drop_bit 8 (take_bit k v) = take_bit (k - 8) (drop_bit 8 v)"
    by (simp add: drop_bit_take_bit)
  with Suc show ?case by (simp add: put_low_bits)
qed simp

text \<open>A byte outside the written range is untouched.\<close>

lemma get_le_write_other:
  "inside_n m a n \<Longrightarrow> b < a \<or> a + int n \<le> b \<Longrightarrow> get (le_write put n a v m) b = get m b"
proof (induction n arbitrary: a v m)
  case (Suc n)
  then show ?case
    by (auto simp: inside_n_Suc inside_n_put get_put)
qed simp

text \<open>A byte inside the written range is that byte of the value.\<close>

lemma get_le_write_same:
  "inside_n m a n \<Longrightarrow> k < n \<Longrightarrow>
     get (le_write put n a v m) (a + int k) = take_bit 8 (drop_bit (8 * k) v)"
proof (induction n arbitrary: a v m k)
  case (Suc n)
  show ?case
  proof (cases k)
    case 0
    with Suc.prems show ?thesis
      by (simp add: inside_n_Suc inside_n_put get_le_write_other get_put)
  next
    case (Suc j)
    with Suc.prems Suc.IH [of "put a v m" "a + 1" j "drop_bit 8 v"] show ?thesis
      by (simp add: inside_n_Suc inside_n_put algebra_simps)
  qed
qed simp

text \<open>Reading looks at the bytes of its range only.\<close>

lemma le_read_cong:
  "(\<And>k. k < n \<Longrightarrow> get m (a + int k) = get m' (a + int k)) \<Longrightarrow> le_read get n a m = le_read get n a m'"
proof (induction n arbitrary: a)
  case (Suc n)
  have "le_read get n (a + 1) m = le_read get n (a + 1) m'"
    by (rule Suc.IH) (use Suc.prems [of "Suc _"] in \<open>simp add: algebra_simps\<close>)
  with Suc.prems [of 0] show ?case by simp
qed simp

text \<open>Reading back what was written.\<close>

lemma le_read_bytes:
  "(\<And>k. k < n \<Longrightarrow> get m (a + int k) = take_bit 8 (drop_bit (8 * k) v)) \<Longrightarrow>
     le_read get n a m = take_bit (8 * n) v"
proof (induction n arbitrary: a v)
  case (Suc n)
  have "le_read get n (a + 1) m = take_bit (8 * n) (drop_bit 8 v)"
    by (rule Suc.IH) (use Suc.prems [of "Suc _"] in \<open>simp add: algebra_simps\<close>)
  with Suc.prems [of 0] show ?case
    by (simp add: take_bit_split [of 8 "8 * n" v])
qed simp

lemma le_read_write: "inside_n m a n \<Longrightarrow> le_read get n a (le_write put n a v m) = take_bit (8 * n) v"
  by (rule le_read_bytes) (simp add: get_le_write_same)

text \<open>Writes to disjoint ranges do not disturb reads.\<close>

lemma le_read_write_disjoint:
  "inside_n m a n \<Longrightarrow> b + int k \<le> a \<or> a + int n \<le> b \<Longrightarrow>
     le_read get k b (le_write put n a v m) = le_read get k b m"
  by (rule le_read_cong) (auto intro!: get_le_write_other)

text \<open>A narrower read inside a written word sees the corresponding slice of the value.\<close>

lemma le_read_slice:
  assumes "inside_n m a n" "j + k \<le> n"
  shows "le_read get k (a + int j) (le_write put n a v m) = take_bit (8 * k) (drop_bit (8 * j) v)"
proof (rule le_read_bytes)
  fix i assume "i < k"
  with assms have "get (le_write put n a v m) (a + int (j + i)) = take_bit 8 (drop_bit (8 * (j + i)) v)"
    by (intro get_le_write_same) auto
  then show "get (le_write put n a v m) (a + int j + int i) = take_bit 8 (drop_bit (8 * i) (drop_bit (8 * j) v))"
    by (simp add: algebra_simps)
qed

end

end
