(* ===== verification/Asm_Layout.thy ===== *)
theory Asm_Layout
  imports Asm_Encode Byte_Memory
begin

text \<open>
  \<open>tools/assembler/assemble.py\<close>: \<open>pass1\<close>, the layout loop and the image writer of \<open>assemble\<close>,
  and \<open>to_hex_lines\<close>.
\<close>

section \<open>Sizes\<close>

definition TWO_INSN_PSEUDOS :: "string set" where
  "TWO_INSN_PSEUDOS = {''la'', ''call''}"

definition instruction_size :: "string \<Rightarrow> int" where
  "instruction_size op =
     (if op \<in> TWO_INSN_PSEUDOS then 8 else if op = ''li'' then 8 else 4)"

text \<open>\<open>(p + boundary - 1) & ~(boundary - 1)\<close>.\<close>

definition align_up :: "int \<Rightarrow> int \<Rightarrow> int" where
  "align_up p boundary = (p + boundary - 1) AND NOT (boundary - 1)"

section \<open>Pass 1\<close>

text \<open>
  The dict \<open>pc\<close> maps a section to its location counter. \<open>pass1\<close> assigns to the lines in place;
  here it returns them.
\<close>

type_synonym counters = "string \<Rightarrow> int"

record p1_state =
  p1_syms :: syms
  p1_pc :: counters
  p1_current :: string

definition p1_fail :: "Line \<Rightarrow> asm_msg \<Rightarrow> asm_exn + 'a" where
  "p1_fail ln m = Inl (AsmError (ln_lineno ln) m (ln_raw ln))"

text \<open>The label of a line is bound before its directive takes effect.\<close>

definition p1_label :: "Line \<Rightarrow> p1_state \<Rightarrow> asm_exn + p1_state" where
  "p1_label ln s =
     (case ln_label ln of
        None \<Rightarrow> Inr s
      | Some l \<Rightarrow>
          (case p1_syms s l of
             Some _ \<Rightarrow> p1_fail ln (Duplicate_label l)
           | None \<Rightarrow> Inr (s\<lparr>p1_syms := (p1_syms s)(l \<mapsto> p1_pc s (p1_current s))\<rparr>)))"

text \<open>A line that occupies \<open>sz\<close> bytes at the current counter.\<close>

definition p1_place :: "Line \<Rightarrow> int \<Rightarrow> p1_state \<Rightarrow> Line \<times> p1_state" where
  "p1_place ln sz s =
     (let cur = p1_current s; p = p1_pc s cur in
      (ln\<lparr>ln_section := cur, ln_pc := p, ln_size := sz\<rparr>,
       s\<lparr>p1_pc := (p1_pc s)(cur := p + sz)\<rparr>))"

definition p1_switch :: "Line \<Rightarrow> string \<Rightarrow> p1_state \<Rightarrow> Line \<times> p1_state" where
  "p1_switch ln sec s =
     (ln\<lparr>ln_section := sec, ln_pc := p1_pc s sec, ln_size := 0\<rparr>, s\<lparr>p1_current := sec\<rparr>)"

definition p1_op :: "Line \<Rightarrow> p1_state \<Rightarrow> asm_exn + Line \<times> p1_state" where
  "p1_op ln s =
     (case ln_op ln of
        None \<Rightarrow> Inr (p1_place ln 0 s)
      | Some op \<Rightarrow>
          if op = ''.text'' then Inr (p1_switch ln ''text'' s)
          else if op = ''.data'' then Inr (p1_switch ln ''data'' s)
          else if op = ''.align'' then
            (if length (ln_args ln) \<noteq> 1 then p1_fail ln Align_needs_one
             else bindE (parse_int (ln_args ln ! 0) (ln_lineno ln) (ln_raw ln)) (\<lambda>n.
               if \<not> (0 \<le> n \<and> n \<le> 12) then p1_fail ln (Align_unreasonable n)
               else (let p = p1_pc s (p1_current s)
                     in Inr (p1_place ln (align_up p (push_bit (nat n) 1) - p) s))))
          else if op = ''.word'' then
            (if ln_args ln = [] then p1_fail ln Word_needs_value
             else Inr (p1_place ln (4 * int (length (ln_args ln))) s))
          else if op = ''.byte'' then
            (if ln_args ln = [] then p1_fail ln Byte_needs_value
             else Inr (p1_place ln (int (length (ln_args ln))) s))
          else Inr (p1_place ln (instruction_size op) s))"

definition p1_line :: "Line \<Rightarrow> p1_state \<Rightarrow> asm_exn + Line \<times> p1_state" where
  "p1_line ln s = bindE (p1_label ln s) (p1_op ln)"

fun p1_lines :: "Line list \<Rightarrow> p1_state \<Rightarrow> asm_exn + Line list \<times> p1_state" where
  "p1_lines [] s = Inr ([], s)"
| "p1_lines (ln # lns) s =
     bindE (p1_line ln s) (\<lambda>(ln', s'). bindE (p1_lines lns s') (\<lambda>(lns', s''). Inr (ln' # lns', s'')))"

text \<open>For evaluation: the scrutinee first, then the branch.\<close>

lemma p1_lines_code [code]:
  "p1_lines [] s = Inr ([], s)"
  "p1_lines (ln # lns) s =
     (case p1_line ln s of
        Inl e \<Rightarrow> Inl e
      | Inr q \<Rightarrow>
          (case p1_lines lns (snd q) of Inl e \<Rightarrow> Inl e | Inr q' \<Rightarrow> Inr (fst q # fst q', snd q')))"
  by (auto simp: bindE_def split: sum.split)

definition p1_init :: "int \<Rightarrow> int \<Rightarrow> p1_state" where
  "p1_init text_base data_base =
     \<lparr>p1_syms = Map.empty, p1_pc = (\<lambda>_. 0)(''text'' := text_base, ''data'' := data_base),
      p1_current = ''text''\<rparr>"

definition pass1 :: "Line list \<Rightarrow> int \<Rightarrow> int \<Rightarrow> asm_exn + Line list \<times> syms" where
  "pass1 lines text_base data_base =
     bindE (p1_lines lines (p1_init text_base data_base)) (\<lambda>(lns, s). Inr (lns, p1_syms s))"

section \<open>The layout loop of \<open>assemble\<close>\<close>

text \<open>\<open>1 << n\<close> with a negative \<open>n\<close> is a \<open>ValueError\<close>, which nothing catches.\<close>

definition size_line :: "Line \<Rightarrow> counters \<times> string \<Rightarrow> asm_exn + counters \<times> string" where
  "size_line ln st =
     (case st of (sizes, current) \<Rightarrow>
      (case ln_op ln of
         None \<Rightarrow> Inr (sizes, current)
       | Some op \<Rightarrow>
           if op = ''.text'' then Inr (sizes, ''text'')
           else if op = ''.data'' then Inr (sizes, ''data'')
           else if op = ''.align'' then
             (if ln_args ln = [] then Inr (sizes, current)
              else bindE (parse_int (ln_args ln ! 0) (ln_lineno ln) (ln_raw ln)) (\<lambda>n.
                if n < 0 then Inl (PyValueError ''negative shift count'')
                else Inr (sizes(current := align_up (sizes current) (push_bit (nat n) 1)), current)))
           else if op = ''.word'' then
             Inr (sizes(current := sizes current + 4 * int (length (ln_args ln))), current)
           else if op = ''.byte'' then
             Inr (sizes(current := sizes current + int (length (ln_args ln))), current)
           else Inr (sizes(current := sizes current + instruction_size op), current)))"

fun size_lines :: "Line list \<Rightarrow> counters \<times> string \<Rightarrow> asm_exn + counters \<times> string" where
  "size_lines [] st = Inr st"
| "size_lines (ln # lns) st = bindE (size_line ln st) (size_lines lns)"

definition default_data_base :: "Line list \<Rightarrow> int \<Rightarrow> asm_exn + int" where
  "default_data_base lines text_base =
     bindE (size_lines lines (\<lambda>_. 0, ''text'')) (\<lambda>(sizes, _).
     Inr (text_base + align_up (sizes ''text'') 4))"

text \<open>
  The default data base depends on the size of the text section alone, which a counter suffices for.
\<close>

fun text_size :: "Line list \<Rightarrow> string \<Rightarrow> int \<Rightarrow> asm_exn + int" where
  "text_size [] cur t = Inr t"
| "text_size (ln # lns) cur t =
     (case size_line ln (\<lambda>_. t, cur) of
        Inl e \<Rightarrow> Inl e
      | Inr q \<Rightarrow> text_size lns (snd q) (if cur = ''text'' then fst q ''text'' else t))"

lemma size_line_text:
  assumes "sizes ''text'' = t"
  shows "(\<exists>e. size_line ln (sizes, cur) = Inl e \<and> size_line ln (\<lambda>_. t, cur) = Inl e) \<or>
    (\<exists>s' u' c'. size_line ln (sizes, cur) = Inr (s', c') \<and> size_line ln (\<lambda>_. t, cur) = Inr (u', c') \<and>
       s' ''text'' = (if cur = ''text'' then u' ''text'' else t))"
proof (cases "ln_op ln")
  case (Some op)
  show ?thesis
  proof (cases "op = ''.align''")
    case True
    let ?p = "parse_int (ln_args ln ! 0) (ln_lineno ln) (ln_raw ln)"
    show ?thesis
    proof (cases "ln_args ln = []")
      case False
      with True Some assms show ?thesis
        by (cases ?p; cases "projr ?p < 0") (simp_all add: size_line_def)
    qed (use True Some assms in \<open>simp add: size_line_def\<close>)
  next
    case False
    then show ?thesis
      using Some assms
      by (cases "op = ''.text''"; cases "op = ''.data''"; cases "op = ''.word''"; cases "op = ''.byte''")
        (simp_all add: size_line_def)
  qed
qed (use assms in \<open>simp add: size_line_def\<close>)

lemma text_size_eq:
  "sizes ''text'' = t \<Longrightarrow> text_size lns cur t = bindE (size_lines lns (sizes, cur)) (\<lambda>(s, _). Inr (s ''text''))"
proof (induction lns arbitrary: sizes cur t)
  case (Cons ln lns)
  have "sizes ''text'' = t" by (rule Cons.prems)
  note size_line_text [of sizes t ln cur, OF this]
  then show ?case
  proof (elim disjE exE conjE)
    fix s' u' c'
    assume *: "size_line ln (sizes, cur) = Inr (s', c')" "size_line ln (\<lambda>_. t, cur) = Inr (u', c')"
      "s' ''text'' = (if cur = ''text'' then u' ''text'' else t)"
    with Cons.IH [of s' "s' ''text''" c'] show ?thesis by (cases "cur = ''text''") simp_all
  qed simp
qed simp

lemma default_data_base_code [code]:
  "default_data_base lines text_base =
     (case text_size lines ''text'' 0 of Inl e \<Rightarrow> Inl e | Inr t \<Rightarrow> Inr (text_base + align_up t 4))"
  by (simp add: default_data_base_def text_size_eq [of "\<lambda>_. 0"] bindE_def case_prod_beta' split: sum.split)

section \<open>The image\<close>

text \<open>The dict from addresses to bytes, as an association list with one entry for each key.\<close>

type_synonym image = "(int \<times> int) list"

definition image_get :: "image \<Rightarrow> int \<Rightarrow> int" where
  "image_get im a = (case map_of im a of None \<Rightarrow> 0 | Some b \<Rightarrow> b)"

definition emit_byte :: "int \<Rightarrow> int \<Rightarrow> image \<Rightarrow> image" where
  "emit_byte a b im = AList.update a (b AND 0xFF) im"

definition emit_word :: "int \<Rightarrow> int \<Rightarrow> image \<Rightarrow> image" where
  "emit_word addr w im =
     (let word = w AND 0xFFFFFFFF in
      emit_byte (addr + 3) (drop_bit 24 word) (emit_byte (addr + 2) (drop_bit 16 word)
        (emit_byte (addr + 1) (drop_bit 8 word) (emit_byte addr word im))))"

fun emit_bytes :: "int \<Rightarrow> int list \<Rightarrow> image \<Rightarrow> image" where
  "emit_bytes a [] im = im"
| "emit_bytes a (b # bs) im = emit_bytes (a + 1) bs (emit_byte a b im)"

fun emit_words :: "int \<Rightarrow> int list \<Rightarrow> image \<Rightarrow> image" where
  "emit_words a [] im = im"
| "emit_words a (w # ws) im = emit_words (a + 4) ws (emit_word a w im)"

definition emit_line :: "Line \<Rightarrow> int list \<Rightarrow> image \<Rightarrow> image" where
  "emit_line ln out im =
     (if ln_op ln = Some ''.byte'' then emit_bytes (ln_pc ln) out im
      else emit_words (ln_pc ln) out im)"

fun emit_lines :: "Line list \<Rightarrow> syms \<Rightarrow> image \<Rightarrow> asm_exn + image" where
  "emit_lines [] syms im = Inr im"
| "emit_lines (ln # lns) syms im =
     bindE (encode_line ln syms) (\<lambda>out. emit_lines lns syms (emit_line ln out im))"

lemma emit_lines_code [code]:
  "emit_lines [] syms im = Inr im"
  "emit_lines (ln # lns) syms im =
     (case encode_line ln syms of Inl e \<Rightarrow> Inl e | Inr out \<Rightarrow> emit_lines lns syms (emit_line ln out im))"
  by (simp_all add: bindE_def)

section \<open>Packing the image into words\<close>

definition image_lo :: "image \<Rightarrow> int" where
  "image_lo im = Min (set (map fst im)) AND NOT 3"

definition image_hi :: "image \<Rightarrow> int" where
  "image_hi im = ((Max (set (map fst im)) + 1) + 3) AND NOT 3"

definition image_word :: "image \<Rightarrow> int \<Rightarrow> int" where
  "image_word im addr =
     image_get im addr OR push_bit 8 (image_get im (addr + 1))
     OR push_bit 16 (image_get im (addr + 2)) OR push_bit 24 (image_get im (addr + 3))"

definition pack_image :: "image \<Rightarrow> int list" where
  "pack_image im =
     (if im = [] then []
      else map (\<lambda>k. image_word im (image_lo im + 4 * int k))
             [0..<nat ((image_hi im - image_lo im + 3) div 4)])"

definition assemble_image :: "string \<Rightarrow> int \<Rightarrow> int option \<Rightarrow> asm_exn + image" where
  "assemble_image source text_base data_base =
     (let lines = tokenize source in
      bindE (size_lines lines (\<lambda>_. 0, ''text'')) (\<lambda>(sizes, _).
      let db = (case data_base of None \<Rightarrow> text_base + align_up (sizes ''text'') 4 | Some b \<Rightarrow> b) in
      bindE (pass1 lines text_base db) (\<lambda>(lns, syms). emit_lines lns syms [])))"

definition assemble :: "string \<Rightarrow> int \<Rightarrow> int option \<Rightarrow> asm_exn + int list" where
  "assemble source text_base data_base =
     bindE (assemble_image source text_base data_base) (\<lambda>im. Inr (pack_image im))"

text \<open>One eight-digit word to a line.\<close>

definition to_hex_lines :: "int list \<Rightarrow> string" where
  "to_hex_lines words = concat (map (\<lambda>w. fmt_x 8 w @ [CHR 0x0A]) words)"

end
