(* ===== verification/Asm_Image.thy ===== *)
theory Asm_Image
  imports Asm_Layout
begin

text \<open>
  The image dict of \<open>assemble\<close> as byte storage, and the words packed from it.
\<close>

section \<open>The image provides the byte storage contract\<close>

interpretation asm_image: byte_memory image_get emit_byte "\<lambda>_ _. True"
  by unfold_locales (auto simp: image_get_def emit_byte_def update_conv' mask_simps)

lemma emit_word_le: "emit_word a w im = le_write emit_byte 4 a w im"
proof -
  have byte: "emit_byte b (drop_bit k (take_bit 32 w)) im' = emit_byte b (drop_bit k w) im'"
    if "k + 8 \<le> 32" for b k im'
    using that asm_image.put_low_bits [of "32 - k" b "drop_bit k w" im']
    by (simp add: drop_bit_take_bit)
  show ?thesis
    using byte [of 0] byte [of 8] byte [of 16] byte [of 24]
    by (simp add: emit_word_def Let_def mask_simps eval_nat_numeral algebra_simps)
qed

text \<open>Every byte of an image is one.\<close>

definition image_ok :: "image \<Rightarrow> bool" where
  "image_ok im \<longleftrightarrow> (\<forall>(a, b) \<in> set im. 0 \<le> b \<and> b < 256)"

lemma emit_byte_ok: "image_ok im \<Longrightarrow> image_ok (emit_byte a v im)"
  using take_bit_int_less_exp [of 8 v]
  by (induction im) (auto simp: image_ok_def emit_byte_def mask_simps)

lemma le_write_ok: "image_ok im \<Longrightarrow> image_ok (le_write emit_byte n a v im)"
  by (induction n arbitrary: a v im) (simp_all add: emit_byte_ok)

lemma image_get_range: "image_ok im \<Longrightarrow> 0 \<le> image_get im a \<and> image_get im a < 256"
  by (auto simp: image_get_def image_ok_def split: option.splits dest!: map_of_SomeD)

section \<open>Rounding to word boundaries\<close>

lemma and_not_3: "(x :: int) AND NOT 3 = x - x mod 4"
  using and_not_mask [of x 2] by simp

lemma image_lo_mod: "image_lo im mod 4 = 0" and image_hi_mod: "image_hi im mod 4 = 0"
  unfolding image_lo_def image_hi_def and_not_3 by (simp_all add: mod_diff_right_eq)

lemma image_keys:
  assumes "map_of im a = Some b"
  shows "image_lo im \<le> a" "a < image_hi im"
proof -
  have a: "a \<in> set (map fst im)"
    using assms by (force dest: map_of_SomeD)
  show "image_lo im \<le> a"
    using Min_le [OF finite_set a] pos_mod_sign [of 4 "Min (set (map fst im))"]
    unfolding image_lo_def and_not_3 by linarith
  show "a < image_hi im"
    using Max_ge [OF finite_set a] pos_mod_bound [of 4 "Max (set (map fst im)) + 1 + 3"]
    unfolding image_hi_def and_not_3 by linarith
qed

section \<open>Packed words\<close>

lemma or_push_byte:
  assumes "0 \<le> (b :: int)" "b < 256"
  shows "b OR push_bit 8 x = b + 2 ^ 8 * x"
proof -
  have b: "bit b n \<Longrightarrow> n < 8" for n
    using take_bit_id [of b 8] assms bit_take_bit_iff [of 8 b n] by auto
  have "b + push_bit 8 x = b OR push_bit 8 x"
    by (rule disjunctive_add) (auto simp: bit_push_bit_iff_int dest: b)
  then show ?thesis by (simp add: push_bit_eq_mult)
qed

lemma image_word_le:
  assumes "image_ok im"
  shows "image_word im a = le_read image_get 4 a im"
proof -
  have "image_word im a = image_get im a OR push_bit 8 (image_get im (a + 1) OR
      push_bit 8 (image_get im (a + 2) OR push_bit 8 (image_get im (a + 3))))"
    by (simp add: image_word_def or.assoc)
  also have "\<dots> = image_get im a + 2 ^ 8 * (image_get im (a + 1) +
      2 ^ 8 * (image_get im (a + 2) + 2 ^ 8 * image_get im (a + 3)))"
    using image_get_range [OF assms] by (simp only: or_push_byte)
  also have "\<dots> = le_read image_get 4 a im"
    by (simp add: eval_nat_numeral algebra_simps)
  finally show ?thesis .
qed

text \<open>Reading the four bytes back out of a packed word.\<close>

lemma byte_of_word:
  assumes "\<And>k. k < n \<Longrightarrow> get m (a + int k) = take_bit 8 (get m (a + int k))" "k < n"
  shows "take_bit 8 (drop_bit (8 * k) (le_read get n a m)) = get m (a + int k)"
  using assms
proof (induction n arbitrary: a k)
  case (Suc n)
  show ?case
  proof (cases k)
    case 0
    have "take_bit 8 (get m a + 2 ^ 8 * le_read get n (a + 1) m) = take_bit 8 (get m a)"
      by (simp add: take_bit_eq_mod)
    with Suc.prems(1) [of 0] 0 show ?thesis by simp
  next
    case (Suc j)
    have "drop_bit (8 * k) (le_read get (Suc n) a m) = drop_bit (8 * j) (le_read get n (a + 1) m)"
    proof -
      have "0 \<le> get m a \<and> get m a < 2 ^ 8"
        using Suc.prems(1) [of 0] take_bit_range [of 8 "get m a"] by simp
      then have "drop_bit 8 (le_read get (Suc n) a m) = le_read get n (a + 1) m"
        by (simp add: drop_bit_eq_div)
      moreover have "drop_bit (8 * k) (le_read get (Suc n) a m) =
          drop_bit (8 * j) (drop_bit 8 (le_read get (Suc n) a m))"
        using Suc by (simp add: algebra_simps)
      ultimately show ?thesis by simp
    qed
    moreover have "take_bit 8 (drop_bit (8 * j) (le_read get n (a + 1) m)) = get m (a + 1 + int j)"
      by (rule Suc.IH) (use Suc.prems Suc Suc.prems(1) [of "Suc _"] in \<open>auto simp: algebra_simps\<close>)
    ultimately show ?thesis using Suc by (simp add: algebra_simps)
  qed
qed simp

section \<open>The packed list\<close>

lemma length_pack_image: "im \<noteq> [] \<Longrightarrow> int (length (pack_image im)) = (image_hi im - image_lo im) div 4"
  (is "_ \<Longrightarrow> ?l = ?r")
proof -
  assume ne: "im \<noteq> []"
  obtain a b im' where im: "im = (a, b) # im'" using ne by (cases im) auto
  have "image_lo im < image_hi im"
    using image_keys [of im a b] by (simp add: im)
  moreover have "(image_hi im - image_lo im) mod 4 = 0"
    using image_lo_mod [of im] image_hi_mod [of im] by presburger
  ultimately have "(image_hi im - image_lo im + 3) div 4 = (image_hi im - image_lo im) div 4"
      "0 \<le> (image_hi im - image_lo im) div 4"
    by presburger+
  with ne show "?l = ?r" by (simp add: pack_image_def)
qed

lemma pack_image_span:
  "map_of im a = Some b \<Longrightarrow> image_lo im \<le> a \<and> a < image_lo im + 4 * int (length (pack_image im))"
  using image_keys [of im a b] length_pack_image [of im] image_lo_mod [of im] image_hi_mod [of im]
  by (cases "im = []") (simp, presburger)

lemma pack_image_nth:
  "k < length (pack_image im) \<Longrightarrow> pack_image im ! k = image_word im (image_lo im + 4 * int k)"
  by (simp add: pack_image_def split: if_splits)

section \<open>The bytes of the packed list\<close>

text \<open>How the test benches turn the words into what \<open>load_program\<close> takes.\<close>

definition words_bytes :: "int list \<Rightarrow> int list" where
  "words_bytes ws = concat (map (\<lambda>w0. let w = w0 AND 0xFFFFFFFF in
     [take_bit 8 w, take_bit 8 (drop_bit 8 w), take_bit 8 (drop_bit 16 w), take_bit 8 (drop_bit 24 w)]) ws)"

lemma length_words_bytes [simp]: "length (words_bytes ws) = 4 * length ws"
  by (induction ws) (simp_all add: words_bytes_def Let_def)

lemma words_bytes_Cons: "words_bytes (w # ws) = map (\<lambda>j. take_bit 8 (drop_bit (8 * j) (take_bit 32 w))) [0..<4] @ words_bytes ws"
  by (simp add: words_bytes_def Let_def mask_simps upt_rec)

lemma words_bytes_nth:
  "k < length ws \<Longrightarrow> j < 4 \<Longrightarrow> words_bytes ws ! (4 * k + j) = take_bit 8 (drop_bit (8 * j) (take_bit 32 (ws ! k)))"
proof (induction ws arbitrary: k)
  case (Cons w ws)
  then show ?case by (cases k) (auto simp: words_bytes_Cons nth_append)
qed simp

text \<open>Byte \<open>a\<close> of the image is byte \<open>a - image_lo\<close> of the file.\<close>

lemma words_bytes_image:
  assumes ok: "image_ok im" and a: "image_lo im \<le> a" "a < image_lo im + 4 * int (length (pack_image im))"
  shows "words_bytes (pack_image im) ! nat (a - image_lo im) = image_get im a"
proof -
  obtain d where d: "a = image_lo im + int d"
    using that [of "nat (a - image_lo im)"] a by simp
  define k where "k = d div 4"
  define j where "j = d mod 4"
  have kj: "nat (a - image_lo im) = 4 * k + j" "j < 4" "k < length (pack_image im)"
      "a = image_lo im + 4 * int k + int j"
    using a by (simp_all add: d k_def j_def of_nat_mod of_nat_div)
  let ?w = "le_read image_get 4 (image_lo im + 4 * int k) im"
  have byte: "image_get im b = take_bit 8 (image_get im b)" for b
    using image_get_range [OF ok, of b] by (simp add: take_bit_id)
  have "take_bit 8 (drop_bit (8 * j) (take_bit 32 ?w)) = take_bit 8 (drop_bit (8 * j) ?w)"
  proof -
    have "8 \<le> 32 - 8 * j" using kj(2) by presburger
    then show ?thesis by (simp add: drop_bit_take_bit)
  qed
  also have "\<dots> = image_get im a"
    using byte_of_word [of 4 image_get im "image_lo im + 4 * int k" j] byte kj(2,4) by simp
  finally show ?thesis
    using words_bytes_nth [OF kj(3,2)] pack_image_nth [OF kj(3)] kj(1) image_word_le [OF ok] by simp
qed

end
