(* ===== verification/Emu_Bits.thy ===== *)
theory Emu_Bits
  imports Encoding
begin

text \<open>
  The helpers at the top of \<open>tools/refmodel/rv32i_emu.py\<close>: masking to 32 bits, signed reading,
  sign extension, and the decoders of the five immediate formats. The lemmas restate each as
  the bit-field operation it computes.
\<close>

section \<open>Definitions\<close>

definition XMASK :: int where
  "XMASK = push_bit XLEN 1 - 1"

definition u32 :: "int \<Rightarrow> int" where
  "u32 x = x AND XMASK"

definition s32 :: "int \<Rightarrow> int" where
  "s32 x = (let x = x AND XMASK in
     if x AND push_bit (XLEN - 1) 1 \<noteq> 0 then x - push_bit XLEN 1 else x)"

definition sext :: "int \<Rightarrow> nat \<Rightarrow> int" where
  "sext value bits =
     (let sign = push_bit (bits - 1) 1; value = value AND (push_bit bits 1 - 1)
      in (value XOR sign) - sign)"

definition imm_i :: "int \<Rightarrow> int" where
  "imm_i inst = sext (drop_bit 20 inst AND 0xFFF) 12"

definition imm_s :: "int \<Rightarrow> int" where
  "imm_s inst =
     (let raw = push_bit 5 (drop_bit 25 inst AND 0x7F) OR (drop_bit 7 inst AND 0x1F)
      in sext raw 12)"

definition imm_b :: "int \<Rightarrow> int" where
  "imm_b inst =
     (let raw = push_bit 12 (drop_bit 31 inst AND 0x1)
             OR push_bit 5 (drop_bit 25 inst AND 0x3F)
             OR push_bit 1 (drop_bit 8 inst AND 0xF)
             OR push_bit 11 (drop_bit 7 inst AND 0x1)
      in sext raw 13)"

definition imm_u :: "int \<Rightarrow> int" where
  "imm_u inst = inst AND 0xFFFFF000"

definition imm_j :: "int \<Rightarrow> int" where
  "imm_j inst =
     (let raw = push_bit 20 (drop_bit 31 inst AND 0x1)
             OR push_bit 1 (drop_bit 21 inst AND 0x3FF)
             OR push_bit 11 (drop_bit 20 inst AND 0x1)
             OR push_bit 12 (drop_bit 12 inst AND 0xFF)
      in sext raw 21)"

section \<open>What they compute\<close>

lemma u32_take_bit [field_simps_bits]: "u32 x = take_bit 32 x"
  by (simp add: u32_def XMASK_def XLEN_def mask_simps)

lemma u32_range [simp]: "0 \<le> u32 x" "u32 x < 0x100000000"
  using take_bit_int_less_exp [of 32 x] by (simp_all add: u32_take_bit)

lemma u32_id: "0 \<le> x \<Longrightarrow> x < 2 ^ 32 \<Longrightarrow> u32 x = x"
  by (simp add: u32_take_bit take_bit_int_eq_self)

lemma u32_mod: "u32 x = x mod 2 ^ 32"
  by (simp add: u32_take_bit take_bit_eq_mod)

lemma u32_idem [simp]: "u32 (u32 x) = u32 x"
  by (simp add: u32_take_bit)

lemma and_exp_nonzero: "(x :: int) AND 2 ^ n \<noteq> 0 \<longleftrightarrow> bit x n"
  by (simp add: and_exp_eq_0_iff_not_bit)

lemma s32_signed_take_bit [field_simps_bits]: "s32 x = signed_take_bit 31 x"
proof -
  have "(take_bit 32 x AND 0x80000000 \<noteq> 0) = bit x 31"
    using and_exp_nonzero [of "take_bit 32 x" 31] by (simp add: bit_take_bit_iff)
  then show ?thesis
    by (simp add: s32_def XMASK_def XLEN_def mask_simps signed_take_bit_eq_take_bit_minus)
qed

lemma sext_signed_take_bit: "sext x (Suc n) = signed_take_bit n x"
proof -
  have m: "x AND (push_bit (Suc n) 1 - 1) = take_bit (Suc n) x"
    by (simp add: take_bit_eq_mask mask_eq_exp_minus_1)
  show ?thesis
    unfolding sext_def Let_def m using xor_sign_extend [of n x] by simp
qed

lemma sext_12 [field_simps_bits]: "sext x 12 = signed_take_bit 11 x"
  and sext_13 [field_simps_bits]: "sext x 13 = signed_take_bit 12 x"
  and sext_21 [field_simps_bits]: "sext x 21 = signed_take_bit 20 x"
  and sext_8 [field_simps_bits]: "sext x 8 = signed_take_bit 7 x"
  and sext_16 [field_simps_bits]: "sext x 16 = signed_take_bit 15 x"
  using sext_signed_take_bit [of x 11] sext_signed_take_bit [of x 12]
    sext_signed_take_bit [of x 20] sext_signed_take_bit [of x 7] sext_signed_take_bit [of x 15]
  by simp_all

lemma imm_u_bits [field_simps_bits]: "imm_u inst = push_bit 12 (take_bit 20 (drop_bit 12 inst))"
proof -
  have eq: "(0xFFFFF000 :: int) = push_bit 12 (mask 20)"
    by (simp add: mask_eq_exp_minus_1)
  show ?thesis
    unfolding imm_u_def eq
    by (rule bit_eqI)
      (auto simp: bit_and_iff bit_push_bit_iff_int bit_mask_iff bit_take_bit_iff bit_drop_bit_eq)
qed

text \<open>Each decoder reads the fields of the ISA table and sign-extends from its top bit.\<close>

lemma imm_i_bits [field_simps_bits]: "imm_i inst = signed_take_bit 11 (drop_bit 20 inst)"
  by (simp add: imm_i_def sext_12 mask_simps signed_take_bit_take_bit)

lemma imm_s_bits [field_simps_bits]:
  "imm_s inst =
     signed_take_bit 11 (push_bit 5 (take_bit 7 (drop_bit 25 inst)) OR take_bit 5 (drop_bit 7 inst))"
  by (simp add: imm_s_def sext_12 mask_simps)

lemma imm_b_bits [field_simps_bits]:
  "imm_b inst = signed_take_bit 12
     (push_bit 12 (take_bit 1 (drop_bit 31 inst)) OR push_bit 5 (take_bit 6 (drop_bit 25 inst))
      OR push_bit 1 (take_bit 4 (drop_bit 8 inst)) OR push_bit 11 (take_bit 1 (drop_bit 7 inst)))"
  by (simp only: imm_b_def Let_def sext_13 mask_simps)

lemma imm_j_bits [field_simps_bits]:
  "imm_j inst = signed_take_bit 20
     (push_bit 20 (take_bit 1 (drop_bit 31 inst)) OR push_bit 1 (take_bit 10 (drop_bit 21 inst))
      OR push_bit 11 (take_bit 1 (drop_bit 20 inst)) OR push_bit 12 (take_bit 8 (drop_bit 12 inst)))"
  by (simp only: imm_j_def Let_def sext_21 mask_simps)

section \<open>Ranges and parity of the immediates\<close>

lemma imm_i_range: "- 2048 \<le> imm_i inst \<and> imm_i inst < 2048"
  using signed_take_bit_range [of 11] by (simp add: imm_i_bits)

lemma imm_s_range: "- 2048 \<le> imm_s inst \<and> imm_s inst < 2048"
  using signed_take_bit_range [of 11] by (simp add: imm_s_bits)

lemma imm_b_range: "- 4096 \<le> imm_b inst \<and> imm_b inst < 4096"
  unfolding imm_b_bits using signed_take_bit_range [of 12] by simp

lemma imm_j_range: "- 1048576 \<le> imm_j inst \<and> imm_j inst < 1048576"
  unfolding imm_j_bits using signed_take_bit_range [of 20] by simp

lemma imm_b_even: "even (imm_b inst)"
proof -
  have "\<not> bit (imm_b inst) 0"
    unfolding imm_b_bits
    by (simp add: bit_signed_take_bit_iff bit_or_iff bit_push_bit_iff_int) (simp add: bit_0)
  then show ?thesis by (simp add: bit_0)
qed

lemma imm_j_even: "even (imm_j inst)"
proof -
  have "\<not> bit (imm_j inst) 0"
    unfolding imm_j_bits
    by (simp add: bit_signed_take_bit_iff bit_or_iff bit_push_bit_iff_int) (simp add: bit_0)
  then show ?thesis by (simp add: bit_0)
qed

lemma imm_u_range: "0 \<le> imm_u inst \<and> imm_u inst < 2 ^ 32 \<and> 4096 dvd imm_u inst"
proof -
  have "take_bit 20 (drop_bit 12 inst) < 2 ^ 20" by (rule take_bit_int_less_exp)
  then show ?thesis
    by (simp add: imm_u_bits push_bit_eq_mult)
qed

section \<open>Reading 32-bit words\<close>

text \<open>
  On a value that is a 32-bit word, \<open>u32\<close> and \<open>s32\<close> are the unsigned and the signed reading of
  HOL's \<open>32 word\<close>.
\<close>

lemma u32_uint: "u32 (uint (w :: 32 word)) = uint w"
  using uint_lt2p [of w] by (simp add: u32_id)

lemma s32_sint: "s32 (uint (w :: 32 word)) = sint w"
  by (simp add: s32_signed_take_bit sint_uint)

lemma u32_of_int: "u32 x = uint (word_of_int x :: 32 word)"
  by (simp add: u32_take_bit uint_word_of_int_eq)

end
