(* ===== verification/Emu_State.thy ===== *)
theory Emu_State
  imports Emu_Bits Python_Strings
begin

text \<open>
  \<open>tools/refmodel/rv32i_emu.py\<close>, the class \<open>RV32I\<close>: its state, its exceptions, and the methods
  that touch memory and the register file (\<open>_mem_index\<close>, \<open>load_program\<close>, \<open>fetch\<close>, \<open>load\<close>,
  \<open>store\<close>, \<open>r\<close>, \<open>wr\<close>).
\<close>

section \<open>State and exceptions\<close>

text \<open>
  The exceptions the emulator raises. The texts of \<open>ValueError\<close> and \<open>RuntimeError\<close> and the
  \<open>detail\<close> of a \<open>Trap\<close> are the code's format strings.
\<close>

datatype emu_exn =
  Trap (trap_kind: string) (trap_pc: int) (trap_detail: string)
| RuntimeError string
| ValueError string

record StepTrace =
  tr_pc :: int
  tr_inst :: int
  rd_write :: "(int \<times> int) option"
  mem_write :: "(int \<times> int \<times> int) option"

text \<open>
  One CPU. \<open>mem\<close> is the bytearray, as a list of byte values; \<open>csrs\<close> is the dict.
\<close>

record cpu =
  regs :: "int list"
  pc :: int
  mem :: "int list"
  mem_base :: int
  tohost_addr :: int
  tohost_value :: "int option"
  halted :: bool
  halt_reason :: "string option"
  steps :: int
  csrs :: "int \<Rightarrow> int option"
  trap_on_ecall :: bool

definition CSR_MTVEC :: int where "CSR_MTVEC = 0x305"
definition CSR_MEPC :: int where "CSR_MEPC = 0x341"
definition CSR_MCAUSE :: int where "CSR_MCAUSE = 0x342"
definition CSR_MHARTID :: int where "CSR_MHARTID = 0xF14"
definition F12_MRET :: int where "F12_MRET = 0x302"
definition F12_WFI :: int where "F12_WFI = 0x105"
definition CAUSE_BREAKPOINT :: int where "CAUSE_BREAKPOINT = 3"
definition CAUSE_ECALL_M :: int where "CAUSE_ECALL_M = 11"

text \<open>\<open>__init__\<close>; \<open>bytearray(n)\<close> raises on a negative size.\<close>

definition RV32I_init :: "int \<Rightarrow> int \<Rightarrow> int \<Rightarrow> bool \<Rightarrow> emu_exn + cpu" where
  "RV32I_init sz base tohost trap_ecall =
     (if sz < 0 then Inl (ValueError ''negative count'')
      else Inr \<lparr>regs = replicate 32 0, pc = base, mem = replicate (nat sz) 0, mem_base = base,
                tohost_addr = tohost, tohost_value = None, halted = False, halt_reason = None,
                steps = 0, csrs = [CSR_MHARTID \<mapsto> 0], trap_on_ecall = trap_ecall\<rparr>)"

section \<open>Memory\<close>

definition mem_index :: "cpu \<Rightarrow> int \<Rightarrow> int \<Rightarrow> emu_exn + int" where
  "mem_index c addr sz =
     (if addr < mem_base c \<or> addr + sz > mem_base c + int (length (mem c))
      then Inl (Trap ''mem-range'' (pc c) (''addr=0x'' @ fmt_x 8 addr @ '' size='' @ fmt_d sz))
      else Inr (addr - mem_base c))"

text \<open>\<open>load_program\<close>: \<open>base\<close> is \<open>None\<close> for the default.\<close>

definition load_program :: "int list \<Rightarrow> int option \<Rightarrow> cpu \<Rightarrow> emu_exn + cpu" where
  "load_program data base_opt c =
     (let base = (case base_opt of None \<Rightarrow> mem_base c | Some b \<Rightarrow> b);
          offset = base - mem_base c;
          stop = offset + int (length data)
      in if offset < 0 \<or> stop > int (length (mem c))
         then Inl (ValueError
           (''program does not fit: base=0x'' @ fmt_x 0 base @ '', len='' @ fmt_d (int (length data)) @
            '', mem=[0x'' @ fmt_x 0 (mem_base c) @ '', 0x'' @
            fmt_x 0 (mem_base c + int (length (mem c))) @ '')''))
         else Inr (c\<lparr>mem := take (nat offset) (mem c) @ data @ drop (nat stop) (mem c)\<rparr>))"

text \<open>\<open>struct.unpack_from\<close> with the little-endian formats \<open><H\<close> and \<open><I\<close>.\<close>

definition unpack_H :: "int list \<Rightarrow> int \<Rightarrow> int" where
  "unpack_H m i = m ! nat i + 2 ^ 8 * (m ! nat (i + 1))"

definition unpack_I :: "int list \<Rightarrow> int \<Rightarrow> int" where
  "unpack_I m i = m ! nat i + 2 ^ 8 * (m ! nat (i + 1)) + 2 ^ 16 * (m ! nat (i + 2))
                + 2 ^ 24 * (m ! nat (i + 3))"

text \<open>\<open>struct.pack_into\<close>, for values that fit the format.\<close>

definition pack_H :: "int list \<Rightarrow> int \<Rightarrow> int \<Rightarrow> int list" where
  "pack_H m i v = m[nat i := take_bit 8 v, nat (i + 1) := take_bit 8 (drop_bit 8 v)]"

definition pack_I :: "int list \<Rightarrow> int \<Rightarrow> int \<Rightarrow> int list" where
  "pack_I m i v = m[nat i := take_bit 8 v, nat (i + 1) := take_bit 8 (drop_bit 8 v),
                    nat (i + 2) := take_bit 8 (drop_bit 16 v),
                    nat (i + 3) := take_bit 8 (drop_bit 24 v)]"

definition fetch :: "cpu \<Rightarrow> int \<Rightarrow> emu_exn + int" where
  "fetch c addr =
     (if addr AND 0x3 \<noteq> 0 then Inl (Trap ''misaligned-fetch'' (pc c) (''addr=0x'' @ fmt_x 8 addr))
      else bindE (mem_index c addr 4) (\<lambda>i. Inr (unpack_I (mem c) i)))"

definition load :: "cpu \<Rightarrow> int \<Rightarrow> int \<Rightarrow> bool \<Rightarrow> emu_exn + int" where
  "load c addr sz sgnd =
     (if (sz = 2 \<or> sz = 4) \<and> addr AND (sz - 1) \<noteq> 0
      then Inl (Trap ''misaligned-load'' (pc c)
                  (''addr=0x'' @ fmt_x 8 addr @ '' size='' @ fmt_d sz))
      else bindE (mem_index c addr sz) (\<lambda>i.
        if sz = 1 then
          (let v = mem c ! nat i in Inr (if sgnd then sext v 8 AND XMASK else v))
        else if sz = 2 then
          (let v = unpack_H (mem c) i in Inr (if sgnd then sext v 16 AND XMASK else v))
        else Inr (unpack_I (mem c) i)))"

text \<open>A write to \<open>tohost\<close> halts and does not reach memory.\<close>

definition store :: "int \<Rightarrow> int \<Rightarrow> int \<Rightarrow> (cpu, emu_exn, unit) sx" where
  "store addr value sz =
     sx_bind (sx_gets tohost_addr) (\<lambda>th.
       if addr = th then
         sx_modify (\<lambda>c. c\<lparr>tohost_value := Some (u32 value), halted := True,
           halt_reason := Some (if u32 value = 1 then ''tohost-pass'' else ''tohost-fail'')\<rparr>)
       else if (sz = 2 \<or> sz = 4) \<and> addr AND (sz - 1) \<noteq> 0 then
         sx_bind (sx_gets pc) (\<lambda>p. sx_raise (Trap ''misaligned-store'' p
           (''addr=0x'' @ fmt_x 8 addr @ '' size='' @ fmt_d sz)))
       else
         sx_bind (sx_read (\<lambda>c. mem_index c addr sz)) (\<lambda>i. sx_modify (\<lambda>c. c\<lparr>mem :=
           (if sz = 1 then (mem c)[nat i := value AND 0xFF]
            else if sz = 2 then pack_H (mem c) i (value AND 0xFFFF)
            else pack_I (mem c) i (u32 value))\<rparr>)))"

section \<open>Register file\<close>

definition r :: "cpu \<Rightarrow> int \<Rightarrow> int" where
  "r c idx = (if idx = 0 then 0 else regs c ! nat idx)"

definition wr :: "int \<Rightarrow> int \<Rightarrow> cpu \<Rightarrow> cpu" where
  "wr idx value c = (if idx \<noteq> 0 then c\<lparr>regs := (regs c)[nat idx := u32 value]\<rparr> else c)"

text \<open>\<open>self.csrs.get(k, 0)\<close>.\<close>

definition csr_get :: "cpu \<Rightarrow> int \<Rightarrow> int" where
  "csr_get c k = (case csrs c k of None \<Rightarrow> 0 | Some v \<Rightarrow> v)"

end
