(* ===== verification/Emu_Step.thy ===== *)
theory Emu_Step
  imports Emu_State
begin

text \<open>
  \<open>tools/refmodel/rv32i_emu.py\<close>: \<open>step\<close>, \<open>_alu_imm\<close>, \<open>_alu_reg\<close>, \<open>_take_trap\<close> and \<open>run\<close>. The
  \<open>elif\<close> chain of \<open>step\<close> is one definition per opcode; each returns the next PC.
\<close>

section \<open>Arithmetic\<close>

definition alu_imm :: "int \<Rightarrow> int \<Rightarrow> int \<Rightarrow> int \<Rightarrow> int \<Rightarrow> emu_exn + int" where
  "alu_imm f3 a imm inst pc0 =
     (if f3 = F3Op_value F3_ADD_SUB then Inr (u32 (a + imm))
      else if f3 = F3Op_value F3_SLT then Inr (if s32 a < s32 imm then 1 else 0)
      else if f3 = F3Op_value F3_SLTU then Inr (if u32 a < u32 imm then 1 else 0)
      else if f3 = F3Op_value F3_XOR then Inr (u32 (a XOR imm))
      else if f3 = F3Op_value F3_OR then Inr (u32 (a OR imm))
      else if f3 = F3Op_value F3_AND then Inr (u32 (a AND imm))
      else if f3 = F3Op_value F3_SLL then Inr (u32 (push_bit (nat (imm AND 0x1F)) a))
      else if f3 = F3Op_value F3_SR then
        (let f7 = drop_bit 25 inst AND 0x7F; shamt = nat (imm AND 0x1F) in
         if f7 = F7_DEFAULT then Inr (drop_bit shamt (u32 a))
         else if f7 = F7_ALT then Inr (u32 (drop_bit shamt (s32 a)))
         else Inl (Trap ''illegal'' pc0 (''OP-IMM SR funct7=0x'' @ fmt_x 2 f7)))
      else Inl (Trap ''illegal'' pc0 (''OP-IMM funct3='' @ fmt_d f3)))"

definition alu_reg :: "int \<Rightarrow> int \<Rightarrow> int \<Rightarrow> int \<Rightarrow> int \<Rightarrow> emu_exn + int" where
  "alu_reg f3 f7 a b pc0 =
     (if f3 = F3Op_value F3_ADD_SUB then
        (if f7 = F7_DEFAULT then Inr (u32 (a + b))
         else if f7 = F7_ALT then Inr (u32 (a - b))
         else Inl (Trap ''illegal'' pc0 (''OP ADD/SUB funct7=0x'' @ fmt_x 2 f7)))
      else if f3 = F3Op_value F3_SLL then Inr (u32 (push_bit (nat (b AND 0x1F)) a))
      else if f3 = F3Op_value F3_SLT then Inr (if s32 a < s32 b then 1 else 0)
      else if f3 = F3Op_value F3_SLTU then Inr (if u32 a < u32 b then 1 else 0)
      else if f3 = F3Op_value F3_XOR then Inr (u32 (a XOR b))
      else if f3 = F3Op_value F3_SR then
        (let shamt = nat (b AND 0x1F) in
         if f7 = F7_DEFAULT then Inr (drop_bit shamt (u32 a))
         else if f7 = F7_ALT then Inr (u32 (drop_bit shamt (s32 a)))
         else Inl (Trap ''illegal'' pc0 (''OP SR funct7=0x'' @ fmt_x 2 f7)))
      else if f3 = F3Op_value F3_OR then Inr (u32 (a OR b))
      else if f3 = F3Op_value F3_AND then Inr (u32 (a AND b))
      else Inl (Trap ''illegal'' pc0 (''OP funct3='' @ fmt_d f3)))"

text \<open>\<open>None\<close> is the \<open>else: raise\<close> of the branch chain.\<close>

definition branch_taken :: "int \<Rightarrow> int \<Rightarrow> int \<Rightarrow> bool option" where
  "branch_taken funct3 a b =
     (if funct3 = F3Branch_value F3_BEQ then Some (a = b)
      else if funct3 = F3Branch_value F3_BNE then Some (a \<noteq> b)
      else if funct3 = F3Branch_value F3_BLT then Some (s32 a < s32 b)
      else if funct3 = F3Branch_value F3_BGE then Some (s32 a \<ge> s32 b)
      else if funct3 = F3Branch_value F3_BLTU then Some (u32 a < u32 b)
      else if funct3 = F3Branch_value F3_BGEU then Some (u32 a \<ge> u32 b)
      else None)"

section \<open>Fields of an instruction word\<close>

definition inst_opcode :: "int \<Rightarrow> int" where "inst_opcode inst = inst AND 0x7F"
definition inst_rd :: "int \<Rightarrow> int" where "inst_rd inst = drop_bit 7 inst AND 0x1F"
definition inst_funct3 :: "int \<Rightarrow> int" where "inst_funct3 inst = drop_bit 12 inst AND 0x7"
definition inst_rs1 :: "int \<Rightarrow> int" where "inst_rs1 inst = drop_bit 15 inst AND 0x1F"
definition inst_rs2 :: "int \<Rightarrow> int" where "inst_rs2 inst = drop_bit 20 inst AND 0x1F"
definition inst_funct7 :: "int \<Rightarrow> int" where "inst_funct7 inst = drop_bit 25 inst AND 0x7F"
definition inst_funct12 :: "int \<Rightarrow> int" where "inst_funct12 inst = drop_bit 20 inst AND 0xFFF"

section \<open>One opcode at a time\<close>

type_synonym 'a emu = "(cpu, emu_exn, 'a) sx"

definition exec_lui :: "int \<Rightarrow> int \<Rightarrow> int emu" where
  "exec_lui pc0 inst =
     sx_bind (sx_modify (wr (inst_rd inst) (imm_u inst))) (\<lambda>_. sx_return (u32 (pc0 + 4)))"

definition exec_auipc :: "int \<Rightarrow> int \<Rightarrow> int emu" where
  "exec_auipc pc0 inst =
     sx_bind (sx_modify (wr (inst_rd inst) (u32 (pc0 + imm_u inst)))) (\<lambda>_. sx_return (u32 (pc0 + 4)))"

definition exec_jal :: "int \<Rightarrow> int \<Rightarrow> int emu" where
  "exec_jal pc0 inst =
     (let link = u32 (pc0 + 4); target = u32 (pc0 + imm_j inst) in
      if target AND 0x3 \<noteq> 0
      then sx_raise (Trap ''misaligned-fetch'' pc0 (''JAL target=0x'' @ fmt_x 8 target))
      else sx_bind (sx_modify (wr (inst_rd inst) link)) (\<lambda>_. sx_return target))"

definition exec_jalr :: "int \<Rightarrow> int \<Rightarrow> int emu" where
  "exec_jalr pc0 inst =
     sx_bind (sx_gets (\<lambda>c. r c (inst_rs1 inst))) (\<lambda>a.
       let link = u32 (pc0 + 4); target = u32 ((a + imm_i inst) AND NOT 1) in
       if target AND 0x3 \<noteq> 0
       then sx_raise (Trap ''misaligned-fetch'' pc0 (''JALR target=0x'' @ fmt_x 8 target))
       else sx_bind (sx_modify (wr (inst_rd inst) link)) (\<lambda>_. sx_return target))"

definition exec_branch :: "int \<Rightarrow> int \<Rightarrow> int emu" where
  "exec_branch pc0 inst =
     sx_bind (sx_gets (\<lambda>c. (r c (inst_rs1 inst), r c (inst_rs2 inst)))) (\<lambda>(a, b).
       case branch_taken (inst_funct3 inst) a b of
         None \<Rightarrow> sx_raise (Trap ''illegal'' pc0 (''branch funct3='' @ fmt_d (inst_funct3 inst)))
       | Some taken \<Rightarrow>
           (if taken then
              (let target = u32 (pc0 + imm_b inst) in
               if target AND 0x3 \<noteq> 0
               then sx_raise (Trap ''misaligned-fetch'' pc0 (''BR target=0x'' @ fmt_x 8 target))
               else sx_return target)
            else sx_return (u32 (pc0 + 4))))"

definition load_width :: "int \<Rightarrow> (int \<times> bool) option" where
  "load_width funct3 =
     (if funct3 = F3Load_value F3_LB then Some (1, True)
      else if funct3 = F3Load_value F3_LH then Some (2, True)
      else if funct3 = F3Load_value F3_LW then Some (4, False)
      else if funct3 = F3Load_value F3_LBU then Some (1, False)
      else if funct3 = F3Load_value F3_LHU then Some (2, False)
      else None)"

definition exec_load :: "int \<Rightarrow> int \<Rightarrow> int emu" where
  "exec_load pc0 inst =
     sx_bind (sx_gets (\<lambda>c. u32 (r c (inst_rs1 inst) + imm_i inst))) (\<lambda>addr.
       case load_width (inst_funct3 inst) of
         None \<Rightarrow> sx_raise (Trap ''illegal'' pc0 (''load funct3='' @ fmt_d (inst_funct3 inst)))
       | Some (sz, sgnd) \<Rightarrow>
           sx_bind (sx_read (\<lambda>c. load c addr sz sgnd)) (\<lambda>v.
           sx_bind (sx_modify (wr (inst_rd inst) v)) (\<lambda>_. sx_return (u32 (pc0 + 4)))))"

definition store_width :: "int \<Rightarrow> int option" where
  "store_width funct3 =
     (if funct3 = F3Store_value F3_SB then Some 1
      else if funct3 = F3Store_value F3_SH then Some 2
      else if funct3 = F3Store_value F3_SW then Some 4
      else None)"

text \<open>The store also returns what goes into the trace.\<close>

definition exec_store :: "int \<Rightarrow> int \<Rightarrow> (int \<times> (int \<times> int \<times> int) option) emu" where
  "exec_store pc0 inst =
     sx_bind (sx_gets (\<lambda>c. (u32 (r c (inst_rs1 inst) + imm_s inst), r c (inst_rs2 inst)))) (\<lambda>(addr, v).
       case store_width (inst_funct3 inst) of
         None \<Rightarrow> sx_raise (Trap ''illegal'' pc0 (''store funct3='' @ fmt_d (inst_funct3 inst)))
       | Some sz \<Rightarrow>
           sx_bind (store addr v sz) (\<lambda>_.
           sx_return (u32 (pc0 + 4), Some (addr, u32 v, sz))))"

definition exec_imm :: "int \<Rightarrow> int \<Rightarrow> int emu" where
  "exec_imm pc0 inst =
     sx_bind (sx_read (\<lambda>c. alu_imm (inst_funct3 inst) (r c (inst_rs1 inst)) (imm_i inst) inst pc0)) (\<lambda>v.
     sx_bind (sx_modify (wr (inst_rd inst) v)) (\<lambda>_. sx_return (u32 (pc0 + 4))))"

definition exec_reg :: "int \<Rightarrow> int \<Rightarrow> int emu" where
  "exec_reg pc0 inst =
     sx_bind (sx_read (\<lambda>c. alu_reg (inst_funct3 inst) (inst_funct7 inst)
                              (r c (inst_rs1 inst)) (r c (inst_rs2 inst)) pc0)) (\<lambda>v.
     sx_bind (sx_modify (wr (inst_rd inst) v)) (\<lambda>_. sx_return (u32 (pc0 + 4))))"

definition take_trap :: "int \<Rightarrow> int \<Rightarrow> int emu" where
  "take_trap pc0 cause =
     sx_bind (sx_modify (\<lambda>c. c\<lparr>csrs := (csrs c)(CSR_MEPC \<mapsto> u32 pc0)\<rparr>)) (\<lambda>_.
     sx_bind (sx_modify (\<lambda>c. c\<lparr>csrs := (csrs c)(CSR_MCAUSE \<mapsto> u32 cause)\<rparr>)) (\<lambda>_.
     sx_gets (\<lambda>c. u32 (csr_get c CSR_MTVEC AND NOT 0x3))))"

text \<open>ECALL and EBREAK: a trap to \<open>mtvec\<close>, or a halt with a reason.\<close>

definition exec_env_call :: "int \<Rightarrow> int \<Rightarrow> string \<Rightarrow> int emu" where
  "exec_env_call pc0 cause reason =
     sx_bind (sx_gets trap_on_ecall) (\<lambda>t.
       if t then take_trap pc0 cause
       else sx_bind (sx_modify (\<lambda>c. c\<lparr>halted := True, halt_reason := Some reason\<rparr>))
              (\<lambda>_. sx_return (u32 (pc0 + 4))))"

definition exec_system0 :: "int \<Rightarrow> int \<Rightarrow> int emu" where
  "exec_system0 pc0 inst =
     (let funct12 = inst_funct12 inst in
      if funct12 = F12_ECALL then exec_env_call pc0 CAUSE_ECALL_M ''ecall''
      else if funct12 = F12_EBREAK then exec_env_call pc0 CAUSE_BREAKPOINT ''ebreak''
      else if funct12 = F12_MRET then sx_gets (\<lambda>c. u32 (csr_get c CSR_MEPC))
      else if funct12 = F12_WFI then sx_return (u32 (pc0 + 4))
      else sx_raise (Trap ''illegal'' pc0 (''system funct12=0x'' @ fmt_x 3 funct12)))"

definition exec_csr :: "int \<Rightarrow> int \<Rightarrow> int emu" where
  "exec_csr pc0 inst =
     (let csr = inst_funct12 inst; funct3 = inst_funct3 inst; rs1 = inst_rs1 inst;
          op = funct3 AND 0b011 in
      sx_bind (sx_gets (\<lambda>c. if funct3 AND 0b100 \<noteq> 0 then rs1 else r c rs1)) (\<lambda>src_val.
      sx_bind (sx_gets (\<lambda>c. csr_get c csr)) (\<lambda>old.
      sx_bind (sx_modify (\<lambda>c.
        if op = 0b01 then c\<lparr>csrs := (csrs c)(csr \<mapsto> u32 src_val)\<rparr>
        else if src_val \<noteq> 0 then
          (if op = 0b10 then c\<lparr>csrs := (csrs c)(csr \<mapsto> u32 (old OR src_val))\<rparr>
           else if op = 0b11 then c\<lparr>csrs := (csrs c)(csr \<mapsto> u32 (old AND NOT src_val))\<rparr>
           else c)
        else c)) (\<lambda>_.
      sx_bind (sx_modify (wr (inst_rd inst) old)) (\<lambda>_. sx_return (u32 (pc0 + 4)))))))"

definition exec_system :: "int \<Rightarrow> int \<Rightarrow> int emu" where
  "exec_system pc0 inst =
     (if inst_funct3 inst = 0 then exec_system0 pc0 inst
      else if inst_funct3 inst = 0b100 then
        sx_raise (Trap ''illegal'' pc0 ''system funct3=0b100 reserved'')
      else exec_csr pc0 inst)"

section \<open>One step\<close>

definition no_store :: "int emu \<Rightarrow> (int \<times> (int \<times> int \<times> int) option) emu" where
  "no_store m = sx_bind m (\<lambda>n. sx_return (n, None))"

definition exec_opcode :: "int \<Rightarrow> int \<Rightarrow> (int \<times> (int \<times> int \<times> int) option) emu" where
  "exec_opcode pc0 inst =
     (let opcode = inst_opcode inst in
      if opcode = Opcode_value OP_LUI then no_store (exec_lui pc0 inst)
      else if opcode = Opcode_value OP_AUIPC then no_store (exec_auipc pc0 inst)
      else if opcode = Opcode_value OP_JAL then no_store (exec_jal pc0 inst)
      else if opcode = Opcode_value OP_JALR then no_store (exec_jalr pc0 inst)
      else if opcode = Opcode_value OP_BRANCH then no_store (exec_branch pc0 inst)
      else if opcode = Opcode_value OP_LOAD then no_store (exec_load pc0 inst)
      else if opcode = Opcode_value OP_STORE then exec_store pc0 inst
      else if opcode = Opcode_value OP_IMM then no_store (exec_imm pc0 inst)
      else if opcode = Opcode_value OP_REG then no_store (exec_reg pc0 inst)
      else if opcode = Opcode_value OP_FENCE then no_store (sx_return (u32 (pc0 + 4)))
      else if opcode = Opcode_value OP_SYSTEM then no_store (exec_system pc0 inst)
      else sx_raise (Trap ''illegal'' pc0 (''opcode=0x'' @ fmt_x 2 opcode)))"

definition rd_opcodes :: "int list" where
  "rd_opcodes = map Opcode_value
     [OP_LUI, OP_AUIPC, OP_JAL, OP_JALR, OP_LOAD, OP_IMM, OP_REG, OP_SYSTEM]"

definition trace_rd :: "int \<Rightarrow> cpu \<Rightarrow> (int \<times> int) option" where
  "trace_rd inst c =
     (let rd = inst_rd inst in
      if rd \<noteq> 0 \<and> inst_opcode inst \<in> set rd_opcodes then Some (rd, regs c ! nat rd) else None)"

definition step :: "StepTrace emu" where
  "step =
     sx_bind (sx_gets halted) (\<lambda>h.
       if h then sx_raise (RuntimeError ''step() called on halted CPU'')
       else
         sx_bind (sx_gets pc) (\<lambda>pc0.
         sx_bind (sx_read (\<lambda>c. fetch c pc0)) (\<lambda>inst.
         sx_bind (exec_opcode pc0 inst) (\<lambda>(next_pc, mw).
         sx_bind (sx_gets (trace_rd inst)) (\<lambda>rw.
         sx_bind (sx_modify (\<lambda>c. c\<lparr>pc := next_pc, steps := steps c + 1\<rparr>)) (\<lambda>_.
         sx_return \<lparr>tr_pc = pc0, tr_inst = inst, rd_write = rw, mem_write = mw\<rparr>))))))"

end
