(* ===== verification/Emu_Inv.thy ===== *)
theory Emu_Inv
  imports Emu_Step
begin

text \<open>
  What every method of \<open>RV32I\<close> keeps: the well-formedness of the state (32 registers holding
  32-bit values, \<open>x0\<close> zero, bytes in memory, 32-bit CSRs, a 32-bit PC), the fields that no
  instruction writes, and the state itself when an instruction raises.
\<close>

section \<open>Well-formed states\<close>

definition word_ok :: "int \<Rightarrow> bool" where
  "word_ok v = (0 \<le> v \<and> v < 0x100000000)"

definition byte_ok :: "int \<Rightarrow> bool" where
  "byte_ok v = (0 \<le> v \<and> v < 0x100)"

definition wf_cpu :: "cpu \<Rightarrow> bool" where
  "wf_cpu c \<longleftrightarrow>
     length (regs c) = 32 \<and> regs c ! 0 = 0 \<and> list_all word_ok (regs c) \<and>
     list_all byte_ok (mem c) \<and> (\<forall>k v. csrs c k = Some v \<longrightarrow> word_ok v) \<and> word_ok (pc c)"

lemma word_ok_u32 [simp]: "word_ok (u32 x)"
  by (simp add: word_ok_def)

lemma word_ok_0 [simp]: "word_ok 0"
  by (simp add: word_ok_def)

lemma byte_ok_take_bit [simp]: "byte_ok (take_bit 8 x)"
  using take_bit_int_less_exp [of 8 x] by (simp add: byte_ok_def)

lemma byte_ok_and [simp]: "byte_ok (x AND 0xFF)"
  by (simp add: mask_simps)

lemma list_all_update: "list_all P xs \<Longrightarrow> P v \<Longrightarrow> list_all P (xs[i := v])"
  by (metis (full_types) insertE list_all_iff set_update_subset_insert subset_iff)

lemma inst_fields_range:
  "0 \<le> inst_rd inst \<and> inst_rd inst < 32" "0 \<le> inst_rs1 inst \<and> inst_rs1 inst < 32"
  "0 \<le> inst_rs2 inst \<and> inst_rs2 inst < 32" "0 \<le> inst_funct3 inst \<and> inst_funct3 inst < 8"
  "0 \<le> inst_funct7 inst \<and> inst_funct7 inst < 128"
  "0 \<le> inst_funct12 inst \<and> inst_funct12 inst < 4096"
  "0 \<le> inst_opcode inst \<and> inst_opcode inst < 128"
  using take_bit_int_less_exp [of 5] take_bit_int_less_exp [of 3] take_bit_int_less_exp [of 7]
    take_bit_int_less_exp [of 12]
  by (simp_all add: inst_rd_def inst_rs1_def inst_rs2_def inst_funct3_def inst_funct7_def
      inst_funct12_def inst_opcode_def mask_simps)

lemma wf_wr [intro]: "wf_cpu c \<Longrightarrow> 0 \<le> i \<Longrightarrow> wf_cpu (wr i v c)"
  by (auto simp: wf_cpu_def wr_def list_all_update)

lemma wf_store_mem: "wf_cpu c \<Longrightarrow> list_all byte_ok m \<Longrightarrow> wf_cpu (c\<lparr>mem := m\<rparr>)"
  by (simp add: wf_cpu_def)

lemma wf_csr: "wf_cpu c \<Longrightarrow> word_ok v \<Longrightarrow> wf_cpu (c\<lparr>csrs := (csrs c)(k \<mapsto> v)\<rparr>)"
  by (simp add: wf_cpu_def)

lemma wf_halt [simp]:
  "wf_cpu (c\<lparr>tohost_value := t, halted := h, halt_reason := s\<rparr>) = wf_cpu c"
  "wf_cpu (c\<lparr>halted := h, halt_reason := s\<rparr>) = wf_cpu c"
  by (simp_all add: wf_cpu_def)

lemma wf_r_range: "wf_cpu c \<Longrightarrow> 0 \<le> i \<Longrightarrow> i < 32 \<Longrightarrow> word_ok (r c i)"
  by (auto simp: wf_cpu_def r_def list_all_length)

lemma pack_H_bytes: "list_all byte_ok m \<Longrightarrow> list_all byte_ok (pack_H m i v)"
  and pack_I_bytes: "list_all byte_ok m \<Longrightarrow> list_all byte_ok (pack_I m i v)"
  by (simp_all add: pack_H_def pack_I_def list_all_update)

lemma pack_length [simp]: "length (pack_H m i v) = length m" "length (pack_I m i v) = length m"
  by (simp_all add: pack_H_def pack_I_def)

section \<open>Each opcode keeps well-formedness and returns a 32-bit PC\<close>

lemma wf_store: "sx_ensures wf_cpu (\<lambda>_. True) (store addr value sz)"
  by (auto simp: sx_ensures_def store_def sx_simps pack_H_bytes pack_I_bytes list_all_update wf_cpu_def
      split: sum.splits)

named_theorems exec_wf \<open>well-formedness of the opcodes\<close>

lemma exec_lui_wf [exec_wf]: "sx_ensures wf_cpu word_ok (exec_lui pc0 inst)"
  and exec_auipc_wf [exec_wf]: "sx_ensures wf_cpu word_ok (exec_auipc pc0 inst)"
  and exec_jal_wf [exec_wf]: "sx_ensures wf_cpu word_ok (exec_jal pc0 inst)"
  and exec_jalr_wf [exec_wf]: "sx_ensures wf_cpu word_ok (exec_jalr pc0 inst)"
  and exec_branch_wf [exec_wf]: "sx_ensures wf_cpu word_ok (exec_branch pc0 inst)"
  by (auto simp: sx_ensures_def exec_lui_def exec_auipc_def exec_jal_def exec_jalr_def
      exec_branch_def sx_simps Let_def inst_fields_range split: option.splits)

lemma exec_load_wf [exec_wf]: "sx_ensures wf_cpu word_ok (exec_load pc0 inst)"
  and exec_imm_wf [exec_wf]: "sx_ensures wf_cpu word_ok (exec_imm pc0 inst)"
  and exec_reg_wf [exec_wf]: "sx_ensures wf_cpu word_ok (exec_reg pc0 inst)"
  by (auto simp: sx_ensures_def exec_load_def exec_imm_def exec_reg_def sx_simps
      inst_fields_range split: option.splits sum.splits)

lemma exec_store_wf: "sx_ensures wf_cpu (\<lambda>x. word_ok (fst x)) (exec_store pc0 inst)"
  unfolding exec_store_def
  by (auto intro!: sx_ensures_bind [where Q = "\<lambda>_. True"] sx_ensures_gets sx_rules wf_store
      split: option.splits)

lemma take_trap_wf: "sx_ensures wf_cpu word_ok (take_trap pc0 cause)"
  by (simp add: sx_ensures_def take_trap_def sx_simps wf_cpu_def)

lemma exec_csr_wf: "sx_ensures wf_cpu word_ok (exec_csr pc0 inst)"
  by (auto simp: sx_ensures_def exec_csr_def sx_simps Let_def inst_fields_range intro!: wf_wr wf_csr)

lemma exec_system_wf [exec_wf]: "sx_ensures wf_cpu word_ok (exec_system pc0 inst)"
proof -
  have "sx_ensures wf_cpu word_ok (exec_env_call pc0 cause reason)" for cause reason
    unfolding exec_env_call_def
    by (rule sx_ensures_bind [where Q = "\<lambda>_. True"])
      (auto simp: sx_ensures_def sx_simps take_trap_wf [unfolded sx_ensures_def])
  then show ?thesis
    unfolding exec_system_def exec_system0_def Let_def
    by (auto intro!: sx_rules sx_ensures_gets exec_csr_wf)
qed

lemma no_store_wf: "sx_ensures wf_cpu word_ok m \<Longrightarrow> sx_ensures wf_cpu (\<lambda>x. word_ok (fst x)) (no_store m)"
  unfolding no_store_def by (rule sx_ensures_bind [where Q = word_ok]) (auto intro: sx_rules)

lemma exec_opcode_wf: "sx_ensures wf_cpu (\<lambda>x. word_ok (fst x)) (exec_opcode pc0 inst)"
  unfolding exec_opcode_def Let_def
  by (intro sx_rules no_store_wf exec_wf exec_store_wf) simp

section \<open>A step keeps well-formedness\<close>

lemma step_ensures_wf: "sx_ensures wf_cpu (\<lambda>_. True) step"
  unfolding step_def
  by (intro sx_rules sx_ensures_bind [where Q = "\<lambda>_. True"]
      sx_ensures_bind [OF exec_opcode_wf] sx_ensures_gets sx_ensures_read sx_ensures_modify)
    (auto simp: sx_ensures_def sx_simps wf_cpu_def)

section \<open>Fields an instruction never writes\<close>

text \<open>The part of the state that only \<open>__init__\<close> and \<open>step\<close>'s own bookkeeping set.\<close>

definition frame :: "cpu \<Rightarrow> nat \<times> nat \<times> int \<times> int \<times> bool \<times> int \<times> int" where
  "frame c = (length (regs c), length (mem c), mem_base c, tohost_addr c, trap_on_ecall c, steps c, pc c)"

lemma frame_wr [simp]: "frame (wr i v c) = frame c"
  by (simp add: frame_def wr_def)

lemma frame_updates [simp]:
  "frame (c\<lparr>csrs := m\<rparr>) = frame c"
  "frame (c\<lparr>halted := h, halt_reason := s\<rparr>) = frame c"
  "frame (c\<lparr>tohost_value := t, halted := h, halt_reason := s\<rparr>) = frame c"
  by (simp_all add: frame_def)

named_theorems exec_frame \<open>frame lemmas of the opcodes\<close>

lemma exec_alu_frame [exec_frame]:
  "sx_ensures (\<lambda>c. frame c = k) (\<lambda>_. True) (exec_lui pc0 inst)"
  "sx_ensures (\<lambda>c. frame c = k) (\<lambda>_. True) (exec_auipc pc0 inst)"
  "sx_ensures (\<lambda>c. frame c = k) (\<lambda>_. True) (exec_imm pc0 inst)"
  "sx_ensures (\<lambda>c. frame c = k) (\<lambda>_. True) (exec_reg pc0 inst)"
  by (auto simp: sx_ensures_def sx_simps exec_lui_def exec_auipc_def exec_imm_def exec_reg_def
      split: sum.splits)

lemma exec_jump_frame [exec_frame]:
  "sx_ensures (\<lambda>c. frame c = k) (\<lambda>_. True) (exec_jal pc0 inst)"
  "sx_ensures (\<lambda>c. frame c = k) (\<lambda>_. True) (exec_jalr pc0 inst)"
  "sx_ensures (\<lambda>c. frame c = k) (\<lambda>_. True) (exec_branch pc0 inst)"
  by (auto simp: sx_ensures_def sx_simps exec_jal_def exec_jalr_def exec_branch_def Let_def
      split: option.splits)

lemma store_frame: "sx_ensures (\<lambda>c. frame c = k) (\<lambda>_. True) (store addr v sz)"
  by (auto simp: sx_ensures_def sx_simps store_def frame_def split: sum.splits)

lemma exec_mem_frame [exec_frame]:
  "sx_ensures (\<lambda>c. frame c = k) (\<lambda>_. True) (exec_load pc0 inst)"
  "sx_ensures (\<lambda>c. frame c = k) (\<lambda>_. True) (exec_store pc0 inst)"
  unfolding exec_load_def exec_store_def
  by (auto intro!: sx_ensures_bind [where Q = "\<lambda>_. True"] sx_ensures_gets sx_ensures_read
      sx_ensures_modify sx_rules store_frame split: option.splits)

lemma take_trap_frame: "sx_ensures (\<lambda>c. frame c = k) (\<lambda>_. True) (take_trap pc0 cause)"
  by (simp add: sx_ensures_def sx_simps take_trap_def)

lemma exec_csr_frame: "sx_ensures (\<lambda>c. frame c = k) (\<lambda>_. True) (exec_csr pc0 inst)"
  by (auto simp: sx_ensures_def sx_simps exec_csr_def Let_def)

lemma exec_system_frame [exec_frame]:
  "sx_ensures (\<lambda>c. frame c = k) (\<lambda>_. True) (exec_system pc0 inst)"
  unfolding exec_system_def exec_system0_def exec_env_call_def Let_def
  by (auto intro!: sx_ensures_bind [where Q = "\<lambda>_. True"] sx_ensures_gets sx_ensures_modify
      sx_rules exec_csr_frame take_trap_frame)

lemma exec_opcode_frame: "sx_ensures (\<lambda>c. frame c = k) (\<lambda>_. True) (exec_opcode pc0 inst)"
  unfolding exec_opcode_def no_store_def Let_def
  by (intro sx_rules exec_frame sx_ensures_bind [where Q = "\<lambda>_. True"] TrueI)

section \<open>An instruction that raises changes nothing\<close>

named_theorems exec_atomic \<open>the opcodes that raise leave the state as it was\<close>

lemma exec_alu_atomic [exec_atomic]:
  "sx_atomic (exec_lui pc0 inst)" "sx_atomic (exec_auipc pc0 inst)"
  "sx_atomic (exec_imm pc0 inst)" "sx_atomic (exec_reg pc0 inst)"
  by (auto simp: exec_lui_def exec_auipc_def exec_imm_def exec_reg_def intro!: sx_rules)

lemma exec_jump_atomic [exec_atomic]:
  "sx_atomic (exec_jal pc0 inst)" "sx_atomic (exec_jalr pc0 inst)" "sx_atomic (exec_branch pc0 inst)"
  by (auto simp: exec_jal_def exec_jalr_def exec_branch_def Let_def
      intro!: sx_rules split: option.splits)

lemma store_atomic: "sx_atomic (store addr v sz)"
  unfolding store_def by (intro sx_rules)

lemma exec_mem_atomic [exec_atomic]:
  "sx_atomic (exec_load pc0 inst)" "sx_atomic (exec_store pc0 inst)"
  by (auto simp: exec_load_def exec_store_def intro!: sx_rules sx_atomic_bind_total [OF store_atomic]
      split: option.splits)

lemma exec_csr_total: "sx_total (exec_csr pc0 inst)"
  unfolding exec_csr_def Let_def by (intro sx_rules)

lemma sx_total_atomic: "sx_total m \<Longrightarrow> sx_atomic m"
  by (simp add: sx_total_def sx_atomic_def)

lemma exec_env_call_total: "sx_total (exec_env_call pc0 cause reason)"
  unfolding exec_env_call_def take_trap_def by (intro sx_rules)

lemma exec_system_atomic [exec_atomic]: "sx_atomic (exec_system pc0 inst)"
  unfolding exec_system_def exec_system0_def Let_def
  by (intro sx_rules sx_total_atomic [OF exec_csr_total] sx_total_atomic [OF exec_env_call_total])

lemma exec_opcode_atomic: "sx_atomic (exec_opcode pc0 inst)"
  unfolding exec_opcode_def no_store_def Let_def
  by (intro sx_rules sx_atomic_bind_total exec_atomic)

lemma step_atomic: "sx_atomic step"
  unfolding step_def
  by (auto intro!: sx_rules sx_atomic_bind_total [OF exec_opcode_atomic])

section \<open>What a successful step does to the bookkeeping\<close>

lemma step_Inr_cases:
  assumes "step c = (Inr t, c')"
  obtains inst next_pc mw c1 where
    "\<not> halted c" "fetch c (pc c) = Inr inst"
    "exec_opcode (pc c) inst c = (Inr (next_pc, mw), c1)"
    "c' = c1\<lparr>pc := next_pc, steps := steps c1 + 1\<rparr>"
    "t = \<lparr>tr_pc = pc c, tr_inst = inst, rd_write = trace_rd inst c1, mem_write = mw\<rparr>"
  using assms
  by (auto simp: step_def sx_simps split: if_splits sum.splits prod.splits)

lemma exec_opcode_frameD:
  "exec_opcode pc0 inst c = (x, c1) \<Longrightarrow> frame c1 = frame c"
  using exec_opcode_frame [of "frame c" pc0 inst]
  by (auto simp: sx_ensures_def dest!: spec [of _ c])

lemma step_steps: "step c = (Inr t, c') \<Longrightarrow> steps c' = steps c + 1"
  by (erule step_Inr_cases) (auto dest!: exec_opcode_frameD simp: frame_def)

end
