(* ===== verification/Emu_Run.thy ===== *)
theory Emu_Run
  imports Emu_Inv
begin

text \<open>
  \<open>RV32I.run\<close>: the loop over \<open>step\<close>, its termination, and what holds of whole runs.
\<close>

section \<open>The run loop\<close>

text \<open>
  Every step that returns adds one to \<open>steps\<close>, so \<open>max_steps - steps\<close> bounds the loop; a step
  that raises ends it.
\<close>

function run :: "int \<Rightarrow> string emu" where
  "run max_steps c =
     (if \<not> halted c \<and> steps c < max_steps then
        (case step c of
           (Inl e, c') \<Rightarrow> (Inl e, c')
         | (Inr t, c') \<Rightarrow> run max_steps c')
      else if \<not> halted c then (Inr ''step-limit'', c)
      else (Inr (case halt_reason c of None \<Rightarrow> ''halted'' | Some s \<Rightarrow> if s = '''' then ''halted'' else s), c))"
  by pat_completeness auto
termination
  by (relation "measure (\<lambda>(max_steps, c). nat (max_steps - steps c))")
    (auto dest!: step_steps [OF sym])

declare run.simps [simp del]

text \<open>Unfolding once, by the state of the loop condition.\<close>

lemma run_halted: "halted c \<Longrightarrow> run n c =
    (Inr (case halt_reason c of None \<Rightarrow> ''halted'' | Some s \<Rightarrow> if s = '''' then ''halted'' else s), c)"
  by (simp add: run.simps)

lemma run_limit: "\<not> halted c \<Longrightarrow> n \<le> steps c \<Longrightarrow> run n c = (Inr ''step-limit'', c)"
  by (simp add: run.simps)

lemma run_step: "\<not> halted c \<Longrightarrow> steps c < n \<Longrightarrow> step c = (Inr t, c') \<Longrightarrow> run n c = run n c'"
  by (simp add: run.simps [of n c])

lemma run_raise: "\<not> halted c \<Longrightarrow> steps c < n \<Longrightarrow> step c = (Inl e, c') \<Longrightarrow> run n c = (Inl e, c')"
  by (simp add: run.simps [of n c])

section \<open>Reachable states\<close>

text \<open>One completed step, as a relation; the states of a run are its reflexive closure.\<close>

inductive steps_to :: "cpu \<Rightarrow> cpu \<Rightarrow> bool" where
  steps_refl: "steps_to c c"
| steps_step: "steps_to c c1 \<Longrightarrow> step c1 = (Inr t, c2) \<Longrightarrow> steps_to c c2"

lemma steps_to_trans: "steps_to b c \<Longrightarrow> steps_to a b \<Longrightarrow> steps_to a c"
  by (induction rule: steps_to.induct) (auto intro: steps_to.intros)

lemma steps_to_first: "step a = (Inr t, b) \<Longrightarrow> steps_to b c \<Longrightarrow> steps_to a c"
  by (blast intro: steps_to_trans steps_to.intros)

lemma step_wf: "wf_cpu c \<Longrightarrow> step c = (res, c') \<Longrightarrow> wf_cpu c'"
  using step_ensures_wf by (auto simp: sx_ensures_def dest!: spec [of _ c])

lemma step_raise_same: "step c = (Inl e, c') \<Longrightarrow> c' = c"
  using step_atomic by (auto simp: sx_atomic_def dest!: spec [of _ c])

lemma step_frame:
  "step c = (Inr t, c') \<Longrightarrow> length (regs c') = length (regs c) \<and> length (mem c') = length (mem c) \<and>
     mem_base c' = mem_base c \<and> tohost_addr c' = tohost_addr c \<and> trap_on_ecall c' = trap_on_ecall c"
  by (erule step_Inr_cases) (auto dest!: exec_opcode_frameD simp: frame_def)

lemma steps_to_wf: "steps_to c d \<Longrightarrow> wf_cpu c \<Longrightarrow> wf_cpu d"
  by (induction rule: steps_to.induct) (auto intro: step_wf)

text \<open>A run ends in a state reached by completed steps: the loop's result is on its trajectory.\<close>

lemma run_reaches: "run n c = (res, d) \<Longrightarrow> steps_to c d"
proof (induction n c arbitrary: res d rule: run.induct)
  case (1 n c)
  show ?case
  proof (cases "\<not> halted c \<and> steps c < n")
    case True
    show ?thesis
    proof (cases "step c")
      case (Pair x c1)
      show ?thesis
      proof (cases x)
        case (Inl e)
        with Pair True "1.prems" have "d = c1" by (simp add: run.simps [of n c])
        with Inl Pair show ?thesis by (auto dest!: step_raise_same intro: steps_to.intros)
      next
        case (Inr t)
        with Pair True "1.prems" have "run n c1 = (res, d)" by (simp add: run.simps [of n c])
        with 1 True Pair Inr have "steps_to c1 d" by auto
        with Pair Inr show ?thesis by (auto intro: steps_to_first)
      qed
    qed
  next
    case False
    with "1.prems" show ?thesis
      by (auto simp: run.simps [of n c] intro: steps_to.intros split: if_splits)
  qed
qed

text \<open>How a run can end.\<close>

lemma run_outcome:
  assumes "run n c = (res, d)"
  shows "(\<exists>e. res = Inl e \<and> \<not> halted d \<and> fst (step d) = Inl e) \<or>
         (res = Inr ''step-limit'' \<and> \<not> halted d \<and> n \<le> steps d) \<or>
         (\<exists>s. res = Inr s \<and> halted d)"
  using assms
proof (induction n c arbitrary: res d rule: run.induct)
  case (1 n c)
  show ?case
  proof (cases "\<not> halted c \<and> steps c < n")
    case True
    obtain x c1 where st: "step c = (x, c1)" by fastforce
    show ?thesis
    proof (cases x)
      case (Inl e)
      with st True "1.prems" have "d = c" "res = Inl e"
        by (auto simp: run.simps [of n c] dest: step_raise_same)
      with st Inl True show ?thesis by simp
    next
      case (Inr t)
      with st True "1.prems" have "run n c1 = (res, d)" by (simp add: run.simps [of n c])
      then show ?thesis by (rule "1.IH" [OF True st [symmetric] Inr])
    qed
  next
    case False
    with "1.prems" show ?thesis by (auto simp: run.simps [of n c] split: if_splits)
  qed
qed

end
