(* ===== verification/Benchmarks.thy ===== *)
theory Benchmarks
  imports Asm_Image Emu_Run
begin

text \<open>
  \<open>tools/benchmarks/programs.py\<close>: the benchmark sources with the register values they must end
  with, and the harness step that assembles, loads and runs one of them on the emulator.
\<close>

section \<open>The programs\<close>

text \<open>A triple-quoted string, line by line; every line ends in a newline.\<close>

definition py_lines :: "string list \<Rightarrow> string" where
  "py_lines ls = concat (map (\<lambda>l. l @ [CHR 0x0A]) ls)"

definition MUL :: string where
  "MUL = py_lines
    ['''', ''mul:'', ''    li   a2, 0'', ''mul_loop:'', ''    beq  a1, x0, mul_done'',
     ''    add  a2, a2, a0'', ''    addi a1, a1, -1'', ''    j    mul_loop'', ''mul_done:'',
     ''    ret'']"

definition FIB :: string where
  "FIB = py_lines
    ['''', ''    li   a0, 0'', ''    li   a1, 1'', ''    li   a2, 20'', ''    li   a3, 0'',
     ''loop:'', ''    beq  a3, a2, done'', ''    add  a4, a0, a1'', ''    mv   a0, a1'',
     ''    mv   a1, a4'', ''    addi a3, a3, 1'', ''    j    loop'', ''done:'', ''    ecall'']"

definition GCD_SRC :: string where
  "GCD_SRC = py_lines
    ['''', ''    li   a0, 1071'', ''    li   a1, 462'', ''gloop:'', ''    beq  a0, a1, gdone'',
     ''    blt  a0, a1, aless'', ''    sub  a0, a0, a1'', ''    j    gloop'', ''aless:'',
     ''    sub  a1, a1, a0'', ''    j    gloop'', ''gdone:'', ''    ecall'']"

definition FACTORIAL :: string where
  "FACTORIAL = py_lines
    ['''', ''    li   s0, 8'', ''    li   s1, 1'', ''floop:'', ''    beq  s0, x0, fdone'',
     ''    mv   a0, s1'', ''    mv   a1, s0'', ''    call mul'', ''    mv   s1, a2'',
     ''    addi s0, s0, -1'', ''    j    floop'', ''fdone:'', ''    mv   a0, s1'', ''    ecall''] @ MUL"

definition SORT :: string where
  "SORT = py_lines
    ['''', ''    la   s0, arr'', ''    li   s1, 8'', ''    addi s2, s1, -1'', ''outer:'',
     ''    beq  s2, x0, sorted'', ''    li   s3, 0'', ''    mv   s4, s2'', ''inner:'',
     ''    beq  s4, x0, next_pass'', ''    slli s5, s3, 2'', ''    add  s6, s0, s5'',
     ''    lw   s7, 0(s6)'', ''    lw   s8, 4(s6)'', ''    bge  s8, s7, no_swap'',
     ''    sw   s8, 0(s6)'', ''    sw   s7, 4(s6)'', ''no_swap:'', ''    addi s3, s3, 1'',
     ''    addi s4, s4, -1'', ''    j    inner'', ''next_pass:'', ''    addi s2, s2, -1'',
     ''    j    outer'', ''sorted:'', ''    la   s0, arr'', ''    lw   a0, 0(s0)'',
     ''    lw   a1, 28(s0)'', ''    ecall'', ''.data'', ''arr:'',
     ''.word 5, 2, 8, 1, 9, 3, 7, 4'']"

definition MATVEC :: string where
  "MATVEC = py_lines
    ['''', ''    la   s0, mat'', ''    la   s2, res'', ''    li   s3, 0'', ''    li   s4, 3'',
     ''irow:'', ''    beq  s3, s4, mvdone'', ''    la   s1, vec'', ''    li   s5, 0'',
     ''    li   s6, 0'', ''icol:'', ''    beq  s6, s4, storerow'', ''    lw   a0, 0(s0)'',
     ''    lw   a1, 0(s1)'', ''    call mul'', ''    add  s5, s5, a2'', ''    addi s0, s0, 4'',
     ''    addi s1, s1, 4'', ''    addi s6, s6, 1'', ''    j    icol'', ''storerow:'',
     ''    sw   s5, 0(s2)'', ''    addi s2, s2, 4'', ''    addi s3, s3, 1'', ''    j    irow'',
     ''mvdone:'', ''    la   s2, res'', ''    lw   a0, 0(s2)'', ''    lw   a1, 4(s2)'',
     ''    lw   a3, 8(s2)'', ''    ecall''] @ MUL @
   py_lines
    ['''', ''.data'', ''mat:'', ''.word 1, 2, 3, 4, 5, 6, 7, 8, 9'', ''vec:'',
     ''.word 1, 1, 1'', ''res:'', ''.word 0, 0, 0'']"

definition BENCHMARKS :: "(string \<times> string \<times> (nat \<times> int) list) list" where
  "BENCHMARKS =
    [(''fib'', FIB, [(10, 6765)]),
     (''gcd'', GCD_SRC, [(10, 21)]),
     (''factorial'', FACTORIAL, [(10, 40320)]),
     (''sort'', SORT, [(10, 1), (11, 9)]),
     (''matvec'', MATVEC, [(10, 6), (11, 15), (13, 24)])]"

section \<open>Running one\<close>

text \<open>\<open>_emu\<close> of the harness, with the size of the memory as an argument.\<close>

definition emu_run :: "int \<Rightarrow> int \<Rightarrow> int list \<Rightarrow> emu_exn + string \<times> cpu" where
  "emu_run mem_size max_steps words =
     bindE (RV32I_init mem_size 0 0x80001000 False) (\<lambda>c0.
     bindE (load_program (words_bytes words) (Some 0) (c0\<lparr>pc := 0\<rparr>)) (\<lambda>c.
     case run max_steps c of (Inl e, c') \<Rightarrow> Inl e | (Inr reason, c') \<Rightarrow> Inr (reason, c')))"

definition meets :: "int \<Rightarrow> string \<Rightarrow> (nat \<times> int) list \<Rightarrow> bool" where
  "meets mem_size source expect =
     (case assemble source 0 None of
        Inl _ \<Rightarrow> False
      | Inr words \<Rightarrow>
          (case emu_run mem_size 500000 words of
             Inl _ \<Rightarrow> False
           | Inr (reason, c) \<Rightarrow> reason = ''ecall'' \<and> list_all (\<lambda>(i, v). regs c ! i = v) expect))"

end
