(* ===== verification/Asm_Placement.thy ===== *)
theory Asm_Placement
  imports Asm_Image
begin

text \<open>
  The two passes agree: pass 2 emits exactly the bytes pass 1 reserved, the lines of a section
  follow each other without gap or overlap, and the default data base lies behind the text.
\<close>

section \<open>Pass 2 emits what pass 1 reserved\<close>

text \<open>One word for every instruction but the two-word pseudo-instructions.\<close>

named_theorems enc_length \<open>how many words an encoder returns\<close>

lemma enc_length_real [enc_length]:
  "enc_r ln op f = Inr ws \<Longrightarrow> length ws = 1"
  "enc_i_alu ln syms op f3 = Inr ws \<Longrightarrow> length ws = 1"
  "enc_shift ln syms op = Inr ws \<Longrightarrow> length ws = 1"
  "enc_load ln syms op f3 = Inr ws \<Longrightarrow> length ws = 1"
  "enc_store ln syms op f3 = Inr ws \<Longrightarrow> length ws = 1"
  "enc_branch ln syms op f3 = Inr ws \<Longrightarrow> length ws = 1"
  "enc_upper ln syms op = Inr ws \<Longrightarrow> length ws = 1"
  by (auto simp: enc_r_def enc_i_alu_def enc_shift_def enc_load_def enc_store_def enc_branch_def
      enc_upper_def asm_fail_def bindE_Inr_iff Let_def split: if_splits)

lemma enc_length_jumps [enc_length]:
  "enc_jal ln syms = Inr ws \<Longrightarrow> length ws = 1"
  "enc_jalr ln syms = Inr ws \<Longrightarrow> length ws = 1"
  "enc_two_regs ln op mk = Inr ws \<Longrightarrow> length ws = 1"
  "enc_j ln syms = Inr ws \<Longrightarrow> length ws = 1"
  "enc_jr ln = Inr ws \<Longrightarrow> length ws = 1"
  "enc_ret ln = Inr ws \<Longrightarrow> length ws = 1"
  "enc_branch_zero ln syms op f3 = Inr ws \<Longrightarrow> length ws = 1"
  "enc_fixed op = Some ws \<Longrightarrow> length ws = 1"
  by (auto simp: enc_jal_def enc_jalr_def enc_two_regs_def enc_j_def enc_jr_def enc_ret_def
      enc_branch_zero_def enc_fixed_def asm_fail_def bindE_Inr_iff Let_def split: if_splits prod.splits)

lemma enc_length_two [enc_length]:
  "enc_li ln syms = Inr ws \<Longrightarrow> length ws = 2"
  "enc_la ln syms = Inr ws \<Longrightarrow> length ws = 2"
  "enc_call ln syms = Inr ws \<Longrightarrow> length ws = 2"
  by (auto simp: enc_li_def enc_la_def enc_call_def li_words_def la_words_def call_words_def
      bindE_Inr_iff case_prod_beta' Let_def split: if_splits)

lemma instruction_size_cases:
  "instruction_size op = (if op = ''li'' \<or> op = ''la'' \<or> op = ''call'' then 8 else 4)"
  by (simp add: instruction_size_def TWO_INSN_PSEUDOS_def)

lemma enc_pseudo_length:
  "enc_pseudo ln syms op = Inr ws \<Longrightarrow> 4 * int (length ws) = instruction_size op"
  unfolding enc_pseudo_def Let_def instruction_size_cases
  by (auto simp: asm_fail_def dest: enc_length split: if_splits)

lemma map_of_keys: "list_all (\<lambda>(k, v). P k) xs \<Longrightarrow> map_of xs k = Some v \<Longrightarrow> P k"
  by (auto simp: list_all_iff dest: map_of_SomeD)

named_theorems one_word \<open>mnemonics of one word\<close>

lemma tables_one_word [one_word]:
  "map_of R_TABLE op = Some f \<Longrightarrow> instruction_size op = 4"
  "map_of I_ALU_TABLE op = Some f3 \<Longrightarrow> instruction_size op = 4"
  "map_of LOAD_TABLE op = Some f3 \<Longrightarrow> instruction_size op = 4"
  "map_of STORE_TABLE op = Some f3 \<Longrightarrow> instruction_size op = 4"
  "map_of BRANCH_TABLE op = Some f3 \<Longrightarrow> instruction_size op = 4"
  by (erule map_of_keys [rotated], code_simp)+

lemma enc_fixed_size: "enc_fixed op = Some ws \<Longrightarrow> instruction_size op = 4"
  by (auto simp: enc_fixed_def instruction_size_cases split: if_splits)

lemma ops_one_word [one_word]:
  "op = ''slli'' \<or> op = ''srli'' \<or> op = ''srai'' \<Longrightarrow> instruction_size op = 4"
  "op = ''jal'' \<Longrightarrow> instruction_size op = 4" "op = ''jalr'' \<Longrightarrow> instruction_size op = 4"
  "op = ''lui'' \<or> op = ''auipc'' \<Longrightarrow> instruction_size op = 4"
  by (auto simp: instruction_size_cases)

text \<open>Walking down a chain of dispatches without keeping the failed tests.\<close>

lemma dispatch_optionE:
  assumes "(case x of None \<Rightarrow> a | Some y \<Rightarrow> f y) = Inr w"
  obtains y where "x = Some y" "f y = Inr w" | "a = Inr w"
  using assms by (cases x) auto

lemma dispatch_ifE:
  assumes "(if b then p else q) = Inr w"
  obtains "b" "p = Inr w" | "q = Inr w"
  using assms by (cases b) auto

lemma enc_insn_length:
  assumes "enc_insn ln syms op = Inr ws"
  shows "4 * int (length ws) = instruction_size op"
  using assms unfolding enc_insn_def
  by (elim dispatch_optionE dispatch_ifE)
    (erule enc_pseudo_length | (drule one_word, drule enc_length, simp)
      | (frule enc_fixed_size, drule enc_length, simp))+

text \<open>What a line puts into the image, as the number of bytes.\<close>

definition emitted :: "Line \<Rightarrow> int list \<Rightarrow> int" where
  "emitted ln out = (if ln_op ln = Some ''.byte'' then 1 else 4) * int (length out)"

lemma encode_line_emitted:
  assumes "encode_line ln syms = Inr out"
  shows "emitted ln out =
    (case ln_op ln of
       None \<Rightarrow> 0
     | Some op \<Rightarrow>
         if op = ''.text'' \<or> op = ''.data'' \<or> op = ''.align'' then 0
         else if op = ''.word'' then 4 * int (length (ln_args ln))
         else if op = ''.byte'' then int (length (ln_args ln))
         else instruction_size op)"
proof (cases "ln_op ln")
  case (Some op)
  with assms enc_insn_length [of ln syms op out] show ?thesis
    by (auto simp: encode_line_def emitted_def enc_data_def dest!: mapE_length)
qed (use assms in \<open>simp add: encode_line_def emitted_def\<close>)

section \<open>The lines pass 1 places\<close>

text \<open>The lines of one section, back to back from a start to an end address.\<close>

fun chain :: "int \<Rightarrow> Line list \<Rightarrow> int \<Rightarrow> bool" where
  "chain a [] b = (a = b)"
| "chain a (ln # lns) b = (ln_pc ln = a \<and> 0 \<le> ln_size ln \<and> chain (a + ln_size ln) lns b)"

definition in_section :: "string \<Rightarrow> Line list \<Rightarrow> Line list" where
  "in_section sec lns = filter (\<lambda>ln. ln_section ln = sec) lns"

lemma align_up_ge: "x \<le> align_up x (push_bit n 1)"
proof -
  have "(x + 2 ^ n - 1) mod 2 ^ n \<le> 2 ^ n - 1"
    using pos_mod_bound [of "2 ^ n" "x + 2 ^ n - 1"] by simp
  then show ?thesis unfolding align_up_def push_bit_of_1 and_not_mask by linarith
qed

lemma instruction_size_pos: "0 < instruction_size op"
  by (simp add: instruction_size_cases)

text \<open>What placing a line does to the counters, and what it keeps of the line.\<close>

lemma p1_op_step:
  assumes "p1_op ln s = Inr (ln', s')"
  shows "ln_op ln' = ln_op ln" "ln_args ln' = ln_args ln" "0 \<le> ln_size ln'"
    and "p1_pc s' = (p1_pc s)(ln_section ln' := p1_pc s (ln_section ln') + ln_size ln')"
    and "ln_pc ln' = p1_pc s (ln_section ln')" "ln_section ln' = p1_current s'"
    and "p1_current s' = p1_current s \<or> p1_current s' = ''text'' \<or> p1_current s' = ''data''"
    and "p1_syms s' = p1_syms s"
  using assms instruction_size_pos align_up_ge
  by (auto simp: p1_op_def p1_place_def p1_switch_def p1_fail_def Let_def bindE_Inr_iff less_imp_le
      split: option.splits if_splits)

lemma p1_label_step:
  "p1_label ln s = Inr s' \<Longrightarrow> p1_pc s' = p1_pc s \<and> p1_current s' = p1_current s"
  by (auto simp: p1_label_def p1_fail_def split: option.splits)

lemma p1_line_step:
  assumes "p1_line ln s = Inr (ln', s')"
  shows "ln_op ln' = ln_op ln" "ln_args ln' = ln_args ln" "0 \<le> ln_size ln'"
    and "p1_pc s' = (p1_pc s)(ln_section ln' := p1_pc s (ln_section ln') + ln_size ln')"
    and "ln_pc ln' = p1_pc s (ln_section ln')" "ln_section ln' = p1_current s'"
    and "p1_current s' = p1_current s \<or> p1_current s' = ''text'' \<or> p1_current s' = ''data''"
proof -
  obtain s1 where l: "p1_label ln s = Inr s1" and o: "p1_op ln s1 = Inr (ln', s')"
    using assms by (auto simp: p1_line_def bindE_Inr_iff)
  note same = p1_label_step [OF l]
  show "ln_op ln' = ln_op ln" "ln_args ln' = ln_args ln" "0 \<le> ln_size ln'"
    and "p1_pc s' = (p1_pc s)(ln_section ln' := p1_pc s (ln_section ln') + ln_size ln')"
    and "ln_pc ln' = p1_pc s (ln_section ln')" "ln_section ln' = p1_current s'"
    and "p1_current s' = p1_current s \<or> p1_current s' = ''text'' \<or> p1_current s' = ''data''"
    using p1_op_step [OF o] same by simp_all
qed

lemma p1_lines_Cons:
  assumes "p1_lines (ln # lns) s = Inr (out, s'')"
  obtains ln' s' lns' where "p1_line ln s = Inr (ln', s')" "p1_lines lns s' = Inr (lns', s'')"
    "out = ln' # lns'"
  using assms by (auto simp: bindE_Inr_iff)

lemma p1_lines_chain:
  "p1_lines lns s = Inr (lns', s') \<Longrightarrow> chain (p1_pc s sec) (in_section sec lns') (p1_pc s' sec)"
proof (induction lns arbitrary: s lns')
  case (Cons ln lns)
  obtain ln' s1 rest where l: "p1_line ln s = Inr (ln', s1)" and r: "p1_lines lns s1 = Inr (rest, s')"
    and out: "lns' = ln' # rest"
    using Cons.prems by (rule p1_lines_Cons)
  show ?case
    using Cons.IH [OF r] p1_line_step [OF l] by (auto simp: out in_section_def)
qed (simp add: in_section_def)

text \<open>There are two sections.\<close>

lemma p1_lines_sections:
  "p1_lines lns s = Inr (lns', s') \<Longrightarrow> p1_current s \<in> {''text'', ''data''} \<Longrightarrow>
     ln \<in> set lns' \<Longrightarrow> ln_section ln \<in> {''text'', ''data''}"
proof (induction lns arbitrary: s lns')
  case (Cons l lns)
  obtain l' s1 rest where l: "p1_line l s = Inr (l', s1)" and r: "p1_lines lns s1 = Inr (rest, s')"
    and out: "lns' = l' # rest"
    using Cons.prems(1) by (rule p1_lines_Cons)
  have "p1_current s1 \<in> {''text'', ''data''}"
    using p1_line_step [OF l] Cons.prems by auto
  then show ?case
    using Cons.IH [OF r] Cons.prems p1_line_step [OF l] by (auto simp: out)
qed simp

text \<open>Pass 1 keeps mnemonics and operands, and reserves what pass 2 will emit.\<close>

definition reserved_enough :: "Line \<Rightarrow> bool" where
  "reserved_enough ln \<longleftrightarrow> (\<forall>syms out. encode_line ln syms = Inr out \<longrightarrow>
     emitted ln out \<le> ln_size ln \<and> (ln_op ln \<noteq> Some ''.align'' \<longrightarrow> emitted ln out = ln_size ln))"

lemma p1_op_size:
  assumes "p1_op ln s = Inr (ln', s')"
  shows "reserved_enough ln'"
proof -
  note keep = p1_op_step [OF assms]
  show ?thesis
    using assms keep(3) encode_line_emitted [of ln'] unfolding reserved_enough_def keep(1,2)
    by (auto simp: p1_op_def p1_place_def p1_switch_def p1_fail_def Let_def bindE_Inr_iff
        split: option.splits if_splits)
qed

lemma p1_lines_size: "p1_lines lns s = Inr (lns', s') \<Longrightarrow> ln \<in> set lns' \<Longrightarrow> reserved_enough ln"
proof (induction lns arbitrary: s lns')
  case (Cons l lns)
  obtain l' s1 rest where l: "p1_line l s = Inr (l', s1)" and r: "p1_lines lns s1 = Inr (rest, s')"
    and out: "lns' = l' # rest"
    using Cons.prems(1) by (rule p1_lines_Cons)
  have "reserved_enough l'"
    using l by (auto simp: p1_line_def bindE_Inr_iff dest: p1_op_size)
  then show ?case
    using Cons.IH [OF r] Cons.prems(2) by (auto simp: out)
qed simp

end
