(* ===== verification/Codec.thy ===== *)
theory Codec
  imports Asm_Pack Emu_Inv
begin

text \<open>
  The contract between \<open>assemble.py\<close>'s packers and \<open>rv32i_emu.py\<close>'s decoders: every field the
  emulator extracts from a packed word is the field that was packed, and every immediate
  format round-trips on the values its fitter accepts.
\<close>

section \<open>Register, function and opcode fields\<close>

lemmas field_defs =
  inst_opcode_def inst_rd_def inst_funct3_def inst_rs1_def inst_rs2_def inst_funct7_def
  inst_funct12_def

named_theorems packed_fields \<open>fields of packed words\<close>

lemma r_type_fields [packed_fields]:
  "inst_opcode (r_type opcode rd f3 rs1 rs2 f7) = take_bit 7 opcode"
  "inst_rd (r_type opcode rd f3 rs1 rs2 f7) = take_bit 5 rd"
  "inst_funct3 (r_type opcode rd f3 rs1 rs2 f7) = take_bit 3 f3"
  "inst_rs1 (r_type opcode rd f3 rs1 rs2 f7) = take_bit 5 rs1"
  "inst_rs2 (r_type opcode rd f3 rs1 rs2 f7) = take_bit 5 rs2"
  "inst_funct7 (r_type opcode rd f3 rs1 rs2 f7) = take_bit 7 f7"
  unfolding field_defs r_type_def mask_simps
  by (rule bit_eqI, (simp only: pack_bits comp_def)[1], (auto)[1])+

lemma i_type_fields [packed_fields]:
  "inst_opcode (i_type opcode rd f3 rs1 imm) = take_bit 7 opcode"
  "inst_rd (i_type opcode rd f3 rs1 imm) = take_bit 5 rd"
  "inst_funct3 (i_type opcode rd f3 rs1 imm) = take_bit 3 f3"
  "inst_rs1 (i_type opcode rd f3 rs1 imm) = take_bit 5 rs1"
  "inst_funct12 (i_type opcode rd f3 rs1 imm) = take_bit 12 imm"
  unfolding field_defs i_type_def mask_simps
  by (rule bit_eqI, (simp only: pack_bits comp_def)[1], (auto)[1])+

lemma s_type_fields [packed_fields]:
  "inst_opcode (s_type opcode f3 rs1 rs2 imm) = take_bit 7 opcode"
  "inst_funct3 (s_type opcode f3 rs1 rs2 imm) = take_bit 3 f3"
  "inst_rs1 (s_type opcode f3 rs1 rs2 imm) = take_bit 5 rs1"
  "inst_rs2 (s_type opcode f3 rs1 rs2 imm) = take_bit 5 rs2"
  unfolding field_defs s_type_def mask_simps Let_def
  by (rule bit_eqI, (simp only: pack_bits comp_def)[1], (auto)[1])+

lemma b_type_fields [packed_fields]:
  "inst_opcode (b_type opcode f3 rs1 rs2 imm) = take_bit 7 opcode"
  "inst_funct3 (b_type opcode f3 rs1 rs2 imm) = take_bit 3 f3"
  "inst_rs1 (b_type opcode f3 rs1 rs2 imm) = take_bit 5 rs1"
  "inst_rs2 (b_type opcode f3 rs1 rs2 imm) = take_bit 5 rs2"
  unfolding field_defs b_type_def mask_simps Let_def
  by (rule bit_eqI, (simp only: pack_bits comp_def)[1], (auto)[1])+

lemma u_type_fields [packed_fields]:
  "inst_opcode (u_type opcode rd imm) = take_bit 7 opcode"
  "inst_rd (u_type opcode rd imm) = take_bit 5 rd"
  unfolding field_defs u_type_def mask_simps
  by (rule bit_eqI, (simp only: pack_bits comp_def)[1], (auto)[1])+

lemma j_type_fields [packed_fields]:
  "inst_opcode (j_type opcode rd imm) = take_bit 7 opcode"
  "inst_rd (j_type opcode rd imm) = take_bit 5 rd"
  unfolding field_defs j_type_def mask_simps Let_def
  by (rule bit_eqI, (simp only: pack_bits comp_def)[1], (auto)[1])+

section \<open>Immediates\<close>

lemma imm_i_i_type [packed_fields]: "imm_i (i_type opcode rd f3 rs1 imm) = signed_take_bit 11 imm"
  unfolding imm_i_bits i_type_def mask_simps
  by (rule bit_eqI) (auto simp: pack_bits)

lemma imm_s_s_type [packed_fields]: "imm_s (s_type opcode f3 rs1 rs2 imm) = signed_take_bit 11 imm"
  unfolding imm_s_bits s_type_def mask_simps Let_def
  by (rule bit_eqI) (auto simp: pack_bits)

lemma imm_u_u_type [packed_fields]: "imm_u (u_type opcode rd imm) = push_bit 12 (take_bit 20 imm)"
  unfolding imm_u_bits u_type_def mask_simps
  by (rule bit_eqI) (auto simp: pack_bits)

text \<open>
  The B and J formats scatter the offset and drop its bit 0: an even offset comes back, an odd
  one loses its last bit.
\<close>

lemma b_type_imm_fields:
  "take_bit 1 (drop_bit 31 (b_type opcode f3 rs1 rs2 imm)) = take_bit 1 (drop_bit 12 imm)"
  "take_bit 6 (drop_bit 25 (b_type opcode f3 rs1 rs2 imm)) = take_bit 6 (drop_bit 5 imm)"
  "take_bit 4 (drop_bit 8 (b_type opcode f3 rs1 rs2 imm)) = take_bit 4 (drop_bit 1 imm)"
  "take_bit 1 (drop_bit 7 (b_type opcode f3 rs1 rs2 imm)) = take_bit 1 (drop_bit 11 imm)"
  unfolding b_type_def mask_simps Let_def
  by (rule bit_eqI, (simp only: pack_bits comp_def)[1], (auto)[1])+

lemma j_type_imm_fields:
  "take_bit 1 (drop_bit 31 (j_type opcode rd imm)) = take_bit 1 (drop_bit 20 imm)"
  "take_bit 10 (drop_bit 21 (j_type opcode rd imm)) = take_bit 10 (drop_bit 1 imm)"
  "take_bit 1 (drop_bit 20 (j_type opcode rd imm)) = take_bit 1 (drop_bit 11 imm)"
  "take_bit 8 (drop_bit 12 (j_type opcode rd imm)) = take_bit 8 (drop_bit 12 imm)"
  unfolding j_type_def mask_simps Let_def
  by (rule bit_eqI, (simp only: pack_bits comp_def)[1], (auto)[1])+

lemma bit_slice: "bit (push_bit k (take_bit m (drop_bit k (x :: int)))) n \<longleftrightarrow> k \<le> n \<and> n < k + m \<and> bit x n"
  by (auto simp: pack_bits)

lemma b_slices:
  "push_bit 12 (take_bit 1 (drop_bit 12 imm)) OR push_bit 5 (take_bit 6 (drop_bit 5 imm))
     OR push_bit 1 (take_bit 4 (drop_bit 1 imm)) OR push_bit 11 (take_bit 1 (drop_bit 11 imm))
   = push_bit 1 (take_bit 12 (drop_bit 1 (imm :: int)))"
  by (rule bit_eqI, simp only: bit_or_iff bit_slice) auto

lemma j_slices:
  "push_bit 20 (take_bit 1 (drop_bit 20 imm)) OR push_bit 1 (take_bit 10 (drop_bit 1 imm))
     OR push_bit 11 (take_bit 1 (drop_bit 11 imm)) OR push_bit 12 (take_bit 8 (drop_bit 12 imm))
   = push_bit 1 (take_bit 20 (drop_bit 1 (imm :: int)))"
  by (rule bit_eqI, simp only: bit_or_iff bit_slice) auto

lemma clear_bit0: "push_bit 1 (drop_bit 1 (x :: int)) = x - x mod 2"
  by (simp add: push_bit_eq_mult drop_bit_eq_div minus_mod_eq_div_mult)

lemma signed_slice:
  "signed_take_bit (Suc n) (push_bit 1 (take_bit (Suc n) (drop_bit 1 x))) =
     signed_take_bit (Suc n) (x - x mod 2 :: int)"
proof -
  have "signed_take_bit (Suc n) (push_bit 1 (take_bit (Suc n) (drop_bit 1 x))) =
      signed_take_bit (Suc n) (push_bit 1 (drop_bit 1 x))"
    by (rule bit_eqI, simp only: pack_bits comp_def, auto)
  then show ?thesis by (simp only: clear_bit0)
qed

lemma imm_b_b_type [packed_fields]:
  "imm_b (b_type opcode f3 rs1 rs2 imm) = signed_take_bit 12 (imm - imm mod 2)"
  unfolding imm_b_bits b_type_imm_fields b_slices using signed_slice [of 11 imm] by simp

lemma imm_j_j_type [packed_fields]:
  "imm_j (j_type opcode rd imm) = signed_take_bit 20 (imm - imm mod 2)"
  unfolding imm_j_bits j_type_imm_fields j_slices using signed_slice [of 19 imm] by simp

section \<open>The contract of an immediate format\<close>

text \<open>
  A format encodes the immediates it accepts as 32-bit words and decodes them back. Two words
  of one instruction then differ whenever their immediates do: no two branch targets share a word.
\<close>

locale imm_codec =
  fixes enc :: "int \<Rightarrow> int" and dec :: "int \<Rightarrow> int" and accepts :: "int \<Rightarrow> bool"
  assumes dec_enc: "accepts v \<Longrightarrow> dec (enc v) = v"
    and enc_word: "0 \<le> enc v \<and> enc v < 2 ^ 32"
begin

lemma enc_inj: "accepts v \<Longrightarrow> accepts w \<Longrightarrow> enc v = enc w \<longleftrightarrow> v = w"
  by (metis dec_enc)

lemma enc_image: "dec ` enc ` {v. accepts v} = {v. accepts v}"
  by (auto simp: dec_enc image_iff)

lemma enc_u32: "u32 (enc v) = enc v"
  using enc_word by (simp add: u32_id)

end

text \<open>
  The encoder of each format takes the immediate through its fitter's mask first, as
  \<open>encode_line\<close> does.
\<close>

interpretation i_fmt: imm_codec "\<lambda>v. i_type opcode rd f3 rs1 (take_bit 12 v)" imm_i
    "\<lambda>v. - 2048 \<le> v \<and> v < 2048" for opcode rd f3 rs1
  by unfold_locales
    (use packed_range in \<open>simp_all add: packed_fields signed_take_bit_take_bit signed_take_bit_id\<close>)

interpretation s_fmt: imm_codec "\<lambda>v. s_type opcode f3 rs1 rs2 (take_bit 12 v)" imm_s
    "\<lambda>v. - 2048 \<le> v \<and> v < 2048" for opcode f3 rs1 rs2
  by unfold_locales
    (use packed_range in \<open>simp_all add: packed_fields signed_take_bit_take_bit signed_take_bit_id\<close>)

lemma signed_even_take_bit:
  assumes "even v" "- (2 ^ n) \<le> v" "v < 2 ^ n"
  shows "signed_take_bit n (take_bit (Suc n) v - take_bit (Suc n) v mod 2) = (v :: int)"
proof -
  have "take_bit (Suc n) v mod 2 = 0"
    using assms(1) by (simp add: take_bit_eq_mod mod_mod_cancel)
  then show ?thesis
    using assms by (simp add: signed_take_bit_take_bit signed_take_bit_id)
qed

interpretation b_fmt: imm_codec "\<lambda>v. b_type opcode f3 rs1 rs2 (take_bit 13 v)" imm_b
    "\<lambda>v. even v \<and> - 4096 \<le> v \<and> v < 4096" for opcode f3 rs1 rs2
  by unfold_locales
    (use packed_range signed_even_take_bit [where n = 12] in \<open>simp_all add: packed_fields\<close>)

interpretation j_fmt: imm_codec "\<lambda>v. j_type opcode rd (take_bit 21 v)" imm_j
    "\<lambda>v. even v \<and> - 1048576 \<le> v \<and> v < 1048576" for opcode rd
  by unfold_locales
    (use packed_range signed_even_take_bit [where n = 20] in \<open>simp_all add: packed_fields\<close>)

interpretation u_fmt: imm_codec "\<lambda>v. u_type opcode rd (drop_bit 12 v)" imm_u
    "\<lambda>v. 0 \<le> v \<and> v < 2 ^ 32 \<and> 4096 dvd v" for opcode rd
proof unfold_locales
  fix v :: int
  assume v: "0 \<le> v \<and> v < 2 ^ 32 \<and> 4096 dvd v"
  then have "v div 4096 < 2 ^ 20" by (auto elim!: dvdE)
  then have "take_bit 20 (v div 4096) = v div 4096"
    using v by (auto simp: take_bit_int_eq_self)
  with v show "imm_u (u_type opcode rd (drop_bit 12 v)) = v"
    by (simp add: packed_fields drop_bit_eq_div push_bit_eq_mult)
qed (use packed_range in simp)

end
