(* ===== verification/Rtl_Units.thy ===== *)
theory Rtl_Units
  imports Emu_Inv
begin

text \<open>
  The combinational units of the single-cycle core, over 32-bit words: \<open>rtl/alu.sv\<close>,
  \<open>rtl/branch_unit.sv\<close>, \<open>rtl/imm_gen.sv\<close>, and the part of \<open>rtl/decoder.sv\<close> that selects the
  ALU operation and the branch kind. They are the reference the emulator's integer arithmetic
  is compared with: the project runs both in lockstep.
\<close>

type_synonym u32w = "32 word"

section \<open>\<open>rtl/alu.sv\<close>\<close>

fun rtl_alu :: "AluOp \<Rightarrow> u32w \<Rightarrow> u32w \<Rightarrow> u32w" where
  "rtl_alu ALU_ADD a b = a + b"
| "rtl_alu ALU_SUB a b = a - b"
| "rtl_alu ALU_AND a b = a AND b"
| "rtl_alu ALU_OR a b = a OR b"
| "rtl_alu ALU_XOR a b = a XOR b"
| "rtl_alu ALU_SLL a b = push_bit (unat (take_bit 5 b)) a"
| "rtl_alu ALU_SRL a b = drop_bit (unat (take_bit 5 b)) a"
| "rtl_alu ALU_SRA a b = signed_drop_bit (unat (take_bit 5 b)) a"
| "rtl_alu ALU_SLT a b = (if a <s b then 1 else 0)"
| "rtl_alu ALU_SLTU a b = (if a < b then 1 else 0)"
| "rtl_alu ALU_PASS_B a b = b"

section \<open>\<open>rtl/branch_unit.sv\<close>\<close>

fun rtl_taken :: "BranchOp \<Rightarrow> u32w \<Rightarrow> u32w \<Rightarrow> bool" where
  "rtl_taken BR_NONE a b = False"
| "rtl_taken BR_EQ a b = (a = b)"
| "rtl_taken BR_NE a b = (a \<noteq> b)"
| "rtl_taken BR_LT a b = (a <s b)"
| "rtl_taken BR_GE a b = (b \<le>s a)"
| "rtl_taken BR_LTU a b = (a < b)"
| "rtl_taken BR_GEU a b = (b \<le> a)"
| "rtl_taken BR_JUMP a b = True"

section \<open>The selections of \<open>rtl/decoder.sv\<close>\<close>

text \<open>The \<open>OP_REG\<close> and \<open>OP_IMM\<close> cases; \<open>f3\<close> is a 3-bit field, so every value has a case.\<close>

definition rtl_alu_op_reg :: "int \<Rightarrow> int \<Rightarrow> AluOp" where
  "rtl_alu_op_reg f3 f7 =
     (if f3 = F3Op_value F3_ADD_SUB then (if f7 = F7_ALT then ALU_SUB else ALU_ADD)
      else if f3 = F3Op_value F3_SLL then ALU_SLL
      else if f3 = F3Op_value F3_SLT then ALU_SLT
      else if f3 = F3Op_value F3_SLTU then ALU_SLTU
      else if f3 = F3Op_value F3_XOR then ALU_XOR
      else if f3 = F3Op_value F3_SR then (if f7 = F7_ALT then ALU_SRA else ALU_SRL)
      else if f3 = F3Op_value F3_OR then ALU_OR
      else ALU_AND)"

definition rtl_alu_op_imm :: "int \<Rightarrow> int \<Rightarrow> AluOp" where
  "rtl_alu_op_imm f3 f7 =
     (if f3 = F3Op_value F3_ADD_SUB then ALU_ADD
      else if f3 = F3Op_value F3_SLL then ALU_SLL
      else if f3 = F3Op_value F3_SLT then ALU_SLT
      else if f3 = F3Op_value F3_SLTU then ALU_SLTU
      else if f3 = F3Op_value F3_XOR then ALU_XOR
      else if f3 = F3Op_value F3_SR then (if f7 = F7_ALT then ALU_SRA else ALU_SRL)
      else if f3 = F3Op_value F3_OR then ALU_OR
      else ALU_AND)"

text \<open>The \<open>OP_BRANCH\<close> case; \<open>None\<close> is \<open>illegal\<close>.\<close>

definition rtl_branch_op :: "int \<Rightarrow> BranchOp option" where
  "rtl_branch_op f3 =
     (if f3 = F3Branch_value F3_BEQ then Some BR_EQ
      else if f3 = F3Branch_value F3_BNE then Some BR_NE
      else if f3 = F3Branch_value F3_BLT then Some BR_LT
      else if f3 = F3Branch_value F3_BGE then Some BR_GE
      else if f3 = F3Branch_value F3_BLTU then Some BR_LTU
      else if f3 = F3Branch_value F3_BGEU then Some BR_GEU
      else None)"

section \<open>\<open>rtl/imm_gen.sv\<close>\<close>

text \<open>\<open>w[hi:lo]\<close> and the replication \<open>{n{b}}\<close>, placed at a bit position of the result.\<close>

definition sv_slice :: "nat \<Rightarrow> nat \<Rightarrow> u32w \<Rightarrow> u32w" where
  "sv_slice hi lo w = take_bit (hi - lo + 1) (drop_bit lo w)"

definition sv_rep :: "nat \<Rightarrow> bool \<Rightarrow> u32w" where
  "sv_rep n b = (if b then mask n else 0)"

definition rtl_imm_i :: "u32w \<Rightarrow> u32w" where
  "rtl_imm_i inst = push_bit 12 (sv_rep 20 (bit inst 31)) OR sv_slice 31 20 inst"

definition rtl_imm_s :: "u32w \<Rightarrow> u32w" where
  "rtl_imm_s inst =
     push_bit 12 (sv_rep 20 (bit inst 31)) OR push_bit 5 (sv_slice 31 25 inst) OR sv_slice 11 7 inst"

definition rtl_imm_b :: "u32w \<Rightarrow> u32w" where
  "rtl_imm_b inst =
     push_bit 13 (sv_rep 19 (bit inst 31)) OR push_bit 12 (sv_slice 31 31 inst)
     OR push_bit 11 (sv_slice 7 7 inst) OR push_bit 5 (sv_slice 30 25 inst)
     OR push_bit 1 (sv_slice 11 8 inst)"

definition rtl_imm_u :: "u32w \<Rightarrow> u32w" where
  "rtl_imm_u inst = push_bit 12 (sv_slice 31 12 inst)"

definition rtl_imm_j :: "u32w \<Rightarrow> u32w" where
  "rtl_imm_j inst =
     push_bit 21 (sv_rep 11 (bit inst 31)) OR push_bit 20 (sv_slice 31 31 inst)
     OR push_bit 12 (sv_slice 19 12 inst) OR push_bit 11 (sv_slice 20 20 inst)
     OR push_bit 1 (sv_slice 30 21 inst)"

definition rtl_imm :: "int \<Rightarrow> u32w \<Rightarrow> u32w" where
  "rtl_imm opcode inst =
     (if opcode \<in> {Opcode_value OP_LOAD, Opcode_value OP_IMM, Opcode_value OP_JALR,
                   Opcode_value OP_SYSTEM, Opcode_value OP_FENCE} then rtl_imm_i inst
      else if opcode = Opcode_value OP_STORE then rtl_imm_s inst
      else if opcode = Opcode_value OP_BRANCH then rtl_imm_b inst
      else if opcode \<in> {Opcode_value OP_LUI, Opcode_value OP_AUIPC} then rtl_imm_u inst
      else if opcode = Opcode_value OP_JAL then rtl_imm_j inst
      else 0)"

section \<open>Integers that are words\<close>

lemma word_ok_uint: "word_ok (uint (w :: u32w))"
  using uint_lt2p [of w] by (simp add: word_ok_def)

lemma word_ok_obtain: "word_ok x \<Longrightarrow> \<exists>w :: u32w. x = uint w"
  by (rule exI [of _ "word_of_int x"]) (simp add: word_ok_def uint_word_of_int_eq take_bit_int_eq_self)

lemma u32_arith:
  "u32 (uint (a :: u32w) + uint b) = uint (a + b)"
  "u32 (uint a - uint b) = uint (a - b)"
  by (simp_all add: u32_of_int)

lemma u32_bitwise:
  "u32 (uint (a :: u32w) AND uint b) = uint (a AND b)"
  "u32 (uint a OR uint b) = uint (a OR b)"
  "u32 (uint a XOR uint b) = uint (a XOR b)"
  by (simp_all add: u32_uint flip: unsigned_and_eq unsigned_or_eq unsigned_xor_eq)

lemma shamt_uint: "nat (uint (b :: u32w) AND 31) = unat (take_bit 5 b)"
  by (simp add: mask_simps unsigned_take_bit_eq flip: nat_uint_eq)

lemma u32_sint: "u32 (sint (w :: u32w)) = uint w"
  by (simp add: u32_of_int)

lemma u32_shifts:
  "u32 (push_bit n (uint (a :: u32w))) = uint (push_bit n a)"
  "drop_bit n (u32 (uint a)) = uint (drop_bit n a)"
  "u32 (drop_bit n (s32 (uint a))) = uint (signed_drop_bit n a)"
  by (simp add: u32_take_bit unsigned_push_bit_eq)
    (simp_all add: u32_uint unsigned_drop_bit_eq s32_sint u32_sint
      flip: u32_take_bit sint_signed_drop_bit_eq)

lemma compare_words:
  "s32 (uint (a :: u32w)) < s32 (uint b) \<longleftrightarrow> a <s b"
  "s32 (uint (a :: u32w)) \<ge> s32 (uint b) \<longleftrightarrow> b \<le>s a"
  "u32 (uint a) < u32 (uint b) \<longleftrightarrow> a < b"
  "u32 (uint a) \<ge> u32 (uint b) \<longleftrightarrow> b \<le> a"
  by (simp_all add: s32_sint u32_uint word_sless_alt word_sle_eq word_less_def word_le_def)

lemmas word_reads = u32_arith u32_bitwise shamt_uint u32_shifts compare_words

section \<open>The emulator computes what the units compute\<close>

text \<open>
  The encodings the ISA defines. The emulator raises on other \<open>funct7\<close> values of ADD/SUB and of
  the right shifts; the decoder maps them to ADD and SRL.
\<close>

definition legal_reg :: "int \<Rightarrow> int \<Rightarrow> bool" where
  "legal_reg f3 f7 \<longleftrightarrow> 0 \<le> f3 \<and> f3 < 8 \<and>
     (f3 \<in> {F3Op_value F3_ADD_SUB, F3Op_value F3_SR} \<longrightarrow> f7 \<in> {F7_DEFAULT, F7_ALT})"

definition legal_imm :: "int \<Rightarrow> int \<Rightarrow> bool" where
  "legal_imm f3 f7 \<longleftrightarrow> 0 \<le> f3 \<and> f3 < 8 \<and> (f3 = F3Op_value F3_SR \<longrightarrow> f7 \<in> {F7_DEFAULT, F7_ALT})"

lemma f3_cases: "0 \<le> f3 \<Longrightarrow> f3 < 8 \<Longrightarrow> f3 \<in> {0, 1, 2, 3, 4, 5, 6, 7 :: int}"
  by auto

lemma alu_reg_rtl_lemma:
  assumes "legal_reg f3 f7"
  shows "alu_reg f3 f7 (uint a) (uint b) pc0 = Inr (uint (rtl_alu (rtl_alu_op_reg f3 f7) a b))"
proof -
  have "f3 \<in> {0, 1, 2, 3, 4, 5, 6, 7}"
    using assms by (intro f3_cases) (simp_all add: legal_reg_def)
  then show ?thesis
    using assms
    by (elim insertE emptyE)
      (auto simp: alu_reg_def rtl_alu_op_reg_def legal_reg_def F7_DEFAULT_def F7_ALT_def Let_def word_reads)
qed

lemma alu_imm_rtl_lemma:
  assumes "legal_imm f3 (inst_funct7 inst)"
  shows "alu_imm f3 (uint a) (sint b) inst pc0 =
           Inr (uint (rtl_alu (rtl_alu_op_imm f3 (inst_funct7 inst)) a b))"
proof -
  have low: "sint b AND 31 = uint b AND 31"
    by (simp add: mask_simps sint_uint take_bit_signed_take_bit)
  have t: "take_bit 32 (uint w) = uint w" for w :: u32w
    using u32_uint [of w] by (simp add: u32_take_bit)
  have add: "u32 (uint a + sint b) = uint (a + b)"
    by (simp add: u32_of_int)
  have imm: "s32 (sint b) = sint b"
      "u32 (uint a XOR sint b) = uint (a XOR b)" "u32 (uint a OR sint b) = uint (a OR b)"
      "u32 (uint a AND sint b) = uint (a AND b)"
    by (simp_all add: u32_sint s32_signed_take_bit sint_uint [where 'a = 32] u32_take_bit
        take_bit_xor take_bit_or take_bit_and take_bit_signed_take_bit
        unsigned_xor_eq unsigned_or_eq unsigned_and_eq t)
  have "f3 \<in> {0, 1, 2, 3, 4, 5, 6, 7}"
    using assms by (intro f3_cases) (simp_all add: legal_imm_def)
  then show ?thesis
    using assms
    by (elim insertE emptyE)
      (auto simp: alu_imm_def rtl_alu_op_imm_def legal_imm_def F7_DEFAULT_def F7_ALT_def Let_def
        word_reads add imm low inst_funct7_def s32_sint word_sless_alt
        u32_sint u32_uint word_less_def sint_signed_drop_bit_eq [symmetric]
        u32_shifts(2) [unfolded u32_uint])
qed

lemma branch_taken_rtl_lemma:
  "branch_taken f3 (uint a) (uint b) = map_option (\<lambda>op. rtl_taken op a b) (rtl_branch_op f3)"
  by (auto simp: branch_taken_def rtl_branch_op_def compare_words word_uint_eq_iff)

text \<open>The immediate generator and the five decoders agree on every 32-bit instruction.\<close>

lemmas rtl_imm_defs =
  rtl_imm_i_def rtl_imm_s_def rtl_imm_b_def rtl_imm_u_def rtl_imm_j_def sv_slice_def sv_rep_def

lemmas word_bits =
  bit_or_iff bit_push_bit_iff bit_take_bit_iff bit_drop_bit_eq bit_mask_iff bit_word_of_int_iff
  bit_signed_take_bit_iff bit_push_bit_iff_int bit_uint_iff

lemma sign_boundary:
  "(11 :: nat) \<le> n \<longleftrightarrow> n = 11 \<or> 12 \<le> n" "(12 :: nat) \<le> n \<longleftrightarrow> n = 12 \<or> 13 \<le> n"
  "(20 :: nat) \<le> n \<longleftrightarrow> n = 20 \<or> 21 \<le> n"
  by auto

lemma rtl_imm_i_lemma: "rtl_imm_i w = word_of_int (imm_i (uint w))"
  unfolding imm_i_bits rtl_imm_defs
  by (rule bit_word_eqI, simp only: word_bits comp_def)
    (auto simp: word_bits min_def sign_boundary(1))

lemma rtl_imm_s_lemma: "rtl_imm_s w = word_of_int (imm_s (uint w))"
  unfolding imm_s_bits rtl_imm_defs
  by (rule bit_word_eqI, simp only: word_bits comp_def)
    (auto simp: word_bits min_def sign_boundary(1))

lemma rtl_imm_u_lemma: "rtl_imm_u w = word_of_int (imm_u (uint w))"
  unfolding imm_u_bits rtl_imm_defs
  by (rule bit_word_eqI, simp only: word_bits comp_def) (auto simp: word_bits)

lemma rtl_imm_b_lemma: "rtl_imm_b w = word_of_int (imm_b (uint w))"
  unfolding imm_b_bits rtl_imm_defs
  by (rule bit_word_eqI, simp only: word_bits comp_def)
    (auto simp: word_bits min_def sign_boundary(2))

lemma rtl_imm_j_lemma: "rtl_imm_j w = word_of_int (imm_j (uint w))"
  unfolding imm_j_bits rtl_imm_defs
  by (rule bit_word_eqI, simp only: word_bits comp_def)
    (auto simp: word_bits min_def sign_boundary(3))

end
