(* ===== verification/Emu_Regs.thy ===== *)
theory Emu_Regs
  imports Emu_Run
begin

text \<open>
  The register file as an interface: what \<open>r\<close> returns after \<open>wr\<close>, with \<open>x0\<close> read as
  zero, and when two sequences of writes leave the same state. The
  instruction semantics and the two-word pseudo-instructions rely on these laws only.
\<close>

definition reg_ok :: "int \<Rightarrow> bool" where
  "reg_ok i \<longleftrightarrow> 0 \<le> i \<and> i < 32"

locale register_file =
  fixes rreg :: "'s \<Rightarrow> int \<Rightarrow> int"
    and wreg :: "int \<Rightarrow> int \<Rightarrow> 's \<Rightarrow> 's"
    and ok :: "'s \<Rightarrow> bool"
  assumes read_write: "ok s \<Longrightarrow> reg_ok i \<Longrightarrow> reg_ok j \<Longrightarrow>
      rreg (wreg i v s) j = (if j = i \<and> i \<noteq> 0 then u32 v else rreg s j)"
    and read_zero: "rreg s 0 = 0"
    and read_word: "ok s \<Longrightarrow> reg_ok i \<Longrightarrow> u32 (rreg s i) = rreg s i"
    and write_ok: "ok s \<Longrightarrow> reg_ok i \<Longrightarrow> ok (wreg i v s)"
    and write_write: "wreg i v (wreg i w s) = wreg i v s"
    and write_cong: "u32 v = u32 w \<Longrightarrow> wreg i v s = wreg i w s"
    and write_x0: "wreg 0 v s = s"
begin

text \<open>Writes to different registers commute, as far as the registers show.\<close>

lemma write_commute:
  "ok s \<Longrightarrow> reg_ok i \<Longrightarrow> reg_ok k \<Longrightarrow> reg_ok j \<Longrightarrow> i \<noteq> k \<Longrightarrow>
     rreg (wreg i v (wreg k w s)) j = rreg (wreg k w (wreg i v s)) j"
  by (simp add: read_write write_ok)

text \<open>
  The idiom of \<open>li\<close> and \<open>la\<close>: write a first part, then add a second part to the same register.
  It is one write of the sum, also when the register is \<open>x0\<close>.
\<close>

lemma write_then_add:
  assumes "ok s" "reg_ok i" "u32 (x + y) = u32 v"
  shows "wreg i (rreg (wreg i x s) i + y) (wreg i x s) = wreg i v s"
proof (cases "i = 0")
  case False
  have "u32 (u32 x + y) = u32 v"
    using assms(3) by (simp add: u32_take_bit take_bit_add_left)
  with assms(1,2) False show ?thesis
    by (simp add: read_write write_write) (rule write_cong)
qed (simp add: write_x0)

end

definition regs_ok :: "cpu \<Rightarrow> bool" where
  "regs_ok c \<longleftrightarrow> length (regs c) = 32 \<and> list_all word_ok (regs c)"

lemma wf_regs_ok: "wf_cpu c \<Longrightarrow> regs_ok c"
  by (simp add: wf_cpu_def regs_ok_def)

interpretation emu_regs: register_file r wr regs_ok
proof unfold_locales
  fix c i j v
  assume c: "regs_ok c" and i: "reg_ok i" and j: "reg_ok j"
  show "r (wr i v c) j = (if j = i \<and> i \<noteq> 0 then u32 v else r c j)"
    using c i j by (auto simp: r_def wr_def regs_ok_def reg_ok_def nth_list_update nat_eq_iff)
next
  fix c show "r c 0 = 0" by (simp add: r_def)
next
  fix c i assume "regs_ok c" "reg_ok i"
  then show "u32 (r c i) = r c i"
    by (auto simp: r_def regs_ok_def reg_ok_def list_all_length word_ok_def u32_id)
next
  fix c i v assume "regs_ok c" "reg_ok i"
  then show "regs_ok (wr i v c)"
    by (simp add: regs_ok_def wr_def list_all_update)
next
  fix i v w c show "wr i v (wr i w c) = wr i v c" by (simp add: wr_def)
next
  fix i v w c assume "u32 v = u32 w"
  then show "wr i v c = wr i w c" by (simp add: wr_def)
next
  fix v c show "wr 0 v c = c" by (simp add: wr_def)
qed

section \<open>Several steps\<close>

text \<open>\<open>n\<close> steps, stopping at the first exception.\<close>

fun steps_n :: "nat \<Rightarrow> cpu \<Rightarrow> emu_exn + cpu" where
  "steps_n 0 c = Inr c"
| "steps_n (Suc n) c = (case step c of (Inl e, _) \<Rightarrow> Inl e | (Inr _, c') \<Rightarrow> steps_n n c')"

lemma steps_n_steps_to: "steps_n n c = Inr d \<Longrightarrow> steps_to c d"
proof (induction n arbitrary: c)
  case (Suc n)
  then show ?case
    by (auto split: prod.splits sum.splits intro: steps_to_first)
qed (simp add: steps_to.intros)

lemma steps_n_2:
  "step c = (Inr t, c1) \<Longrightarrow> step c1 = (Inr t', c2) \<Longrightarrow> steps_n 2 c = Inr c2"
  by (simp add: numeral_2_eq_2)

end
