(* ===== verification/Asm_Exec.thy ===== *)
theory Asm_Exec
  imports Codec Asm_Encode Rtl_Units Emu_Regs
begin

text \<open>
  Assembled code on the emulator: what one step does on each packed instruction word, and what
  the two-word expansions of \<open>li\<close>, \<open>la\<close> and \<open>call\<close> compute.
\<close>

section \<open>One fetched word\<close>

definition fetches :: "cpu \<Rightarrow> int \<Rightarrow> int \<Rightarrow> bool" where
  "fetches c a w \<longleftrightarrow> fetch c a = Inr w"

text \<open>The instruction words of a list sit in memory from an address on.\<close>

fun holds_code :: "cpu \<Rightarrow> int \<Rightarrow> int list \<Rightarrow> bool" where
  "holds_code c a [] = True"
| "holds_code c a (w # ws) = (fetches c a w \<and> holds_code c (a + 4) ws)"

text \<open>The state after an instruction that retires with a next PC.\<close>

definition retire :: "int \<Rightarrow> cpu \<Rightarrow> cpu" where
  "retire next_pc c = c\<lparr>pc := next_pc, steps := steps c + 1\<rparr>"

lemma fetch_Inr: "fetch c a = Inr w \<longleftrightarrow> a AND 3 = 0 \<and> mem_base c \<le> a \<and>
    a + 4 \<le> mem_base c + int (length (mem c)) \<and> w = unpack_I (mem c) (a - mem_base c)"
  by (cases "a AND 3 = 0") (auto simp: fetch_def mem_index_def)

lemma fetch_cong: "mem c' = mem c \<Longrightarrow> mem_base c' = mem_base c \<Longrightarrow> fetches c' a w = fetches c a w"
  by (simp add: fetches_def fetch_Inr)

lemma holds_code_cong:
  "mem c' = mem c \<Longrightarrow> mem_base c' = mem_base c \<Longrightarrow> holds_code c' a ws = holds_code c a ws"
  using fetch_cong [of c' c] by (induction ws arbitrary: a) simp_all

lemma wr_fields [simp]:
  "mem (wr i v c) = mem c" "mem_base (wr i v c) = mem_base c" "pc (wr i v c) = pc c"
  "halted (wr i v c) = halted c" "steps (wr i v c) = steps c" "csrs (wr i v c) = csrs c"
  "tohost_addr (wr i v c) = tohost_addr c"
  by (simp_all add: wr_def)

lemma retire_fields [simp]:
  "mem (retire n c) = mem c" "mem_base (retire n c) = mem_base c" "pc (retire n c) = n"
  "halted (retire n c) = halted c" "steps (retire n c) = steps c + 1" "regs (retire n c) = regs c"
  "tohost_addr (retire n c) = tohost_addr c" "csrs (retire n c) = csrs c"
  by (simp_all add: retire_def)

lemma retire_retire: "retire n (wr i v (retire m c)) = (wr i v c)\<lparr>pc := n, steps := steps c + 2\<rparr>"
  by (simp add: retire_def wr_def)

lemma step_exec:
  assumes "\<not> halted c" "fetches c (pc c) w" "exec_opcode (pc c) w c = (Inr (n, mw), c1)"
  shows "step c = (Inr \<lparr>tr_pc = pc c, tr_inst = w, rd_write = trace_rd w c1, mem_write = mw\<rparr>,
                   retire n c1)"
  using assms by (simp add: step_def sx_simps fetches_def retire_def)

lemma step_raise:
  assumes "\<not> halted c" "fetches c (pc c) w" "exec_opcode (pc c) w c = (Inl e, c1)"
  shows "step c = (Inl e, c1)"
  using assms by (simp add: step_def sx_simps fetches_def)

section \<open>The opcodes on packed words\<close>

text \<open>Operands that their field holds.\<close>

lemma take_bit_reg: "reg_ok i \<Longrightarrow> take_bit 5 i = i"
  by (simp add: reg_ok_def take_bit_int_eq_self)

lemma reg_ok_simps [simp]: "reg_ok 0" "reg_ok 1"
  by (simp_all add: reg_ok_def)

lemma take_bit_opcode [simp]: "take_bit 7 (Opcode_value op) = Opcode_value op"
  by (cases op) simp_all

lemma take_bit_f3 [simp]:
  "take_bit 3 (F3Op_value f) = F3Op_value f"
  "take_bit 3 (F3Branch_value b) = F3Branch_value b"
  "take_bit 3 (F3Load_value l) = F3Load_value l"
  "take_bit 3 (F3Store_value s) = F3Store_value s"
  by (cases f, simp_all, cases b, simp_all, cases l, simp_all, cases s, simp_all)

lemma and_3_dvd: "(x :: int) AND 3 = 0 \<longleftrightarrow> 4 dvd x"
  by (simp add: mask_simps take_bit_eq_mod mod_eq_0_iff_dvd)

lemma exec_lui_word:
  assumes "reg_ok rd"
  shows "exec_opcode p (u_type (Opcode_value OP_LUI) rd imm) c =
           (Inr (u32 (p + 4), None), wr rd (push_bit 12 (take_bit 20 imm)) c)"
  using assms
  by (simp add: exec_opcode_def packed_fields exec_lui_def no_store_def sx_simps take_bit_reg)

lemma exec_auipc_word:
  assumes "reg_ok rd"
  shows "exec_opcode p (u_type (Opcode_value OP_AUIPC) rd imm) c =
           (Inr (u32 (p + 4), None), wr rd (p + push_bit 12 (take_bit 20 imm)) c)"
  using assms
  by (simp add: exec_opcode_def packed_fields exec_auipc_def no_store_def sx_simps take_bit_reg wr_def)

lemma exec_addi_word:
  assumes "reg_ok rd" "reg_ok rs1"
  shows "exec_opcode p (i_type (Opcode_value OP_IMM) rd (F3Op_value F3_ADD_SUB) rs1 imm) c =
           (Inr (u32 (p + 4), None), wr rd (r c rs1 + signed_take_bit 11 imm) c)"
  using assms
  by (simp add: exec_opcode_def packed_fields exec_imm_def no_store_def sx_simps take_bit_reg
      alu_imm_def wr_def)

text \<open>The exception of a jump or branch to an address that is not word-aligned.\<close>

definition target_trap :: "string \<Rightarrow> int \<Rightarrow> int \<Rightarrow> emu_exn" where
  "target_trap what pc0 target = Trap ''misaligned-fetch'' pc0 (what @ '' target=0x'' @ fmt_x 8 target)"

text \<open>A jump to an address that leaves a link: it retires, or raises without touching the state.\<close>

definition jump_result ::
    "string \<Rightarrow> int \<Rightarrow> int \<Rightarrow> int \<Rightarrow> cpu \<Rightarrow> (emu_exn + int \<times> (int \<times> int \<times> int) option) \<times> cpu" where
  "jump_result what p dest rd c =
     (if 4 dvd dest then (Inr (dest, None), wr rd (p + 4) c) else (Inl (target_trap what p dest), c))"

lemma exec_jalr_word:
  assumes "reg_ok rd" "reg_ok rs1"
  shows "exec_opcode p (i_type (Opcode_value OP_JALR) rd 0 rs1 imm) c =
           jump_result ''JALR'' p (u32 ((r c rs1 + signed_take_bit 11 imm) AND NOT 1)) rd c"
  using assms
  by (simp add: exec_opcode_def packed_fields exec_jalr_def no_store_def sx_simps take_bit_reg
      Let_def wr_def and_3_dvd jump_result_def target_trap_def)

section \<open>Splitting a constant into an upper and a lower half\<close>

text \<open>
  ADDI sign-extends the low 12 bits; the bump of the upper half undoes it modulo \<open>2 ^ 32\<close>.
\<close>

lemma hi_lo_sum:
  assumes "hi_lo v = (hi, lo)"
  shows "u32 (push_bit 12 (take_bit 20 hi) + signed_take_bit 11 lo) = u32 v"
proof -
  define b where "b = (if bit v 11 then 1 else 0 :: int)"
  have lo: "lo = take_bit 12 v" and hi: "take_bit 20 hi = take_bit 20 (drop_bit 12 v + b)"
    using assms and_exp_nonzero [of "take_bit 12 v" 11]
    by (auto simp: hi_lo_def Let_def mask_simps b_def bit_take_bit_iff take_bit_add_left split: if_splits)
  have low: "signed_take_bit 11 lo = take_bit 12 v - b * 2 ^ 12"
  proof -
    have "signed_take_bit 11 lo = signed_take_bit 11 v"
      by (simp add: lo signed_take_bit_take_bit)
    then show ?thesis by (simp add: b_def signed_take_bit_eq_take_bit_minus)
  qed
  have "take_bit 32 (push_bit 12 (take_bit 20 hi) + signed_take_bit 11 lo) =
      take_bit 32 (push_bit 12 (drop_bit 12 v + b) + signed_take_bit 11 lo)"
    unfolding hi by (simp add: push_bit_take_bit take_bit_add_left)
  also have "push_bit 12 (drop_bit 12 v + b) + signed_take_bit 11 lo = v"
    by (simp add: low push_bit_eq_mult drop_bit_eq_div take_bit_eq_mod algebra_simps)
  finally show ?thesis by (simp add: u32_take_bit)
qed

section \<open>Two-word expansions\<close>

text \<open>Two words in a row, given what each does to the state.\<close>

lemma first_word:
  assumes "\<not> halted c" "holds_code c (pc c) [w1, w2]" "0 \<le> pc c" "pc c + 8 < 2 ^ 32"
    and "exec_opcode (pc c) w1 c = (Inr (u32 (pc c + 4), None), wr i x c)"
  obtains t where "step c = (Inr t, retire (pc c + 4) (wr i x c))"
    "fetches (retire (pc c + 4) (wr i x c)) (pc c + 4) w2"
proof -
  have "u32 (pc c + 4) = pc c + 4"
    using assms by (simp add: u32_id)
  then obtain t where "step c = (Inr t, retire (pc c + 4) (wr i x c))"
    using step_exec [OF assms(1) _ assms(5)] assms(2) by auto
  moreover have "fetches (retire (pc c + 4) (wr i x c)) (pc c + 4) w2"
    using assms(2) fetch_cong [of "retire (pc c + 4) (wr i x c)" c "pc c + 4" w2] by simp
  ultimately show thesis using that by blast
qed

lemma two_words:
  assumes "\<not> halted c" "holds_code c (pc c) [w1, w2]" "0 \<le> pc c" "pc c + 8 < 2 ^ 32"
    and first: "exec_opcode (pc c) w1 c = (Inr (u32 (pc c + 4), None), wr i x c)"
    and second: "exec_opcode (pc c + 4) w2 (retire (pc c + 4) (wr i x c)) =
           (Inr (n, None), wr j y (retire (pc c + 4) (wr i x c)))"
  shows "steps_n 2 c = Inr ((wr j y (wr i x c))\<lparr>pc := n, steps := steps c + 2\<rparr>)"
proof -
  let ?c1 = "retire (pc c + 4) (wr i x c)"
  obtain t where s1: "step c = (Inr t, ?c1)" and f: "fetches ?c1 (pc c + 4) w2"
    using first_word [OF assms(1-4) first] by blast
  obtain t' where "step ?c1 = (Inr t', retire n (wr j y ?c1))"
    using step_exec [of ?c1 w2 n None "wr j y ?c1"] second assms(1) f by auto
  from steps_n_2 [OF s1 this] show ?thesis by (simp add: retire_retire)
qed

lemma r_retire [simp]: "r (retire n c) i = r c i"
  by (simp add: r_def)

lemma regs_ok_retire [simp]: "regs_ok (retire n c) = regs_ok c"
  by (simp add: regs_ok_def)

lemma li_exec:
  assumes "regs_ok c" "\<not> halted c" "reg_ok rd" "0 \<le> pc c" "pc c + 8 < 2 ^ 32"
    and "holds_code c (pc c) (li_words rd v)"
  shows "steps_n 2 c = Inr ((wr rd v c)\<lparr>pc := pc c + 8, steps := steps c + 2\<rparr>)"
proof (cases "- 2048 \<le> v \<and> v \<le> 2047")
  have p8: "u32 (8 + pc c) = pc c + 8" using assms by (simp add: u32_id)
  case True
  let ?c1 = "retire (pc c + 4) (wr rd (r c 0 + signed_take_bit 11 (take_bit 12 v)) c)"
  have small: "signed_take_bit 11 (take_bit 12 v) = v"
    using True by (simp add: signed_take_bit_take_bit signed_take_bit_id)
  have "steps_n 2 c = Inr ((wr 0 (r ?c1 0 + signed_take_bit 11 0)
      (wr rd (r c 0 + signed_take_bit 11 (take_bit 12 v)) c))\<lparr>pc := u32 (pc c + 4 + 4), steps := steps c + 2\<rparr>)"
    by (rule two_words [OF assms(2) _ assms(4,5) exec_addi_word exec_addi_word])
      (use assms True in \<open>simp_all add: li_words_def nop_word_def mask_simps\<close>)
  then show ?thesis
    by (simp add: p8 small emu_regs.write_x0 emu_regs.read_zero)
next
  have p8: "u32 (8 + pc c) = pc c + 8" using assms by (simp add: u32_id)
  case False
  obtain hi lo where hl: "hi_lo (take_bit 32 v) = (hi, lo)" by fastforce
  let ?x = "push_bit 12 (take_bit 20 hi)"
  let ?c1 = "retire (pc c + 4) (wr rd ?x c)"
  have sum: "u32 (?x + signed_take_bit 11 lo) = u32 v"
    using hi_lo_sum [OF hl] by (simp add: u32_take_bit)
  have "steps_n 2 c = Inr ((wr rd (r ?c1 rd + signed_take_bit 11 lo) (wr rd ?x c))
      \<lparr>pc := u32 (pc c + 4 + 4), steps := steps c + 2\<rparr>)"
    by (rule two_words [OF assms(2) _ assms(4,5) exec_lui_word exec_addi_word])
      (use assms False hl in \<open>auto simp: li_words_def mask_simps\<close>)
  then show ?thesis
    by (simp add: p8 emu_regs.write_then_add [OF assms(1,3) sum])
qed

text \<open>The PC-relative pair of \<open>la\<close> and \<open>call\<close>: the two halves add up to the target.\<close>

lemma pcrel_sum:
  assumes "hi_lo (take_bit 32 (target - p)) = (hi, lo)"
  shows "u32 (p + push_bit 12 (take_bit 20 hi) + signed_take_bit 11 lo) = u32 target"
proof -
  have "u32 (push_bit 12 (take_bit 20 hi) + signed_take_bit 11 lo) = u32 (target - p)"
    using hi_lo_sum [OF assms] by (simp add: u32_take_bit)
  then show ?thesis
    by (metis (no_types) add.assoc diff_add_cancel add.commute take_bit_add_right u32_take_bit)
qed

lemma la_exec:
  assumes "regs_ok c" "\<not> halted c" "reg_ok rd" "0 \<le> pc c" "pc c + 8 < 2 ^ 32"
    and "holds_code c (pc c) (la_words rd target (pc c))"
  shows "steps_n 2 c = Inr ((wr rd target c)\<lparr>pc := pc c + 8, steps := steps c + 2\<rparr>)"
proof -
  have p8: "u32 (8 + pc c) = pc c + 8" using assms by (simp add: u32_id)
  obtain hi lo where hl: "hi_lo (take_bit 32 (target - pc c)) = (hi, lo)" by fastforce
  let ?x = "pc c + push_bit 12 (take_bit 20 hi)"
  let ?c1 = "retire (pc c + 4) (wr rd ?x c)"
  have "steps_n 2 c = Inr ((wr rd (r ?c1 rd + signed_take_bit 11 lo) (wr rd ?x c))
      \<lparr>pc := u32 (pc c + 4 + 4), steps := steps c + 2\<rparr>)"
    by (rule two_words [OF assms(2) _ assms(4,5) exec_auipc_word exec_addi_word])
      (use assms hl in \<open>auto simp: la_words_def mask_simps\<close>)
  then show ?thesis
    by (simp add: p8 emu_regs.write_then_add [OF assms(1,3) pcrel_sum [OF hl]])
qed

lemma and_not_1: "even x \<Longrightarrow> (x :: int) AND NOT 1 = x"
  by (rule bit_eqI) (auto simp: bit_and_iff bit_not_iff bit_1_iff bit_0 intro: ccontr)

lemma u32_and_not_1: "u32 (x AND NOT 1) = u32 x AND NOT 1"
  by (rule bit_eqI) (simp only: u32_take_bit bit_and_iff bit_take_bit_iff conj_assoc)

text \<open>
  \<open>call\<close>: the return address goes to \<open>ra\<close>, and control to the target with bit 0 cleared. When that
  is not word-aligned, the second instruction raises: its state is the one the first has left.
\<close>

lemma call_exec:
  assumes "regs_ok c" "\<not> halted c" "0 \<le> pc c" "pc c + 8 < 2 ^ 32"
    and "holds_code c (pc c) (call_words target (pc c))"
  defines "dest \<equiv> u32 target AND NOT 1"
  shows "4 dvd dest \<Longrightarrow> steps_n 2 c = Inr ((wr 1 (pc c + 8) c)\<lparr>pc := dest, steps := steps c + 2\<rparr>)"
    and "\<not> 4 dvd dest \<Longrightarrow> \<exists>t c1. step c = (Inr t, c1) \<and> pc c1 = pc c + 4 \<and>
           step c1 = (Inl (target_trap ''JALR'' (pc c + 4) dest), c1)"
proof -
  obtain hi lo where hl: "hi_lo (take_bit 32 (target - pc c)) = (hi, lo)" by fastforce
  let ?x = "pc c + push_bit 12 (take_bit 20 hi)"
  let ?w1 = "u_type (Opcode_value OP_AUIPC) 1 hi" and ?w2 = "i_type (Opcode_value OP_JALR) 1 0 1 lo"
  let ?c1 = "retire (pc c + 4) (wr 1 ?x c)"
  have code: "holds_code c (pc c) [?w1, ?w2]"
    using assms(5) hl by (auto simp: call_words_def mask_simps)
  have first: "exec_opcode (pc c) ?w1 c = (Inr (u32 (pc c + 4), None), wr 1 ?x c)"
    by (rule exec_auipc_word) simp
  have "r ?c1 1 = u32 ?x"
    using assms(1) by (simp add: emu_regs.read_write)
  then have "u32 (r ?c1 1 + signed_take_bit 11 lo) = u32 target"
    using pcrel_sum [OF hl] by (simp add: u32_take_bit take_bit_add_left)
  then have second: "exec_opcode (pc c + 4) ?w2 ?c1 = jump_result ''JALR'' (pc c + 4) dest 1 ?c1"
    by (simp only: exec_jalr_word reg_ok_simps u32_and_not_1 dest_def)
  show "steps_n 2 c = Inr ((wr 1 (pc c + 8) c)\<lparr>pc := dest, steps := steps c + 2\<rparr>)" if "4 dvd dest"
    using two_words [OF assms(2) code assms(3,4) first, of dest 1 "pc c + 4 + 4"] second that
    by (simp add: jump_result_def emu_regs.write_write add.commute [of 8])
  show "\<exists>t c1. step c = (Inr t, c1) \<and> pc c1 = pc c + 4 \<and>
      step c1 = (Inl (target_trap ''JALR'' (pc c + 4) dest), c1)" if "\<not> 4 dvd dest"
  proof -
    obtain t where s1: "step c = (Inr t, ?c1)" and f: "fetches ?c1 (pc c + 4) ?w2"
      using first_word [OF assms(2) code assms(3,4) first] by blast
    have "step ?c1 = (Inl (target_trap ''JALR'' (pc c + 4) dest), ?c1)"
      by (rule step_raise [of _ ?w2]) (use assms(2) f second that in \<open>simp_all add: jump_result_def\<close>)
    with s1 show ?thesis by auto
  qed
qed

end
