(* ===== verification/Emu_Mem.thy ===== *)
theory Emu_Mem
  imports Byte_Memory Emu_Inv
begin

text \<open>
  The emulator's bytearray provides the byte storage contract; \<open>load\<close>, \<open>store\<close> and \<open>fetch\<close> are
  reads and writes of little-endian words over it.
\<close>

definition mem_get :: "int list \<Rightarrow> int \<Rightarrow> int" where
  "mem_get m a = (if a < 0 then 0 else m ! nat a)"

definition mem_put :: "int \<Rightarrow> int \<Rightarrow> int list \<Rightarrow> int list" where
  "mem_put a v m = m[nat a := take_bit 8 v]"

definition mem_inside :: "int list \<Rightarrow> int \<Rightarrow> bool" where
  "mem_inside m a \<longleftrightarrow> 0 \<le> a \<and> a < int (length m)"

interpretation emu_mem: byte_memory mem_get mem_put mem_inside
  by unfold_locales (auto simp: mem_get_def mem_put_def mem_inside_def nth_list_update nat_eq_iff)

section \<open>\<open>struct\<close> formats as little-endian words\<close>

lemma unpack_le:
  "0 \<le> i \<Longrightarrow> unpack_H m i = le_read mem_get 2 i m" "0 \<le> i \<Longrightarrow> unpack_I m i = le_read mem_get 4 i m"
  by (simp_all add: unpack_H_def unpack_I_def mem_get_def eval_nat_numeral algebra_simps)

lemma pack_le: "pack_H m i v = le_write mem_put 2 i v m" "pack_I m i v = le_write mem_put 4 i v m"
  by (simp_all add: pack_H_def pack_I_def mem_put_def eval_nat_numeral algebra_simps)

lemma le_1: "le_read mem_get 1 i m = mem_get m i" "le_write mem_put 1 i v m = mem_put i v m"
  by simp_all

lemma emu_inside_n: "emu_mem.inside_n m i n \<longleftrightarrow> n = 0 \<or> (0 \<le> i \<and> i + int n \<le> int (length m))"
  by (auto simp: emu_mem.inside_n_def mem_inside_def dest: spec [of _ 0] spec [of _ "n - 1"])

section \<open>Accesses\<close>

text \<open>An access of width \<open>n\<close> that passes the alignment and range checks.\<close>

definition access_ok :: "cpu \<Rightarrow> int \<Rightarrow> nat \<Rightarrow> bool" where
  "access_ok c addr n \<longleftrightarrow> (n = 1 \<or> n = 2 \<or> n = 4) \<and> addr mod int n = 0 \<and>
     mem_base c \<le> addr \<and> addr + int n \<le> mem_base c + int (length (mem c))"

lemma width_mask: "n = 2 \<or> n = 4 \<Longrightarrow> (addr AND (int n - 1) = 0) = (addr mod int n = 0)"
  by (auto simp: mask_simps take_bit_eq_mod)

lemma mem_index_Inr: "mem_index c addr sz = Inr i \<longleftrightarrow>
    mem_base c \<le> addr \<and> addr + sz \<le> mem_base c + int (length (mem c)) \<and> i = addr - mem_base c"
  by (auto simp: mem_index_def)

lemma load_unsigned:
  "access_ok c addr n \<Longrightarrow>
     load c addr (int n) False = Inr (le_read mem_get n (addr - mem_base c) (mem c))"
  using width_mask [of n addr]
  by (auto simp: load_def access_ok_def mem_index_def unpack_le mem_get_def Let_def)

lemma load_signed:
  "access_ok c addr n \<Longrightarrow> n = 1 \<or> n = 2 \<Longrightarrow>
     load c addr (int n) True = Inr (u32 (sext (le_read mem_get n (addr - mem_base c) (mem c)) (8 * n)))"
  using width_mask [of n addr]
  by (auto simp: load_def access_ok_def mem_index_def unpack_le mem_get_def Let_def u32_def)

lemma fetch_word:
  "access_ok c addr 4 \<Longrightarrow> fetch c addr = Inr (le_read mem_get 4 (addr - mem_base c) (mem c))"
  using width_mask [of 4 addr]
  by (auto simp: fetch_def access_ok_def mem_index_def unpack_le)

lemma store_memory:
  assumes "access_ok c addr n" "addr \<noteq> tohost_addr c"
  shows "store addr v (int n) c =
           (Inr (), c\<lparr>mem := le_write mem_put n (addr - mem_base c) v (mem c)\<rparr>)"
proof -
  have low: "le_write mem_put 2 i (take_bit 16 v) m = le_write mem_put 2 i v m"
      "le_write mem_put 4 i (take_bit 32 v) m = le_write mem_put 4 i v m"
      "mem_put i (take_bit 8 v) m = mem_put i v m" for i m
    by (simp_all add: emu_mem.le_write_low_bits emu_mem.put_byte)
  show ?thesis
    using assms width_mask [of n addr]
    by (auto simp: store_def sx_simps access_ok_def mem_index_def mask_simps u32_take_bit pack_le low
        simp flip: mem_put_def)
qed

lemma store_tohost:
  "store (tohost_addr c) v sz c =
     (Inr (), c\<lparr>tohost_value := Some (u32 v), halted := True,
        halt_reason := Some (if u32 v = 1 then ''tohost-pass'' else ''tohost-fail'')\<rparr>)"
  by (simp add: store_def sx_simps)

end
