(* ===== verification/Asm_Lines.thy ===== *)
theory Asm_Lines
  imports Asm_Exec Emu_Mem
begin

text \<open>
  Source lines end to end: what \<open>encode_line\<close> returns for a line, executed by the emulator, does
  what the mnemonic means, with the register file units of the RTL as the meaning of arithmetic.
\<close>

section \<open>Operands of a line\<close>

lemma REG_ALIASES_range: "map_of REG_ALIASES t = Some n \<Longrightarrow> reg_ok n"
proof -
  have "list_all (\<lambda>(_, n). 0 \<le> n \<and> n < 32) REG_ALIASES"
    by (simp add: REG_ALIASES_def)
  then show "map_of REG_ALIASES t = Some n \<Longrightarrow> reg_ok n"
    by (auto simp: list_all_iff reg_ok_def dest!: map_of_SomeD)
qed

lemma parse_reg_ok: "parse_reg tok lineno src = Inr n \<Longrightarrow> reg_ok n"
  by (auto simp: parse_reg_def Let_def reg_ok_def split: option.splits if_splits
      dest!: REG_ALIASES_range)

lemma arg_reg_ok: "arg_reg ln k = Inr n \<Longrightarrow> reg_ok n"
  by (simp add: arg_reg_def parse_reg_ok)

text \<open>The ALU operation each mnemonic stands for.\<close>

definition r_mnemonics :: "(string \<times> AluOp) list" where
  "r_mnemonics =
    [(''add'', ALU_ADD), (''sub'', ALU_SUB), (''sll'', ALU_SLL), (''slt'', ALU_SLT),
     (''sltu'', ALU_SLTU), (''xor'', ALU_XOR), (''srl'', ALU_SRL), (''sra'', ALU_SRA),
     (''or'', ALU_OR), (''and'', ALU_AND)]"

definition i_mnemonics :: "(string \<times> AluOp) list" where
  "i_mnemonics =
    [(''addi'', ALU_ADD), (''slti'', ALU_SLT), (''sltiu'', ALU_SLTU), (''xori'', ALU_XOR),
     (''ori'', ALU_OR), (''andi'', ALU_AND), (''slli'', ALU_SLL), (''srli'', ALU_SRL),
     (''srai'', ALU_SRA)]"

section \<open>Arithmetic opcodes\<close>

abbreviation reg_word :: "cpu \<Rightarrow> int \<Rightarrow> u32w" where
  "reg_word c i \<equiv> word_of_int (r c i)"

lemma uint_reg_word: "regs_ok c \<Longrightarrow> reg_ok i \<Longrightarrow> uint (reg_word c i) = r c i"
  using emu_regs.read_word [of c i] by (simp add: u32_of_int)

lemma take_bit_f7 [simp]: "take_bit 7 F7_DEFAULT = F7_DEFAULT" "take_bit 7 F7_ALT = F7_ALT"
  by (simp_all add: F7_DEFAULT_def F7_ALT_def)

lemma exec_reg_word:
  assumes "regs_ok c" "reg_ok rd" "reg_ok rs1" "reg_ok rs2" "legal_reg (F3Op_value f) f7"
    "take_bit 7 f7 = f7"
  shows "exec_opcode p (r_type (Opcode_value OP_REG) rd (F3Op_value f) rs1 rs2 f7) c =
           (Inr (u32 (p + 4), None),
            wr rd (uint (rtl_alu (rtl_alu_op_reg (F3Op_value f) f7) (reg_word c rs1) (reg_word c rs2))) c)"
  using assms alu_reg_rtl_lemma [OF assms(5), of "reg_word c rs1" "reg_word c rs2" p]
  by (simp add: exec_opcode_def packed_fields exec_reg_def no_store_def sx_simps take_bit_reg uint_reg_word)

lemma sint_word_of_small: "- 2048 \<le> v \<Longrightarrow> v < 2048 \<Longrightarrow> sint (word_of_int v :: u32w) = v"
  by (simp add: sint_uint uint_word_of_int_eq signed_take_bit_take_bit signed_take_bit_id)

lemma i_type_funct7: "inst_funct7 (i_type opcode rd f3 rs1 (take_bit 12 v)) = take_bit 7 (drop_bit 5 v)"
  unfolding field_defs i_type_def mask_simps
  by (rule bit_eqI, simp only: pack_bits comp_def) auto

lemma exec_imm_word:
  assumes "regs_ok c" "reg_ok rd" "reg_ok rs1" "- 2048 \<le> v" "v < 2048"
    and legal: "legal_imm (F3Op_value f) (take_bit 7 (drop_bit 5 v))"
  shows "exec_opcode p (i_type (Opcode_value OP_IMM) rd (F3Op_value f) rs1 (take_bit 12 v)) c =
           (Inr (u32 (p + 4), None),
            wr rd (uint (rtl_alu (rtl_alu_op_imm (F3Op_value f) (take_bit 7 (drop_bit 5 v)))
                           (reg_word c rs1) (word_of_int v))) c)"
proof -
  let ?w = "i_type (Opcode_value OP_IMM) rd (F3Op_value f) rs1 (take_bit 12 v)"
  have v: "signed_take_bit 11 (take_bit 12 v) = v"
    using assms by (simp add: signed_take_bit_take_bit signed_take_bit_id)
  have "alu_imm (F3Op_value f) (r c rs1) v ?w p =
      Inr (uint (rtl_alu (rtl_alu_op_imm (F3Op_value f) (take_bit 7 (drop_bit 5 v)))
                  (reg_word c rs1) (word_of_int v)))"
    using alu_imm_rtl_lemma [of "F3Op_value f" ?w "reg_word c rs1" "word_of_int v" p] assms
    by (simp add: i_type_funct7 uint_reg_word sint_word_of_small)
  then show ?thesis
    using assms
    by (simp add: exec_opcode_def packed_fields exec_imm_def no_store_def sx_simps take_bit_reg v)
qed

text \<open>The shift-immediate words are packed as R-type words with the OP-IMM opcode.\<close>

lemma r_type_as_i_type:
  "r_type opcode rd f3 rs1 sh f7 =
     i_type opcode rd f3 rs1 (take_bit 12 (push_bit 5 (take_bit 7 f7) OR take_bit 5 sh))"
  unfolding r_type_def i_type_def mask_simps
  by (rule bit_eqI, simp only: pack_bits comp_def) auto

lemma rtl_shift_low:
  "aop \<in> {ALU_SLL, ALU_SRL, ALU_SRA} \<Longrightarrow> take_bit 5 b = take_bit 5 b' \<Longrightarrow> rtl_alu aop a b = rtl_alu aop a b'"
  by auto

lemma exec_shift_word:
  assumes "regs_ok c" "reg_ok rd" "reg_ok rs1" "0 \<le> sh" "sh < 32"
    and op: "(f, f7, aop) \<in> {(F3_SLL, F7_DEFAULT, ALU_SLL), (F3_SR, F7_DEFAULT, ALU_SRL), (F3_SR, F7_ALT, ALU_SRA)}"
  shows "exec_opcode p (r_type (Opcode_value OP_IMM) rd (F3Op_value f) rs1 sh f7) c =
           (Inr (u32 (p + 4), None), wr rd (uint (rtl_alu aop (reg_word c rs1) (word_of_int sh))) c)"
proof -
  let ?v = "push_bit 5 (take_bit 7 f7) OR take_bit 5 sh"
  have sh5: "take_bit 5 sh = sh"
    using assms by (simp add: take_bit_int_eq_self)
  have f7: "f7 = 0 \<or> f7 = 32"
    using op by (auto simp: F7_DEFAULT_def F7_ALT_def)
  have lt: "0 \<le> ?v \<and> ?v < 2 ^ 11"
    unfolding sh5 by (subst or_lt_exp) (use f7 assms(4,5) in auto)
  have top: "take_bit 7 (drop_bit 5 ?v) = take_bit 7 f7"
    by (rule bit_eqI, simp only: pack_bits comp_def) auto
  have low: "take_bit 5 (word_of_int ?v :: u32w) = take_bit 5 (word_of_int sh)"
    by (rule bit_word_eqI, simp only: bit_take_bit_iff bit_word_of_int_iff pack_bits) auto
  have "exec_opcode p (i_type (Opcode_value OP_IMM) rd (F3Op_value f) rs1 (take_bit 12 ?v)) c =
      (Inr (u32 (p + 4), None),
       wr rd (uint (rtl_alu (rtl_alu_op_imm (F3Op_value f) (take_bit 7 f7)) (reg_word c rs1) (word_of_int ?v))) c)"
    using exec_imm_word [of c rd rs1 ?v f p] assms lt f7
    unfolding top by (auto simp: legal_imm_def F7_DEFAULT_def F7_ALT_def)
  also have "rtl_alu_op_imm (F3Op_value f) (take_bit 7 f7) = aop"
    using op by (auto simp: rtl_alu_op_imm_def F7_DEFAULT_def F7_ALT_def)
  also have "rtl_alu aop (reg_word c rs1) (word_of_int ?v) = rtl_alu aop (reg_word c rs1) (word_of_int sh)"
    by (rule rtl_shift_low [OF _ low]) (use op in auto)
  finally show ?thesis by (simp add: r_type_as_i_type)
qed

end
