(* ===== verification/Asm_Correct.thy ===== *)
theory Asm_Correct
  imports Asm_Lines
begin

text \<open>
  Correctness of the assembler against the emulator, line by line: if \<open>encode_line\<close> accepts a
  line, executing its words has the effect of the mnemonic on the operands written in the line.
\<close>

section \<open>Effects\<close>

text \<open>
  The whole state after \<open>n\<close> instructions: register \<open>rd\<close> is \<open>v\<close> (unless it is \<open>x0\<close>), the PC is \<open>next\<close>,
  the step counter has advanced, and every other field is what it was.
\<close>

definition reg_effect :: "nat \<Rightarrow> cpu \<Rightarrow> cpu \<Rightarrow> int \<Rightarrow> int \<Rightarrow> int \<Rightarrow> bool" where
  "reg_effect n c c' next_pc rd v \<longleftrightarrow>
     c' = c\<lparr>regs := (if rd = 0 then regs c else (regs c)[nat rd := v]), pc := next_pc,
            steps := steps c + int n\<rparr>"

lemma reg_effect_wr: "reg_effect n c ((wr rd v c)\<lparr>pc := m, steps := steps c + int n\<rparr>) m rd (u32 v)"
  by (simp add: reg_effect_def wr_def)

lemma reg_effect_retire: "reg_effect 1 c (retire m (wr rd v c)) m rd (u32 v)"
  using reg_effect_wr [where n = 1 and c = c and rd = rd and v = v and m = m] by (simp add: retire_def)

lemma one_word_reg:
  assumes "\<not> halted c" "holds_code c (pc c) [w]" "exec_opcode (pc c) w c = (Inr (n, None), wr rd v c)"
  shows "\<exists>c'. steps_n 1 c = Inr c' \<and> reg_effect 1 c c' n rd (u32 v)"
  using step_exec [OF assms(1) _ assms(3)] assms(2) reg_effect_retire by simp

section \<open>Register-register arithmetic\<close>

text \<open>
  The rows of the source's tables, with the operation each mnemonic selects. What dispatch needs
  to know of a row is evaluated once for the whole table.
\<close>

definition directives :: "string list" where
  "directives = [''.text'', ''.data'', ''.align'', ''.word'', ''.byte'']"

definition reg_mnemonics :: "(string \<times> F3Op \<times> int \<times> AluOp) list" where
  "reg_mnemonics =
    [(''add'', F3_ADD_SUB, F7_DEFAULT, ALU_ADD), (''sub'', F3_ADD_SUB, F7_ALT, ALU_SUB),
     (''sll'', F3_SLL, F7_DEFAULT, ALU_SLL), (''slt'', F3_SLT, F7_DEFAULT, ALU_SLT),
     (''sltu'', F3_SLTU, F7_DEFAULT, ALU_SLTU), (''xor'', F3_XOR, F7_DEFAULT, ALU_XOR),
     (''srl'', F3_SR, F7_DEFAULT, ALU_SRL), (''sra'', F3_SR, F7_ALT, ALU_SRA),
     (''or'', F3_OR, F7_DEFAULT, ALU_OR), (''and'', F3_AND, F7_DEFAULT, ALU_AND)]"

lemma reg_mnemonics_rows:
  "list_all (\<lambda>(op, f, f7, aop). map_of R_TABLE op = Some (F3Op_value f, f7) \<and> op \<notin> set directives \<and>
      (F3Op_value f \<in> {F3Op_value F3_ADD_SUB, F3Op_value F3_SR} \<longrightarrow> f7 \<in> {F7_DEFAULT, F7_ALT}) \<and>
      rtl_alu_op_reg (F3Op_value f) f7 = aop \<and> take_bit 7 f7 = f7) reg_mnemonics"
  by code_simp

lemma r_mnemonics_rows: "r_mnemonics = map (\<lambda>(op, f, f7, aop). (op, aop)) reg_mnemonics"
  by code_simp

lemma r_mnemonics_enc:
  assumes "(op, aop) \<in> set r_mnemonics" "ln_op ln = Some op"
  obtains f f7 where "encode_line ln syms = enc_r ln op (F3Op_value f, f7)"
    "legal_reg (F3Op_value f) f7" "rtl_alu_op_reg (F3Op_value f) f7 = aop" "take_bit 7 f7 = f7"
proof -
  obtain f f7 where row: "(op, f, f7, aop) \<in> set reg_mnemonics"
    using assms(1) by (auto simp: r_mnemonics_rows)
  note facts = reg_mnemonics_rows [unfolded list_all_iff, THEN bspec, OF row, simplified prod.case]
  have "encode_line ln syms = enc_r ln op (F3Op_value f, f7)"
    using facts assms(2) by (simp add: encode_line_def enc_insn_def directives_def)
  moreover have "legal_reg (F3Op_value f) f7"
    using facts F3Op_value_range [of f] by (simp add: legal_reg_def)
  ultimately show thesis using that facts by blast
qed

text \<open>C10. A register-register line, executed, sets its destination to the value the RTL's ALU computes
  for the mnemonic's operation on the two source registers, goes to the next word and changes
  nothing else.\<close>

theorem r_line_correct:
  assumes "(op, aop) \<in> set r_mnemonics" "ln_op ln = Some op" "encode_line ln syms = Inr ws"
    and "regs_ok c" "\<not> halted c" "holds_code c (pc c) ws" "0 \<le> pc c" "pc c + 4 < 2 ^ 32"
  shows "\<exists>rd rs1 rs2 c'. arg_reg ln 0 = Inr rd \<and> arg_reg ln 1 = Inr rs1 \<and> arg_reg ln 2 = Inr rs2 \<and>
           steps_n 1 c = Inr c' \<and>
           reg_effect 1 c c' (pc c + 4) rd (uint (rtl_alu aop (reg_word c rs1) (reg_word c rs2)))"
proof -
  obtain f f7 where enc: "encode_line ln syms = enc_r ln op (F3Op_value f, f7)"
    and f: "legal_reg (F3Op_value f) f7" "rtl_alu_op_reg (F3Op_value f) f7 = aop" "take_bit 7 f7 = f7"
    using r_mnemonics_enc [OF assms(1,2)] by blast
  obtain rd rs1 rs2 where args: "arg_reg ln 0 = Inr rd" "arg_reg ln 1 = Inr rs1" "arg_reg ln 2 = Inr rs2"
    and ws: "ws = [r_type (Opcode_value OP_REG) rd (F3Op_value f) rs1 rs2 f7]"
    using assms(3) unfolding enc enc_r_def by (auto simp: bindE_Inr_iff)
  have "\<exists>c'. steps_n 1 c = Inr c' \<and> reg_effect 1 c c' (u32 (pc c + 4)) rd
      (u32 (uint (rtl_alu aop (reg_word c rs1) (reg_word c rs2))))"
    using assms(4-6) args arg_reg_ok exec_reg_word [OF assms(4) _ _ _ f(1,3), of rd rs1 rs2 "pc c"]
    unfolding ws f(2) by (intro one_word_reg) auto
  then show ?thesis
    using args assms(7,8) by (simp add: u32_id u32_uint)
qed

section \<open>Register-immediate arithmetic\<close>

definition imm_mnemonics :: "(string \<times> F3Op \<times> AluOp) list" where
  "imm_mnemonics =
    [(''addi'', F3_ADD_SUB, ALU_ADD), (''slti'', F3_SLT, ALU_SLT), (''sltiu'', F3_SLTU, ALU_SLTU),
     (''xori'', F3_XOR, ALU_XOR), (''ori'', F3_OR, ALU_OR), (''andi'', F3_AND, ALU_AND)]"

definition shift_mnemonics :: "(string \<times> F3Op \<times> int \<times> AluOp) list" where
  "shift_mnemonics =
    [(''slli'', F3_SLL, F7_DEFAULT, ALU_SLL), (''srli'', F3_SR, F7_DEFAULT, ALU_SRL),
     (''srai'', F3_SR, F7_ALT, ALU_SRA)]"

lemma imm_mnemonics_rows:
  "list_all (\<lambda>(op, f, aop). map_of R_TABLE op = None \<and> map_of I_ALU_TABLE op = Some (F3Op_value f) \<and>
      op \<notin> set directives \<and> f \<noteq> F3_SR \<and> rtl_alu_op_imm (F3Op_value f) 0 = aop) imm_mnemonics"
  by code_simp

lemma shift_mnemonics_rows:
  "list_all (\<lambda>(op, f, f7, aop). map_of R_TABLE op = None \<and> map_of I_ALU_TABLE op = None \<and>
      op \<notin> set directives \<and> (op = ''slli'' \<or> op = ''srli'' \<or> op = ''srai'') \<and>
      (if op = ''slli'' then F3Op_value F3_SLL else F3Op_value F3_SR) = F3Op_value f \<and>
      (if op = ''srai'' then F7_ALT else F7_DEFAULT) = f7) shift_mnemonics"
  by code_simp

lemma i_mnemonics_rows:
  "i_mnemonics = map (\<lambda>(op, f, aop). (op, aop)) imm_mnemonics @
     map (\<lambda>(op, f, f7, aop). (op, aop)) shift_mnemonics"
  by code_simp

lemma i_mnemonics_split:
  "(op, aop) \<in> set i_mnemonics \<Longrightarrow>
     (\<exists>f. (op, f, aop) \<in> set imm_mnemonics) \<or> (\<exists>f f7. (op, f, f7, aop) \<in> set shift_mnemonics)"
  by (auto simp: i_mnemonics_rows)

lemma F3_SR_value: "F3Op_value f = 5 \<longleftrightarrow> f = F3_SR"
  by (cases f) simp_all

lemma imm_mnemonics_enc:
  assumes "(op, f, aop) \<in> set imm_mnemonics" "ln_op ln = Some op"
  shows "encode_line ln syms = enc_i_alu ln syms op (F3Op_value f)"
    and "legal_imm (F3Op_value f) f7" and "rtl_alu_op_imm (F3Op_value f) f7 = aop"
proof -
  note facts = imm_mnemonics_rows [unfolded list_all_iff, THEN bspec, OF assms(1), simplified prod.case]
  show "encode_line ln syms = enc_i_alu ln syms op (F3Op_value f)"
    using facts assms(2) by (simp add: encode_line_def enc_insn_def directives_def)
  show "legal_imm (F3Op_value f) f7"
    using facts F3Op_value_range [of f] by (simp add: legal_imm_def F3_SR_value)
  show "rtl_alu_op_imm (F3Op_value f) f7 = aop"
    using facts by (cases f) (auto simp: rtl_alu_op_imm_def)
qed

lemma shift_mnemonics_enc:
  assumes "(op, f, f7, aop) \<in> set shift_mnemonics" "ln_op ln = Some op"
  shows "encode_line ln syms = enc_shift ln syms op"
    and "(if op = ''slli'' then F3Op_value F3_SLL else F3Op_value F3_SR) = F3Op_value f"
    and "(if op = ''srai'' then F7_ALT else F7_DEFAULT) = f7"
    and "(f, f7, aop) \<in> {(F3_SLL, F7_DEFAULT, ALU_SLL), (F3_SR, F7_DEFAULT, ALU_SRL), (F3_SR, F7_ALT, ALU_SRA)}"
proof -
  note facts = shift_mnemonics_rows [unfolded list_all_iff, THEN bspec, OF assms(1), simplified prod.case]
  show "encode_line ln syms = enc_shift ln syms op"
    using facts assms(2) by (simp add: encode_line_def enc_insn_def directives_def)
  show "(if op = ''slli'' then F3Op_value F3_SLL else F3Op_value F3_SR) = F3Op_value f"
    and "(if op = ''srai'' then F7_ALT else F7_DEFAULT) = f7"
    using facts by blast+
  show "(f, f7, aop) \<in> {(F3_SLL, F7_DEFAULT, ALU_SLL), (F3_SR, F7_DEFAULT, ALU_SRL), (F3_SR, F7_ALT, ALU_SRA)}"
    using assms(1) by (auto simp: shift_mnemonics_def)
qed

lemma imm_line_correct:
  assumes "(op, f, aop) \<in> set imm_mnemonics" "ln_op ln = Some op" "encode_line ln syms = Inr ws"
    and "regs_ok c" "\<not> halted c" "holds_code c (pc c) ws" "0 \<le> pc c" "pc c + 4 < 2 ^ 32"
  shows "\<exists>rd rs1 v c'. arg_reg ln 0 = Inr rd \<and> arg_reg ln 1 = Inr rs1 \<and> arg_val ln syms 2 = Inr v \<and>
           steps_n 1 c = Inr c' \<and>
           reg_effect 1 c c' (pc c + 4) rd (uint (rtl_alu aop (reg_word c rs1) (word_of_int v)))"
proof -
  obtain rd rs1 v where args: "arg_reg ln 0 = Inr rd" "arg_reg ln 1 = Inr rs1" "arg_val ln syms 2 = Inr v"
    and v: "- 2048 \<le> v" "v < 2048"
    and ws: "ws = [i_type (Opcode_value OP_IMM) rd (F3Op_value f) rs1 (take_bit 12 v)]"
    using assms(3) unfolding imm_mnemonics_enc(1) [OF assms(1,2)] enc_i_alu_def
    by (auto simp: bindE_Inr_iff fit_s_def)
  have "\<exists>c'. steps_n 1 c = Inr c' \<and> reg_effect 1 c c' (u32 (pc c + 4)) rd
      (u32 (uint (rtl_alu aop (reg_word c rs1) (word_of_int v))))"
    using assms(4-6) args arg_reg_ok
      exec_imm_word [OF assms(4) _ _ v imm_mnemonics_enc(2) [OF assms(1,2)], of rd rs1 "pc c"]
    unfolding ws imm_mnemonics_enc(3) [OF assms(1,2)] by (intro one_word_reg) auto
  then show ?thesis
    using args assms(7,8) by (simp add: u32_id u32_uint)
qed

lemma shift_line_correct:
  assumes "(op, f, f7, aop) \<in> set shift_mnemonics" "ln_op ln = Some op" "encode_line ln syms = Inr ws"
    and "regs_ok c" "\<not> halted c" "holds_code c (pc c) ws" "0 \<le> pc c" "pc c + 4 < 2 ^ 32"
  shows "\<exists>rd rs1 v c'. arg_reg ln 0 = Inr rd \<and> arg_reg ln 1 = Inr rs1 \<and> arg_val ln syms 2 = Inr v \<and>
           steps_n 1 c = Inr c' \<and>
           reg_effect 1 c c' (pc c + 4) rd (uint (rtl_alu aop (reg_word c rs1) (word_of_int v)))"
proof -
  note enc = shift_mnemonics_enc [OF assms(1,2)]
  obtain rd rs1 v where args: "arg_reg ln 0 = Inr rd" "arg_reg ln 1 = Inr rs1" "arg_val ln syms 2 = Inr v"
    and v: "0 \<le> v" "v < 32"
    and ws: "ws = [r_type (Opcode_value OP_IMM) rd (F3Op_value f) rs1 v f7]"
    using assms(3) unfolding enc(1) enc_shift_def enc(2,3) by (auto simp: bindE_Inr_iff Let_def)
  have "\<exists>c'. steps_n 1 c = Inr c' \<and> reg_effect 1 c c' (u32 (pc c + 4)) rd
      (u32 (uint (rtl_alu aop (reg_word c rs1) (word_of_int v))))"
    using assms(4-6) args arg_reg_ok exec_shift_word [OF assms(4) _ _ v enc(4), of rd rs1 "pc c"]
    unfolding ws by (intro one_word_reg) auto
  then show ?thesis
    using args assms(7,8) by (simp add: u32_id u32_uint)
qed

text \<open>C11. A register-immediate line, shifts included, sets its destination to the value the RTL's ALU
  computes for the mnemonic's operation on the register and the operand as a 32-bit word.\<close>

theorem i_line_correct:
  assumes "(op, aop) \<in> set i_mnemonics" "ln_op ln = Some op" "encode_line ln syms = Inr ws"
    and "regs_ok c" "\<not> halted c" "holds_code c (pc c) ws" "0 \<le> pc c" "pc c + 4 < 2 ^ 32"
  shows "\<exists>rd rs1 v c'. arg_reg ln 0 = Inr rd \<and> arg_reg ln 1 = Inr rs1 \<and> arg_val ln syms 2 = Inr v \<and>
           steps_n 1 c = Inr c' \<and>
           reg_effect 1 c c' (pc c + 4) rd (uint (rtl_alu aop (reg_word c rs1) (word_of_int v)))"
  using i_mnemonics_split [OF assms(1)] imm_line_correct [OF _ assms(2-8)]
    shift_line_correct [OF _ assms(2-8)] by blast

end
