(* ===== verification/Asm_Program.thy ===== *)
theory Asm_Program
  imports Asm_Placement Asm_Correct
begin

text \<open>
  From source text to code in the emulator's memory: no line overwrites another in the image, and
  after \<open>load_program\<close> the words of every line are fetched at the line's address.
\<close>

section \<open>Disjoint lines\<close>

definition apart :: "Line \<Rightarrow> Line \<Rightarrow> bool" where
  "apart l m \<longleftrightarrow> ln_pc l + ln_size l \<le> ln_pc m \<or> ln_pc m + ln_size m \<le> ln_pc l"

fun disjoint_lines :: "Line list \<Rightarrow> bool" where
  "disjoint_lines [] = True"
| "disjoint_lines (ln # lns) = ((\<forall>l \<in> set lns. apart ln l) \<and> disjoint_lines lns)"

lemma chain_bounds:
  "chain a lns b \<Longrightarrow> a \<le> b \<and> (\<forall>ln \<in> set lns. a \<le> ln_pc ln \<and> ln_pc ln + ln_size ln \<le> b)"
  by (induction a lns b rule: chain.induct) fastforce+

lemma p1_lines_bounds:
  assumes "p1_lines lns s = Inr (lns', s')"
  shows "p1_pc s sec \<le> p1_pc s' sec"
    and "ln \<in> set lns' \<Longrightarrow> ln_section ln = sec \<Longrightarrow>
      p1_pc s sec \<le> ln_pc ln \<and> ln_pc ln + ln_size ln \<le> p1_pc s' sec"
  using chain_bounds [OF p1_lines_chain [OF assms, of sec]] by (auto simp: in_section_def)

text \<open>The text lines end where the data lines begin, at the latest.\<close>

definition text_before_data :: "Line list \<Rightarrow> int \<Rightarrow> bool" where
  "text_before_data lns db \<longleftrightarrow> (\<forall>ln \<in> set lns. ln_section ln = ''text'' \<longrightarrow> ln_pc ln + ln_size ln \<le> db)"

lemma p1_lines_disjoint:
  assumes "p1_lines lns s = Inr (lns', s')" "p1_current s \<in> {''text'', ''data''}"
    and "text_before_data lns' (p1_pc s ''data'')"
  shows "disjoint_lines lns'"
  using assms
proof (induction lns arbitrary: s lns')
  case (Cons l lns)
  obtain l' s1 rest where l: "p1_line l s = Inr (l', s1)" and r: "p1_lines lns s1 = Inr (rest, s')"
    and out: "lns' = l' # rest"
    using Cons.prems(1) by (rule p1_lines_Cons)
  note st = p1_line_step [OF l]
  have cur: "p1_current s1 \<in> {''text'', ''data''}"
    using st Cons.prems(2) by auto
  have mono: "p1_pc s sec \<le> p1_pc s1 sec" for sec
    using st by simp
  have "apart l' m" if m: "m \<in> set rest" for m
  proof -
    have after: "p1_pc s1 (ln_section m) \<le> ln_pc m"
      using p1_lines_bounds(2) [OF r m refl] by simp
    have start: "ln_pc l' = p1_pc s (ln_section l')" and stop: "p1_pc s1 (ln_section l') = ln_pc l' + ln_size l'"
      using st by simp_all
    have "ln_section l' \<in> {''text'', ''data''}" "ln_section m \<in> {''text'', ''data''}"
      using st(6) cur p1_lines_sections [OF r cur m] by simp_all
    then consider "ln_section m = ln_section l'" | "ln_section l' = ''text''" "ln_section m = ''data''"
      | "ln_section l' = ''data''" "ln_section m = ''text''"
      by auto
    then show ?thesis
    proof cases
      case 1
      with after stop show ?thesis by (simp add: apart_def)
    next
      case 2
      with after mono [of "''data''"] Cons.prems(3) show ?thesis
        unfolding apart_def text_before_data_def out by simp
    next
      case 3
      with start m Cons.prems(3) show ?thesis unfolding apart_def text_before_data_def out by simp
    qed
  qed
  moreover have "disjoint_lines rest"
    using Cons.IH [OF r cur] Cons.prems(3) mono [of "''data''"]
    by (auto simp: out text_before_data_def intro: order_trans)
  ultimately show ?case by (simp add: out)
qed simp

section \<open>The default data base lies behind the text\<close>

lemma align_up_shift:
  assumes "4096 dvd b" "n \<le> 12"
  shows "align_up (b + x) (push_bit n 1) = b + align_up x (push_bit n 1)"
proof -
  have "(2 :: int) ^ n dvd 2 ^ 12"
    by (rule le_imp_power_dvd [OF assms(2)])
  then have "2 ^ n dvd b"
    using assms(1) by (auto intro: dvd_trans)
  then have "(b + x + 2 ^ n - 1) mod 2 ^ n = (x + 2 ^ n - 1) mod 2 ^ n"
    by (metis (no_types) add_diff_eq add.assoc mod_add_left_eq add_0 dvd_imp_mod_0)
  then show ?thesis
    by (simp only: align_up_def push_bit_of_1 and_not_mask)
qed

lemma size_line_follows:
  assumes "size_line l (sizes, p1_current s) = Inr (sizes1, cur1)" "p1_line l s = Inr (ln', s1)"
    and "4096 dvd b" "p1_pc s ''text'' = b + sizes ''text''"
  shows "p1_current s1 = cur1" "p1_pc s1 ''text'' = b + sizes1 ''text''"
proof -
  obtain s0 where lab: "p1_label l s = Inr s0" and op: "p1_op l s0 = Inr (ln', s1)"
    using assms(2) by (auto simp: p1_line_def bindE_Inr_iff)
  note same = p1_label_step [OF lab]
  show "p1_current s1 = cur1"
    using assms(1) op same
    by (auto simp: size_line_def p1_op_def p1_place_def p1_switch_def p1_fail_def Let_def bindE_Inr_iff
        split: option.splits if_splits)
  show "p1_pc s1 ''text'' = b + sizes1 ''text''"
    using assms(1,4) op same align_up_shift [OF assms(3)]
    by (auto simp: size_line_def p1_op_def p1_place_def p1_switch_def p1_fail_def Let_def bindE_Inr_iff
        nat_le_iff split: option.splits if_splits)
qed
lemma size_lines_text:
  "size_lines lns (sizes, p1_current s) = Inr (sizes1, cur1) \<Longrightarrow> p1_lines lns s = Inr (lns', s') \<Longrightarrow>
     4096 dvd b \<Longrightarrow> p1_pc s ''text'' = b + sizes ''text'' \<Longrightarrow> p1_pc s' ''text'' = b + sizes1 ''text''"
proof (induction lns arbitrary: s lns' sizes)
  case (Cons l lns)
  obtain l' s2 rest where l: "p1_line l s = Inr (l', s2)" and r: "p1_lines lns s2 = Inr (rest, s')"
    using Cons.prems(2) by (rule p1_lines_Cons)
  obtain sizes2 cur2 where z: "size_line l (sizes, p1_current s) = Inr (sizes2, cur2)"
    and zs: "size_lines lns (sizes2, cur2) = Inr (sizes1, cur1)"
    using Cons.prems(1) by (auto simp: bindE_Inr_iff)
  note next2 = size_line_follows [OF z l Cons.prems(3,4)]
  show ?case
    using Cons.IH [OF _ r Cons.prems(3)] zs next2 by simp
qed simp

section \<open>What the image holds\<close>

definition has_byte :: "image \<Rightarrow> int \<Rightarrow> bool" where
  "has_byte im a \<longleftrightarrow> map_of im a \<noteq> None"

fun image_holds :: "image \<Rightarrow> int \<Rightarrow> int list \<Rightarrow> bool" where
  "image_holds im a [] = True"
| "image_holds im a (w # ws) =
     (le_read image_get 4 a im = take_bit 32 w \<and> (\<forall>j < 4. has_byte im (a + int j)) \<and>
      image_holds im (a + 4) ws)"

fun image_bytes :: "image \<Rightarrow> int \<Rightarrow> int list \<Rightarrow> bool" where
  "image_bytes im a [] = True"
| "image_bytes im a (b # bs) =
     (image_get im a = take_bit 8 b \<and> has_byte im a \<and> image_bytes im (a + 1) bs)"

text \<open>A line's output is in place: single bytes for \<open>.byte\<close>, words for the rest.\<close>

definition line_held :: "image \<Rightarrow> Line \<Rightarrow> int list \<Rightarrow> bool" where
  "line_held im ln out =
     (if ln_op ln = Some ''.byte'' then image_bytes im (ln_pc ln) out
      else image_holds im (ln_pc ln) out)"

lemma has_byte_put [simp]: "has_byte (emit_byte a v im) b \<longleftrightarrow> b = a \<or> has_byte im b"
  by (simp add: has_byte_def emit_byte_def update_conv')

lemma has_byte_write: "has_byte im b \<Longrightarrow> has_byte (le_write emit_byte n a v im) b"
  by (induction n arbitrary: a v im) simp_all

lemma has_byte_written: "j < n \<Longrightarrow> has_byte (le_write emit_byte n a v im) (a + int j)"
proof (induction n arbitrary: a v im j)
  case (Suc n)
  show ?case
  proof (cases j)
    case 0
    then show ?thesis by (simp add: has_byte_write)
  next
    case (Suc i)
    then show ?thesis
      using Suc.IH [of i "a + 1" "drop_bit 8 v" "emit_byte a v im"] Suc.prems by (simp add: algebra_simps)
  qed
qed simp

text \<open>Writes elsewhere do not matter.\<close>

definition same_on :: "int \<Rightarrow> int \<Rightarrow> image \<Rightarrow> image \<Rightarrow> bool" where
  "same_on a n im im' \<longleftrightarrow>
     (\<forall>b. a \<le> b \<and> b < a + n \<longrightarrow> image_get im' b = image_get im b \<and> (has_byte im b \<longrightarrow> has_byte im' b))"

lemma same_on_refl [simp]: "same_on a n im im"
  by (simp add: same_on_def)

lemma same_on_trans: "same_on a n im im1 \<Longrightarrow> same_on a n im1 im2 \<Longrightarrow> same_on a n im im2"
  by (simp add: same_on_def)

lemma same_on_part: "same_on a n im im' \<Longrightarrow> a \<le> b \<Longrightarrow> b + m \<le> a + n \<Longrightarrow> same_on b m im im'"
  by (simp add: same_on_def)

lemma image_holds_same:
  "same_on a (4 * int (length ws)) im im' \<Longrightarrow> image_holds im a ws \<Longrightarrow> image_holds im' a ws"
proof (induction ws arbitrary: a)
  case (Cons w ws)
  have four: "image_get im' (a + int k) = image_get im (a + int k)" "has_byte im' (a + int k)" if "k < 4" for k
    using Cons.prems that by (auto simp: same_on_def)
  have "le_read image_get 4 a im' = le_read image_get 4 a im"
    by (rule asm_image.le_read_cong) (use four(1) in blast)
  moreover have "same_on (a + 4) (4 * int (length ws)) im im'"
    using Cons.prems(1) by (rule same_on_part) simp_all
  ultimately show ?case
    using Cons.IH [of "a + 4"] Cons.prems(2) four(2) by simp
qed simp

lemma image_bytes_same:
  "same_on a (int (length bs)) im im' \<Longrightarrow> image_bytes im a bs \<Longrightarrow> image_bytes im' a bs"
proof (induction bs arbitrary: a)
  case (Cons b bs)
  have "same_on (a + 1) (int (length bs)) im im'"
    using Cons.prems(1) by (rule same_on_part) simp_all
  moreover have "image_get im' a = image_get im a" "has_byte im' a"
    using Cons.prems by (auto simp: same_on_def)
  ultimately show ?case
    using Cons by simp
qed simp

lemma line_held_same: "same_on (ln_pc ln) (emitted ln out) im im' \<Longrightarrow> line_held im ln out \<Longrightarrow> line_held im' ln out"
  by (auto simp: line_held_def emitted_def image_holds_same image_bytes_same split: if_splits)

section \<open>Emitting\<close>

lemma emit_byte_apart: "b + 1 \<le> a \<or> a + n \<le> b \<Longrightarrow> same_on a n im (emit_byte b v im)"
  by (auto simp: same_on_def asm_image.get_put)

lemma emit_bytes_apart:
  "b + int (length bs) \<le> a \<or> a + n \<le> b \<Longrightarrow> same_on a n im (emit_bytes b bs im)"
proof (induction bs arbitrary: b im)
  case (Cons v bs)
  have "same_on a n im (emit_byte b v im)"
    using Cons.prems by (intro emit_byte_apart) auto
  moreover have "same_on a n (emit_byte b v im) (emit_bytes (b + 1) bs (emit_byte b v im))"
    using Cons.prems by (intro Cons.IH) auto
  ultimately show ?case by (auto intro: same_on_trans)
qed simp

lemma emit_word_apart: "b + 4 \<le> a \<or> a + n \<le> b \<Longrightarrow> same_on a n im (emit_word b w im)"
  using asm_image.get_le_write_other [of im b 4]
  by (auto simp: same_on_def emit_word_le has_byte_write asm_image.inside_n_def)

lemma emit_words_apart:
  "b + 4 * int (length ws) \<le> a \<or> a + n \<le> b \<Longrightarrow> same_on a n im (emit_words b ws im)"
proof (induction ws arbitrary: b im)
  case (Cons w ws)
  have "same_on a n im (emit_word b w im)"
    using Cons.prems by (intro emit_word_apart) auto
  moreover have "same_on a n (emit_word b w im) (emit_words (b + 4) ws (emit_word b w im))"
    using Cons.prems by (intro Cons.IH) auto
  ultimately show ?case by (auto intro: same_on_trans)
qed simp

lemma emit_bytes_held: "image_bytes (emit_bytes a bs im) a bs"
proof (induction bs arbitrary: a im)
  case (Cons b bs)
  have "same_on a 1 (emit_byte a b im) (emit_bytes (a + 1) bs (emit_byte a b im))"
    by (rule emit_bytes_apart) simp
  then have "image_get (emit_bytes (a + 1) bs (emit_byte a b im)) a = image_get (emit_byte a b im) a"
      "has_byte (emit_bytes (a + 1) bs (emit_byte a b im)) a"
    by (simp_all add: same_on_def)
  then show ?case using Cons.IH by (simp add: asm_image.get_put)
qed simp

lemma emit_word_held: "image_holds (emit_word a w im) a [w]"
  using asm_image.le_read_write [of im a 4 w]
  by (simp add: emit_word_le has_byte_written asm_image.inside_n_def)

lemma emit_words_held: "image_holds (emit_words a ws im) a ws"
proof (induction ws arbitrary: a im)
  case (Cons w ws)
  have "same_on a (4 * int (length [w])) (emit_word a w im) (emit_words (a + 4) ws (emit_word a w im))"
    by (rule emit_words_apart) simp
  then have "image_holds (emit_words (a + 4) ws (emit_word a w im)) a [w]"
    using emit_word_held by (rule image_holds_same)
  then show ?case using Cons.IH by simp
qed simp

lemma emit_line_held: "line_held (emit_line ln out im) ln out"
  by (simp add: line_held_def emit_line_def emit_bytes_held emit_words_held)

lemma emit_line_apart:
  "ln_pc ln + emitted ln out \<le> a \<or> a + n \<le> ln_pc ln \<Longrightarrow> same_on a n im (emit_line ln out im)"
  by (auto simp: emit_line_def emitted_def intro!: emit_bytes_apart emit_words_apart)

lemma emit_lines_apart:
  assumes "emit_lines lns syms im = Inr im'" "\<forall>l \<in> set lns. reserved_enough l"
    and "\<forall>l \<in> set lns. ln_pc l + ln_size l \<le> a \<or> a + n \<le> ln_pc l"
  shows "same_on a n im im'"
  using assms
proof (induction lns arbitrary: im)
  case (Cons l lns)
  obtain out where enc: "encode_line l syms = Inr out"
    and rest: "emit_lines lns syms (emit_line l out im) = Inr im'"
    using Cons.prems(1) by (auto simp: bindE_Inr_iff)
  have "emitted l out \<le> ln_size l"
    using Cons.prems(2) enc by (auto simp: reserved_enough_def)
  then have "same_on a n im (emit_line l out im)"
    using Cons.prems(3) by (intro emit_line_apart) auto
  then show ?case
    using Cons.IH [OF rest] Cons.prems(2,3) by (auto intro: same_on_trans)
qed simp

lemma emit_lines_encoded:
  "emit_lines lns syms im = Inr im' \<Longrightarrow> ln \<in> set lns \<Longrightarrow> \<exists>out. encode_line ln syms = Inr out"
  by (induction lns arbitrary: im) (auto simp: bindE_Inr_iff)

text \<open>Whatever a line emits is still there at the end.\<close>

lemma emit_lines_held:
  assumes "emit_lines lns syms im = Inr im'" "\<forall>l \<in> set lns. reserved_enough l" "disjoint_lines lns"
    and "ln \<in> set lns"
  shows "\<exists>out. encode_line ln syms = Inr out \<and> line_held im' ln out"
  using assms
proof (induction lns arbitrary: im)
  case (Cons l lns)
  obtain out where enc: "encode_line l syms = Inr out"
    and rest: "emit_lines lns syms (emit_line l out im) = Inr im'"
    using Cons.prems(1) by (auto simp: bindE_Inr_iff)
  show ?case
  proof (cases "ln \<in> set lns")
    case True
    then show ?thesis using Cons.IH [OF rest] Cons.prems(2,3) by simp
  next
    case False
    then have ln: "ln = l" using Cons.prems(4) by simp
    have size: "emitted l out \<le> ln_size l"
      using Cons.prems(2) enc by (auto simp: reserved_enough_def)
    have "same_on (ln_pc l) (emitted l out) (emit_line l out im) im'"
      using rest Cons.prems(2,3) size by (intro emit_lines_apart) (auto simp: apart_def)
    then show ?thesis
      unfolding ln using enc emit_line_held by (blast intro: line_held_same)
  qed
qed simp

lemma emit_line_ok: "image_ok im \<Longrightarrow> image_ok (emit_line ln out im)"
proof -
  have "image_ok (emit_bytes a bs im)" if "image_ok im" for a bs im
    using that by (induction bs arbitrary: a im) (simp_all add: emit_byte_ok)
  moreover have "image_ok (emit_words a ws im)" if "image_ok im" for a ws im
    using that by (induction ws arbitrary: a im) (simp_all add: emit_word_le le_write_ok)
  ultimately show "image_ok im \<Longrightarrow> image_ok (emit_line ln out im)"
    by (simp add: emit_line_def)
qed

lemma emit_lines_ok: "emit_lines lns syms im = Inr im' \<Longrightarrow> image_ok im \<Longrightarrow> image_ok im'"
  by (induction lns arbitrary: im) (auto simp: bindE_Inr_iff emit_line_ok)

end
