(* ===== verification/Asm_Load.thy ===== *)
theory Asm_Load
  imports Asm_Program
begin

text \<open>
  The layout theorem for \<open>assemble\<close>, and the program in the emulator's memory after
  \<open>load_program\<close>.
\<close>

section \<open>Everything pass 2 emits is a 32-bit word\<close>

definition words_ok :: "int list \<Rightarrow> bool" where
  "words_ok ws \<longleftrightarrow> list_all (\<lambda>w. 0 \<le> w \<and> w < 2 ^ 32) ws"

named_theorems enc_words \<open>the words an encoder returns\<close>

lemma enc_words_real [enc_words]:
  "enc_r ln op f = Inr ws \<Longrightarrow> words_ok ws"
  "enc_i_alu ln syms op f3 = Inr ws \<Longrightarrow> words_ok ws"
  "enc_shift ln syms op = Inr ws \<Longrightarrow> words_ok ws"
  "enc_load ln syms op f3 = Inr ws \<Longrightarrow> words_ok ws"
  "enc_store ln syms op f3 = Inr ws \<Longrightarrow> words_ok ws"
  "enc_branch ln syms op f3 = Inr ws \<Longrightarrow> words_ok ws"
  "enc_upper ln syms op = Inr ws \<Longrightarrow> words_ok ws"
  using packed_range
  by (auto simp: enc_r_def enc_i_alu_def enc_shift_def enc_load_def enc_store_def enc_branch_def
      enc_upper_def asm_fail_def bindE_Inr_iff Let_def words_ok_def simp del: Opcode_value.simps split: if_splits)

lemma enc_words_jumps [enc_words]:
  "enc_jal ln syms = Inr ws \<Longrightarrow> words_ok ws"
  "enc_jalr ln syms = Inr ws \<Longrightarrow> words_ok ws"
  "enc_j ln syms = Inr ws \<Longrightarrow> words_ok ws"
  "enc_jr ln = Inr ws \<Longrightarrow> words_ok ws"
  "enc_ret ln = Inr ws \<Longrightarrow> words_ok ws"
  "enc_branch_zero ln syms op f3 = Inr ws \<Longrightarrow> words_ok ws"
  using packed_range
  by (auto simp: enc_jal_def enc_jalr_def enc_j_def enc_jr_def enc_ret_def
      enc_branch_zero_def asm_fail_def bindE_Inr_iff Let_def words_ok_def split: if_splits prod.splits)

lemma enc_words_two [enc_words]:
  "enc_li ln syms = Inr ws \<Longrightarrow> words_ok ws"
  "enc_la ln syms = Inr ws \<Longrightarrow> words_ok ws"
  "enc_call ln syms = Inr ws \<Longrightarrow> words_ok ws"
  "enc_fixed op = Some ws \<Longrightarrow> words_ok ws"
  using packed_range
  by (auto simp: enc_li_def enc_la_def enc_call_def li_words_def la_words_def call_words_def nop_word_def
      enc_fixed_def bindE_Inr_iff case_prod_beta' Let_def words_ok_def split: if_splits)

lemma nop_word_ok: "words_ok [nop_word]"
  using packed_range by (simp add: words_ok_def nop_word_def)

lemma enc_two_regs_words:
  "enc_two_regs ln op mk = Inr ws \<Longrightarrow> (\<And>rd rs. words_ok [mk rd rs]) \<Longrightarrow> words_ok ws"
  by (auto simp: enc_two_regs_def bindE_Inr_iff)

lemma enc_pseudo_words:
  assumes "enc_pseudo ln syms op = Inr ws"
  shows "words_ok ws"
proof -
  have one: "words_ok [i_type opcode rd f3 rs1 imm]" "words_ok [r_type opcode rd f3 rs1 rs2 f7]"
    for opcode rd f3 rs1 imm rs2 f7
    using packed_range by (simp_all add: words_ok_def)
  from assms show ?thesis
    unfolding enc_pseudo_def Let_def
    by (elim dispatch_ifE)
      (erule enc_words | (erule enc_two_regs_words, rule one) | (simp add: nop_word_ok asm_fail_def; fail)
        | (auto simp: nop_word_ok)[1])+
qed

lemma enc_insn_words:
  assumes "enc_insn ln syms op = Inr ws"
  shows "words_ok ws"
  using assms unfolding enc_insn_def
  by (elim dispatch_optionE dispatch_ifE) (erule enc_pseudo_words enc_words | (drule enc_words, simp))+

lemma encode_line_words:
  assumes "encode_line ln syms = Inr ws" "ln_op ln \<noteq> Some ''.byte''"
  shows "words_ok ws"
proof (cases "ln_op ln")
  case (Some op)
  have data: "words_ok ws" if "enc_data ln syms 0xFFFFFFFF = Inr ws"
    using that unfolding enc_data_def words_ok_def 
      by (rule mapE_all) (use take_bit_range [of 32] in \<open>auto simp: bindE_Inr_iff mask_simps\<close>)
  with Some assms enc_insn_words [of ln syms op ws] show ?thesis
    by (auto simp: encode_line_def words_ok_def split: if_splits)
qed (use assms in \<open>simp add: encode_line_def words_ok_def\<close>)

section \<open>The layout of an assembled program\<close>

text \<open>The placed lines and the symbols of a program, with the data base \<open>assemble\<close> computes.\<close>

definition placed :: "string \<Rightarrow> int \<Rightarrow> int option \<Rightarrow> asm_exn + Line list \<times> syms" where
  "placed source text_base data_base =
     (let lines = tokenize source in
      case data_base of
        Some db \<Rightarrow> pass1 lines text_base db
      | None \<Rightarrow> bindE (default_data_base lines text_base) (pass1 lines text_base))"

lemma assemble_image_placed:
  assumes "assemble_image source tb dbo = Inr im"
  obtains sizes cur lns s syms where
    "size_lines (tokenize source) (\<lambda>_. 0, ''text'') = Inr (sizes, cur)"
    "p1_lines (tokenize source) (p1_init tb (case dbo of None \<Rightarrow> tb + align_up (sizes ''text'') 4 | Some b \<Rightarrow> b))
       = Inr (lns, s)"
    "placed source tb dbo = Inr (lns, p1_syms s)" "emit_lines lns (p1_syms s) [] = Inr im"
  using assms
  by (cases dbo) (auto simp: assemble_image_def placed_def default_data_base_def pass1_def
      bindE_Inr_iff Let_def)

text \<open>The data base in effect.\<close>

definition data_base_of :: "string \<Rightarrow> int \<Rightarrow> int option \<Rightarrow> asm_exn + int" where
  "data_base_of source text_base data_base =
     (case data_base of Some db \<Rightarrow> Inr db | None \<Rightarrow> default_data_base (tokenize source) text_base)"

lemma assemble_image_ok:
  assumes "assemble_image source tb dbo = Inr im"
  shows "image_ok im"
proof -
  obtain lns syms where "emit_lines lns syms [] = Inr im"
    using assemble_image_placed [OF assms] by metis
  from emit_lines_ok [OF this] show ?thesis
    by (simp add: image_ok_def)
qed

lemma default_base_behind_text:
  assumes "size_lines lines (\<lambda>_. 0, ''text'') = Inr (sizes, cur)"
    and "p1_lines lines (p1_init tb db) = Inr (lns, s)" "4096 dvd tb"
  shows "p1_pc s ''text'' = tb + sizes ''text''"
  using size_lines_text [of lines "\<lambda>_. 0" "p1_init tb db" sizes cur lns s tb] assms
  by (simp add: p1_init_def)

lemma align_up_4: "x \<le> align_up x 4"
  using align_up_ge [of x 2] by simp

lemma placed_reserved: "placed source tb dbo = Inr (lns, syms) \<Longrightarrow> ln \<in> set lns \<Longrightarrow> reserved_enough ln"
  using p1_lines_size by (auto simp: placed_def pass1_def bindE_Inr_iff Let_def split: option.splits)

lemma layout_lemma:
  assumes "assemble_image source tb dbo = Inr im"
  obtains lns syms db where "placed source tb dbo = Inr (lns, syms)" "data_base_of source tb dbo = Inr db"
    "text_before_data lns db \<longrightarrow> disjoint_lines lns" "dbo = None \<and> 4096 dvd tb \<longrightarrow> text_before_data lns db"
    "\<forall>ln \<in> set lns. \<exists>out. encode_line ln syms = Inr out"
    "disjoint_lines lns \<longrightarrow> (\<forall>ln \<in> set lns. \<exists>out. encode_line ln syms = Inr out \<and> line_held im ln out)"
proof -
  obtain sizes cur lns s where z: "size_lines (tokenize source) (\<lambda>_. 0, ''text'') = Inr (sizes, cur)"
    and p: "p1_lines (tokenize source) (p1_init tb (case dbo of None \<Rightarrow> tb + align_up (sizes ''text'') 4 | Some b \<Rightarrow> b))
      = Inr (lns, s)"
    and pl: "placed source tb dbo = Inr (lns, p1_syms s)" and e: "emit_lines lns (p1_syms s) [] = Inr im"
    using assemble_image_placed [OF assms] .
  define db where "db = (case dbo of None \<Rightarrow> tb + align_up (sizes ''text'') 4 | Some b \<Rightarrow> b)"
  note p = p [folded db_def]
  have "data_base_of source tb dbo = Inr db"
    using z by (simp add: data_base_of_def default_data_base_def db_def split: option.split)
  moreover have "disjoint_lines lns" if "text_before_data lns db"
    using p1_lines_disjoint [OF p] that by (simp add: p1_init_def)
  moreover have "text_before_data lns db" if "dbo = None" "4096 dvd tb"
    using p1_lines_bounds(2) [OF p] default_base_behind_text [OF z p that(2)] align_up_4 [of "sizes ''text''"] that(1)
    by (fastforce simp: text_before_data_def db_def)
  moreover have "\<exists>out. encode_line ln (p1_syms s) = Inr out \<and> line_held im ln out"
    if "disjoint_lines lns" "ln \<in> set lns" for ln
    using emit_lines_held [OF e _ that] placed_reserved [OF pl] by blast
  ultimately show thesis
    using that [OF pl] emit_lines_encoded [OF e] by blast
qed

section \<open>In the emulator's memory\<close>

lemma load_program_bytes:
  assumes "load_program data (Some base) c0 = Inr c" "base \<le> a" "a < base + int (length data)"
  shows "mem_get (mem c) (a - mem_base c) = data ! nat (a - base)"
    and "mem_base c \<le> a" "a < mem_base c + int (length (mem c))"
proof -
  obtain k where k: "a = base + int k" "k < length data"
    using assms(2,3) that [of "nat (a - base)"] by simp
  define off where "off = nat (base - mem_base c0)"
  have c: "c = c0\<lparr>mem := take off (mem c0) @ data @ drop (off + length data) (mem c0)\<rparr>"
    and off: "base = mem_base c0 + int off" "off + length data \<le> length (mem c0)"
    using assms(1) by (auto simp: load_program_def Let_def off_def nat_add_distrib split: if_splits)
  show "mem_get (mem c) (a - mem_base c) = data ! nat (a - base)"
    using k off by (simp add: c mem_get_def nth_append nat_add_distrib nat_diff_distrib)
  show "mem_base c \<le> a" "a < mem_base c + int (length (mem c))"
    using k off by (simp_all add: c)
qed

text \<open>Memory and image agree on the bytes the image has.\<close>

lemma loaded_image:
  assumes "load_program (words_bytes (pack_image im)) (Some (image_lo im)) c0 = Inr c" "image_ok im"
    and "has_byte im a"
  shows "mem_get (mem c) (a - mem_base c) = image_get im a"
    and "mem_base c \<le> a" "a < mem_base c + int (length (mem c))"
proof -
  have span: "image_lo im \<le> a" "a < image_lo im + 4 * int (length (pack_image im))"
    using assms(3) pack_image_span [of im a] by (auto simp: has_byte_def)
  note b = load_program_bytes [OF assms(1), of a]
  show "mem_get (mem c) (a - mem_base c) = image_get im a"
    using b(1) span words_bytes_image [OF assms(2) span] by simp
  show "mem_base c \<le> a" "a < mem_base c + int (length (mem c))"
    using b(2,3) span by simp_all
qed

lemma holds_code_image:
  assumes agree: "\<And>a. has_byte im a \<Longrightarrow> mem_get (mem c) (a - mem_base c) = image_get im a \<and>
      mem_base c \<le> a \<and> a < mem_base c + int (length (mem c))"
  shows "image_holds im a ws \<Longrightarrow> words_ok ws \<Longrightarrow> 4 dvd a \<Longrightarrow> holds_code c a ws"
proof (induction ws arbitrary: a)
  case (Cons w ws)
  have has: "has_byte im (a + int j)" if "j < 4" for j
    using Cons.prems(1) that by simp
  have "le_read mem_get 4 (a - mem_base c) (mem c) = le_read image_get 4 a im"
    using agree [OF has [of 0]] agree [OF has [of 1]] agree [OF has [of 2]] agree [OF has [of 3]]
    by (simp add: eval_nat_numeral algebra_simps)
  also have "\<dots> = w"
    using Cons.prems by (simp add: words_ok_def take_bit_id)
  finally have "fetch c a = Inr w"
    using agree [OF has [of 0]] agree [OF has [of 3]] Cons.prems(3)
    by (simp add: fetch_word access_ok_def)
  then show ?case
    using Cons by (simp add: fetches_def words_ok_def)
qed simp

section \<open>The whole program\<close>

text \<open>C20. Layout, for every source and every pair of bases: each line has reserved at least the bytes it emits;
  if the text lines end before the data base, no two lines overlap; the default data base is such a base when the text
  base is a multiple of 4096, the largest alignment \<open>.align\<close> accepts; and where no two lines overlap, the finished image
  still holds, at the address of each line, exactly the bytes or words \<open>encode_line\<close> returned for it under the final symbol
  table.\<close>

theorem assembled_layout:
  assumes "assemble_image source tb dbo = Inr im"
  shows "\<exists>lns syms db. placed source tb dbo = Inr (lns, syms) \<and> data_base_of source tb dbo = Inr db \<and>
    (\<forall>ln \<in> set lns. \<exists>out. encode_line ln syms = Inr out \<and> emitted ln out \<le> ln_size ln) \<and>
    (text_before_data lns db \<longrightarrow> disjoint_lines lns) \<and>
    (dbo = None \<and> 4096 dvd tb \<longrightarrow> text_before_data lns db) \<and>
    (disjoint_lines lns \<longrightarrow> (\<forall>ln \<in> set lns. \<exists>out. encode_line ln syms = Inr out \<and> line_held im ln out))"
proof -
  obtain lns syms db where lay: "placed source tb dbo = Inr (lns, syms)" "data_base_of source tb dbo = Inr db"
    "text_before_data lns db \<longrightarrow> disjoint_lines lns" "dbo = None \<and> 4096 dvd tb \<longrightarrow> text_before_data lns db"
    "\<forall>ln \<in> set lns. \<exists>out. encode_line ln syms = Inr out"
    "disjoint_lines lns \<longrightarrow> (\<forall>ln \<in> set lns. \<exists>out. encode_line ln syms = Inr out \<and> line_held im ln out)"
    by (rule layout_lemma [OF assms])
  have "\<exists>out. encode_line ln syms = Inr out \<and> emitted ln out \<le> ln_size ln" if "ln \<in> set lns" for ln
    using bspec [OF lay(5) that] placed_reserved [OF lay(1) that] by (auto simp: reserved_enough_def)
  with lay show ?thesis by blast
qed

text \<open>C1. End to end, for every source, text base and data base: assemble the source, pack the image into words, turn
  the words into bytes as the test benches do and load them where the image starts. If no two placed lines overlap, the
  CPU then fetches, at the address of every word-aligned instruction or \<open>.word\<close> line, exactly the words of that
  line. With the default data base and a text base that is a multiple of 4096 no two lines overlap.\<close>

theorem assembled_code_loaded:
  assumes "assemble_image source tb dbo = Inr im"
    and "load_program (words_bytes (pack_image im)) (Some (image_lo im)) c0 = Inr c"
  shows "\<exists>lns syms. placed source tb dbo = Inr (lns, syms) \<and>
    (dbo = None \<and> 4096 dvd tb \<longrightarrow> disjoint_lines lns) \<and>
    (disjoint_lines lns \<longrightarrow> (\<forall>ln \<in> set lns. ln_op ln \<noteq> Some ''.byte'' \<longrightarrow> 4 dvd ln_pc ln \<longrightarrow>
      (\<exists>out. encode_line ln syms = Inr out \<and> holds_code c (ln_pc ln) out)))"
proof -
  obtain lns syms db where lay: "placed source tb dbo = Inr (lns, syms)" "data_base_of source tb dbo = Inr db"
    "text_before_data lns db \<longrightarrow> disjoint_lines lns" "dbo = None \<and> 4096 dvd tb \<longrightarrow> text_before_data lns db"
    "\<forall>ln \<in> set lns. \<exists>out. encode_line ln syms = Inr out"
    "disjoint_lines lns \<longrightarrow> (\<forall>ln \<in> set lns. \<exists>out. encode_line ln syms = Inr out \<and> line_held im ln out)"
    by (rule layout_lemma [OF assms(1)])
  have "\<exists>out. encode_line ln syms = Inr out \<and> holds_code c (ln_pc ln) out"
    if ln: "disjoint_lines lns" "ln \<in> set lns" "ln_op ln \<noteq> Some ''.byte''" "4 dvd ln_pc ln" for ln
  proof -
    obtain out where out: "encode_line ln syms = Inr out" "image_holds im (ln_pc ln) out"
      using lay(6) ln(1-3) by (auto simp: line_held_def)
    have "holds_code c (ln_pc ln) out"
      using holds_code_image [OF _ out(2) encode_line_words [OF out(1) ln(3)] ln(4)]
        loaded_image [OF assms(2) assemble_image_ok [OF assms(1)]] by blast
    with out(1) show ?thesis by blast
  qed
  with lay(1,3,4) show ?thesis by blast
qed

text \<open>C34. Whatever the source and the bases, the packed words are the image: word \<open>k\<close> of the output,
  little-endian, is the four bytes from \<open>image_lo + 4 * k\<close>, every written byte lies inside, and bytes nothing wrote are
  zero.\<close>

theorem packed_words_cover_image:
  assumes "assemble_image source tb dbo = Inr im"
  shows "\<exists>ws. assemble source tb dbo = Inr ws \<and>
    (\<forall>a. has_byte im a \<longrightarrow> image_lo im \<le> a \<and> a < image_lo im + 4 * int (length ws)) \<and>
    (\<forall>a. image_lo im \<le> a \<and> a < image_lo im + 4 * int (length ws) \<longrightarrow>
       words_bytes ws ! nat (a - image_lo im) = (if has_byte im a then image_get im a else 0))"
proof -
  have "assemble source tb dbo = Inr (pack_image im)"
    using assms by (simp add: assemble_def)
  moreover have "image_get im a = (if has_byte im a then image_get im a else 0)" for a
    by (simp add: image_get_def has_byte_def split: option.split)
  ultimately show ?thesis
    using pack_image_span [of im] words_bytes_image [OF assemble_image_ok [OF assms]] by (auto simp: has_byte_def)
qed

end
