(* ===== verification/Asm_Flat.thy ===== *)
theory Asm_Flat
  imports Asm_Load
begin

text \<open>
  Programs whose lines leave no gap: \<open>assemble\<close> returns the words of the lines one after the other.
\<close>

section \<open>Words written in a row\<close>

lemma emit_words_append:
  "emit_words a (vs @ ws) im = emit_words (a + 4 * int (length vs)) ws (emit_words a vs im)"
  by (induction vs arbitrary: a im) (simp_all add: algebra_simps)

lemma has_byte_emit_word: "has_byte (emit_word a w im) b \<longleftrightarrow> (a \<le> b \<and> b < a + 4) \<or> has_byte im b"
proof -
  have "a \<le> b \<and> b < a + 4 \<longleftrightarrow> b = a \<or> b = a + 1 \<or> b = a + 2 \<or> b = a + 3"
    by presburger
  then show ?thesis by (auto simp: emit_word_def Let_def)
qed

lemma has_byte_emit_words:
  "has_byte (emit_words a ws im) b \<longleftrightarrow> (a \<le> b \<and> b < a + 4 * int (length ws)) \<or> has_byte im b"
  by (induction ws arbitrary: a im) (auto simp: has_byte_emit_word)

lemma image_keys_emitted: "set (map fst (emit_words a ws [])) = {a..<a + 4 * int (length ws)}"
proof -
  have "b \<in> set (map fst im) \<longleftrightarrow> has_byte im b" for b and im :: image
    by (simp add: has_byte_def map_of_eq_None_iff)
  then show ?thesis
    using has_byte_emit_words [of a ws "[]"] by (intro set_eqI) (simp add: has_byte_def)
qed

lemma image_span_emitted:
  assumes "ws \<noteq> []" "4 dvd a"
  shows "image_lo (emit_words a ws []) = a" "image_hi (emit_words a ws []) = a + 4 * int (length ws)"
proof -
  have n: "0 < int (length ws)" using assms(1) by simp
  have "Min {a..<a + 4 * int (length ws)} = a"
    using n by (intro Min_eqI) auto
  then show "image_lo (emit_words a ws []) = a"
    using assms(2) unfolding image_lo_def image_keys_emitted and_not_3 by simp
  have "Max {a..<a + 4 * int (length ws)} = a + 4 * int (length ws) - 1"
    using n by (intro Max_eqI) auto
  then have "image_hi (emit_words a ws []) = a + 4 * int (length ws) + 3 - (a + 4 * int (length ws) + 3) mod 4"
    unfolding image_hi_def image_keys_emitted and_not_3 by (simp add: algebra_simps)
  moreover have "(a + 4 * int (length ws) + 3) mod 4 = 3" using assms(2) by presburger
  ultimately show "image_hi (emit_words a ws []) = a + 4 * int (length ws)" by simp
qed

lemma image_holds_nth:
  "image_holds im a ws \<Longrightarrow> k < length ws \<Longrightarrow> le_read image_get 4 (a + 4 * int k) im = take_bit 32 (ws ! k)"
proof (induction ws arbitrary: a k)
  case (Cons w ws)
  then show ?case
    using Cons.IH [of "a + 4" "k - 1"] by (cases k) (simp_all add: algebra_simps)
qed simp

lemma emit_words_ok: "image_ok im \<Longrightarrow> image_ok (emit_words a ws im)"
  by (induction ws arbitrary: a im) (simp_all add: emit_word_le le_write_ok)

lemma pack_emitted:
  assumes "words_ok ws" "4 dvd a"
  shows "pack_image (emit_words a ws []) = ws"
proof (cases "ws = []")
  case False
  let ?im = "emit_words a ws []"
  have ok: "image_ok ?im" by (rule emit_words_ok) (simp add: image_ok_def)
  have ne: "?im \<noteq> []"
    using image_keys_emitted [of a ws] False by auto
  have len: "length (pack_image ?im) = length ws"
    using length_pack_image [OF ne] image_span_emitted [OF False assms(2)] by simp
  show ?thesis
  proof (rule nth_equalityI [OF len])
    fix k assume k: "k < length (pack_image ?im)"
    have "pack_image ?im ! k = take_bit 32 (ws ! k)"
      using pack_image_nth [OF k] image_word_le [OF ok] image_holds_nth [OF emit_words_held] k len
        image_span_emitted(1) [OF False assms(2)] by simp
    then show "pack_image ?im ! k = ws ! k"
      using assms(1) k len by (simp add: words_ok_def list_all_length take_bit_id)
  qed
qed (simp add: pack_image_def)

section \<open>Lines without gaps\<close>

fun flat_words :: "int \<Rightarrow> Line list \<Rightarrow> syms \<Rightarrow> int list option" where
  "flat_words a [] syms = Some []"
| "flat_words a (ln # lns) syms =
     (case encode_line ln syms of
        Inl _ \<Rightarrow> None
      | Inr out \<Rightarrow>
          if out = [] then flat_words a lns syms
          else if ln_op ln \<noteq> Some ''.byte'' \<and> ln_pc ln = a then
            map_option (\<lambda>ws. out @ ws) (flat_words (a + 4 * int (length out)) lns syms)
          else None)"

lemma flat_emit:
  assumes "flat_words a lns syms = Some ws"
  shows "emit_lines lns syms im = Inr (emit_words a ws im) \<and> words_ok ws"
  using assms
proof (induction lns arbitrary: a ws im)
  case (Cons ln lns)
  obtain out where enc: "encode_line ln syms = Inr out"
    using Cons.prems by (auto split: sum.splits)
  show ?case
  proof (cases "out = []")
    case True
    with Cons enc show ?thesis by (simp add: emit_line_def)
  next
    case False
    then obtain vs where ln: "ln_op ln \<noteq> Some ''.byte''" "ln_pc ln = a" "ws = out @ vs"
        and vs: "flat_words (a + 4 * int (length out)) lns syms = Some vs"
      using Cons.prems enc by (auto split: if_splits)
    with Cons.IH [OF vs] encode_line_words [OF enc ln(1)] enc show ?thesis
      by (simp add: emit_line_def emit_words_append words_ok_def)
  qed
qed (simp add: words_ok_def)

text \<open>The words of a program without gaps, computed without an image.\<close>

definition flat_program :: "string \<Rightarrow> int \<Rightarrow> int list option" where
  "flat_program source tb =
     (case placed source tb None of Inl _ \<Rightarrow> None | Inr (lns, syms) \<Rightarrow> flat_words tb lns syms)"

lemma assemble_flat_lemma:
  assumes "flat_program source tb = Some ws" "4 dvd tb"
  shows "assemble source tb None = Inr ws"
proof -
  obtain lns syms where pl: "placed source tb None = Inr (lns, syms)" and fl: "flat_words tb lns syms = Some ws"
    using assms(1) by (auto simp: flat_program_def split: sum.splits)
  have "assemble_image source tb None = Inr (emit_words tb ws [])"
    using pl flat_emit [OF fl] by (auto simp: assemble_image_def placed_def default_data_base_def bindE_Inr_iff Let_def)
  with pack_emitted [OF _ assms(2)] flat_emit [OF fl] show ?thesis by (simp add: assemble_def)
qed

text \<open>When every line that emits something is a word line standing right behind the one before, what
  \<open>assemble\<close> returns is the words of the lines one after the other: the byte image is lossless.\<close>

theorem assemble_concatenates:
  assumes "placed source tb None = Inr (lns, syms)" "flat_words tb lns syms = Some ws" "4 dvd tb"
  shows "assemble source tb None = Inr ws"
  using assemble_flat_lemma [of source tb ws] assms by (simp add: flat_program_def)

end
