(* ===== verification/Emu_Extend.thy ===== *)
theory Emu_Extend
  imports Emu_Run Emu_Regs
begin

text \<open>
  More memory never changes a run: a step that returns, returns the same in a CPU whose memory is
  longer, and leaves the added bytes alone. Programs can then be run in a memory of their own size.
\<close>

definition grow :: "int list \<Rightarrow> cpu \<Rightarrow> cpu" where
  "grow e c = c\<lparr>mem := mem c @ e\<rparr>"

lemma grow_fields [simp]:
  "regs (grow e c) = regs c" "pc (grow e c) = pc c" "halted (grow e c) = halted c" "steps (grow e c) = steps c"
  "mem_base (grow e c) = mem_base c" "tohost_addr (grow e c) = tohost_addr c" "r (grow e c) i = r c i"
  "mem (grow e c) = mem c @ e" "halt_reason (grow e c) = halt_reason c" "trap_on_ecall (grow e c) = trap_on_ecall c"
  "csrs (grow e c) = csrs c" "csr_get (grow e c) k = csr_get c k" "trace_rd w (grow e c) = trace_rd w c"
  by (simp_all add: grow_def r_def csr_get_def trace_rd_def Let_def)

lemma grow_updates [simp]:
  "wr i v (grow e c) = grow e (wr i v c)"
  "(grow e c)\<lparr>csrs := m\<rparr> = grow e (c\<lparr>csrs := m\<rparr>)"
  "(grow e c)\<lparr>halted := h, halt_reason := s\<rparr> = grow e (c\<lparr>halted := h, halt_reason := s\<rparr>)"
  "(grow e c)\<lparr>tohost_value := t, halted := h, halt_reason := s\<rparr> = grow e (c\<lparr>tohost_value := t, halted := h, halt_reason := s\<rparr>)"
  "(grow e c)\<lparr>pc := p, steps := n\<rparr> = grow e (c\<lparr>pc := p, steps := n\<rparr>)"
  by (simp_all add: grow_def wr_def)

lemma mem_index_grow: "mem_index c a n = Inr i \<Longrightarrow> mem_index (grow e c) a n = Inr i"
  by (auto simp: mem_index_def split: if_splits)

lemma mem_index_bounds: "mem_index c a n = Inr i \<Longrightarrow> 0 \<le> i \<and> i + n \<le> int (length (mem c))"
  by (auto simp: mem_index_def split: if_splits)

lemma nth_grow: "0 \<le> i \<Longrightarrow> i < int (length m) \<Longrightarrow> (m @ e) ! nat i = m ! nat i"
  by (simp add: nth_append nat_less_iff)

lemma unpack_grow:
  "0 \<le> i \<Longrightarrow> i + 2 \<le> int (length m) \<Longrightarrow> unpack_H (m @ e) i = unpack_H m i"
  "0 \<le> i \<Longrightarrow> i + 4 \<le> int (length m) \<Longrightarrow> unpack_I (m @ e) i = unpack_I m i"
  by (simp_all add: unpack_H_def unpack_I_def nth_grow)

lemma fetch_grow:
  assumes "fetch c a = Inr w"
  shows "fetch (grow e c) a = Inr w"
proof -
  obtain i where i: "mem_index c a 4 = Inr i" "a AND 3 = 0" "w = unpack_I (mem c) i"
    using assms by (auto simp: fetch_def bindE_Inr_iff split: if_splits)
  then show ?thesis
    using mem_index_grow [OF i(1)] mem_index_bounds [OF i(1)] by (simp add: fetch_def unpack_grow)
qed

lemma load_grow:
  assumes "load c a n s = Inr v" "n \<in> {1, 2, 4}"
  shows "load (grow e c) a n s = Inr v"
proof -
  obtain i where i: "mem_index c a n = Inr i"
    using assms(1) by (auto simp: load_def bindE_Inr_iff split: if_splits)
  then show ?thesis
    using assms mem_index_grow [OF i] mem_index_bounds [OF i]
    by (auto simp: load_def Let_def unpack_grow nth_grow split: if_splits)
qed

lemma pack_grow:
  "0 \<le> i \<Longrightarrow> i + 2 \<le> int (length m) \<Longrightarrow> pack_H (m @ e) i v = pack_H m i v @ e"
  "0 \<le> i \<Longrightarrow> i + 4 \<le> int (length m) \<Longrightarrow> pack_I (m @ e) i v = pack_I m i v @ e"
  "0 \<le> i \<Longrightarrow> i + 1 \<le> int (length m) \<Longrightarrow> (m @ e)[nat i := v] = m[nat i := v] @ e"
  by (simp_all add: pack_H_def pack_I_def list_update_append nat_less_iff)

lemma store_grow:
  assumes "n \<in> {1, 2, 4}"
  shows "sx_commutes (grow e) (store a v n)"
  unfolding sx_commutes_def
proof (intro allI impI)
  fix c x c' assume st: "store a v n c = (Inr x, c')"
  show "store a v n (grow e c) = (Inr x, grow e c')"
  proof (cases "a = tohost_addr c")
    case True
    with st show ?thesis by (auto simp: store_def sx_simps)
  next
    case False
    then obtain i where i: "mem_index c a n = Inr i"
      using st by (cases "mem_index c a n") (auto simp: store_def sx_simps split: if_splits)
    show ?thesis
      using st False assms mem_index_grow [OF i, of e] mem_index_bounds [OF i]
      by (auto simp: store_def sx_simps i pack_grow grow_def split: if_splits)
  qed
qed

section \<open>Each instruction\<close>

named_theorems exec_grow \<open>the opcodes commute with \<open>grow\<close>\<close>

lemma exec_grow_regs [exec_grow]:
  "sx_commutes (grow e) (exec_lui p w)" "sx_commutes (grow e) (exec_auipc p w)"
  "sx_commutes (grow e) (exec_jal p w)" "sx_commutes (grow e) (exec_jalr p w)"
  "sx_commutes (grow e) (exec_branch p w)" "sx_commutes (grow e) (exec_imm p w)"
  "sx_commutes (grow e) (exec_reg p w)"
  unfolding exec_lui_def exec_auipc_def exec_jal_def exec_jalr_def exec_branch_def exec_imm_def exec_reg_def Let_def
  by (intro sx_commute_rules; simp)+

lemma load_width_sizes: "load_width f = Some (n, s) \<Longrightarrow> n \<in> {1, 2, 4}"
  by (auto simp: load_width_def split: if_splits)

lemma store_width_sizes: "store_width f = Some n \<Longrightarrow> n \<in> {1, 2, 4}"
  by (auto simp: store_width_def split: if_splits)

lemma exec_grow_mem [exec_grow]:
  "sx_commutes (grow e) (exec_load p w)" "sx_commutes (grow e) (exec_store p w)"
proof -
  show "sx_commutes (grow e) (exec_load p w)"
    unfolding exec_load_def
    by (cases "load_width (inst_funct3 w)")
      (auto intro!: sx_commute_rules load_grow dest: load_width_sizes)
  show "sx_commutes (grow e) (exec_store p w)"
    unfolding exec_store_def
    by (cases "store_width (inst_funct3 w)")
      (auto intro!: sx_commute_rules store_grow dest: store_width_sizes)
qed

lemma exec_grow_system [exec_grow]: "sx_commutes (grow e) (exec_system p w)"
  unfolding exec_system_def exec_system0_def exec_env_call_def take_trap_def exec_csr_def Let_def
  by (intro sx_commute_rules; simp)

lemma exec_opcode_grow: "sx_commutes (grow e) (exec_opcode p w)"
  unfolding exec_opcode_def no_store_def Let_def
  by (intro sx_commute_rules exec_grow)

lemma step_grow: "step c = (Inr t, c') \<Longrightarrow> step (grow e c) = (Inr t, grow e c')"
proof -
  have "sx_commutes (grow e) step"
    unfolding step_def
    by (intro sx_commute_rules exec_opcode_grow; simp add: fetch_grow)
  then show "step c = (Inr t, c') \<Longrightarrow> step (grow e c) = (Inr t, grow e c')"
    by (simp add: sx_commutes_def)
qed

lemma run_grow: "run n c = (Inr s, d) \<Longrightarrow> run n (grow e c) = (Inr s, grow e d)"
proof (induction n c arbitrary: d rule: run.induct)
  case (1 n c)
  show ?case
  proof (cases "\<not> halted c \<and> steps c < n")
    case True
    then obtain t c1 where st: "step c = (Inr t, c1)"
      using "1.prems" by (cases "step c"; cases "fst (step c)") (auto simp: run.simps [of n c])
    with True "1.prems" "1.IH" step_grow [OF st, of e] show ?thesis
      by (simp add: run.simps [of n c] run.simps [of n "grow e c"])
  next
    case False
    with "1.prems" show ?thesis
      by (auto simp: run.simps [of n c] run.simps [of n "grow e c"] split: if_splits)
  qed
qed

text \<open>A run that ends without an exception ends the same, after the same number of steps and with the
  same registers, when the CPU has more memory above; the added bytes stay as they were.\<close>

theorem more_memory_same_run:
  assumes "run n c = (Inr reason, d)"
  shows "run n (c\<lparr>mem := mem c @ extra\<rparr>) = (Inr reason, d\<lparr>mem := mem d @ extra\<rparr>)"
  using run_grow [OF assms, of extra] by (simp add: grow_def)

end
