(* ===== verification/Benchmark_Runs.thy ===== *)
theory Benchmark_Runs
  imports Benchmarks Asm_Flat Emu_Extend
begin

text \<open>
  The five benchmarks, assembled and run: the words \<open>assemble\<close> returns for each source, and the
  registers the emulator ends with. A run is evaluated in a memory that holds just the program; more
  memory does not change it.
\<close>

section \<open>The assembled programs\<close>

definition FIB_WORDS :: "int list" where
  "FIB_WORDS =
    [1299, 19, 1050003, 19, 20973075, 19, 1683, 19, 13012067, 11863859, 361747, 460179,
     1476243, 4276088943, 115]"

definition GCD_WORDS :: "int list" where
  "GCD_WORDS =
    [1123026195, 19, 484443539, 19, 11865187, 11880035, 1085605171, 4284477551, 1084589491,
     4276088943, 115]"

definition FACTORIAL_WORDS :: "int list" where
  "FACTORIAL_WORDS =
    [8389651, 19, 1049747, 19, 33816675, 296211, 263571, 151, 29393127, 394387, 4294181907,
     4267700335, 296211, 115, 1555, 19, 362595, 10880563, 4294280595, 4284477551, 32871]"

definition SORT_WORDS :: "int list" where
  "SORT_WORDS =
    [1047, 113509395, 8389779, 19, 4294215955, 67699299, 2451, 19, 592403, 34211427, 2726547,
     22285107, 732035, 4926467, 24925795, 25894947, 24846883, 1673619, 4294576659, 4255117423,
     4294510867, 4229951599, 1047, 21234707, 271619, 29631875, 115, 5, 2, 8, 1, 9, 3, 7, 4]"

definition MATVEC_WORDS :: "int list" where
  "MATVEC_WORDS =
    [1047, 176423955, 2327, 218695955, 2451, 19, 3148307, 19, 88705635, 1175, 176456851, 2707,
     19, 2835, 19, 55247971, 271619, 304515, 151, 71336167, 13273779, 4457491, 4490387,
     1772307, 4259311727, 22618147, 4786451, 1673619, 4213174383, 2327, 105449747, 599299,
     4793731, 8988291, 115, 1555, 19, 362595, 10880563, 4294280595, 4284477551, 32871, 1, 2,
     3, 4, 5, 6, 7, 8, 9, 1, 1, 1, 0, 0, 0]"

lemma fib_assembled: "assemble FIB 0 None = Inr FIB_WORDS"
proof -
  have "flat_program FIB 0 = Some FIB_WORDS" by code_simp
  then show ?thesis by (rule assemble_flat_lemma) simp
qed

lemma gcd_assembled: "assemble GCD_SRC 0 None = Inr GCD_WORDS"
proof -
  have "flat_program GCD_SRC 0 = Some GCD_WORDS" by code_simp
  then show ?thesis by (rule assemble_flat_lemma) simp
qed

lemma factorial_assembled: "assemble FACTORIAL 0 None = Inr FACTORIAL_WORDS"
proof -
  have "flat_program FACTORIAL 0 = Some FACTORIAL_WORDS" by code_simp
  then show ?thesis by (rule assemble_flat_lemma) simp
qed

lemma sort_assembled: "assemble SORT 0 None = Inr SORT_WORDS"
proof -
  have "flat_program SORT 0 = Some SORT_WORDS" by code_simp
  then show ?thesis by (rule assemble_flat_lemma) simp
qed

lemma matvec_assembled: "assemble MATVEC 0 None = Inr MATVEC_WORDS"
proof -
  have "flat_program MATVEC 0 = Some MATVEC_WORDS" by code_simp
  then show ?thesis by (rule assemble_flat_lemma) simp
qed

section \<open>Running them\<close>

text \<open>The CPU the harness starts on, with a memory that ends behind the program.\<close>

definition bare_cpu :: "int list \<Rightarrow> cpu" where
  "bare_cpu words =
     \<lparr>regs = replicate 32 0, pc = 0, mem = words_bytes words, mem_base = 0, tohost_addr = 0x80001000,
      tohost_value = None, halted = False, halt_reason = None, steps = 0, csrs = [CSR_MHARTID \<mapsto> 0],
      trap_on_ecall = False\<rparr>"

text \<open>A run ends with ECALL after \<open>n\<close> steps and with the expected registers.\<close>

definition ends_with :: "int list \<Rightarrow> int \<Rightarrow> (nat \<times> int) list \<Rightarrow> bool" where
  "ends_with words n expect =
     (case run 500000 (bare_cpu words) of
        (Inl _, _) \<Rightarrow> False
      | (Inr reason, c) \<Rightarrow> reason = ''ecall'' \<and> steps c = n \<and> list_all (\<lambda>(i, v). regs c ! i = v) expect)"

lemma fib_ends: "ends_with FIB_WORDS 130 [(10, 6765)]"
  by code_simp

lemma gcd_ends: "ends_with GCD_WORDS 50 [(10, 21)]"
  by code_simp

lemma factorial_ends: "ends_with FACTORIAL_WORDS 247 [(10, 40320)]"
  by code_simp

lemma sort_ends: "ends_with SORT_WORDS 338 [(10, 1), (11, 9)]"
  by code_simp

lemma matvec_ends: "ends_with MATVEC_WORDS 213 [(10, 6), (11, 15), (13, 24)]"
  by code_simp

lemma emu_run_bare:
  assumes "int (length (words_bytes words)) \<le> mem_size" "run 500000 (bare_cpu words) = (Inr reason, d)"
  shows "\<exists>e. emu_run mem_size 500000 words = Inr (reason, grow e d)"
proof -
  define e where "e = replicate (nat mem_size - length (words_bytes words)) (0 :: int)"
  have drop: "drop (length (words_bytes words)) (replicate (nat mem_size) 0) = e"
    using assms(1) by (simp add: e_def)
  have "emu_run mem_size 500000 words =
      (case run 500000 (grow e (bare_cpu words)) of (Inl e, c') \<Rightarrow> Inl e | (Inr reason, c') \<Rightarrow> Inr (reason, c'))"
    using assms(1) drop
    by (simp add: emu_run_def RV32I_init_def load_program_def bare_cpu_def grow_def del: length_words_bytes)
  with run_grow [OF assms(2), of e] show ?thesis by auto
qed

lemma meets_bare:
  assumes "assemble source 0 None = Inr words" "ends_with words n expect"
    and "int (length (words_bytes words)) \<le> mem_size"
  shows "meets mem_size source expect"
proof -
  obtain reason d where run: "run 500000 (bare_cpu words) = (Inr reason, d)"
    and d: "reason = ''ecall''" "list_all (\<lambda>(i, v). regs d ! i = v) expect"
    using assms(2) by (auto simp: ends_with_def split: prod.splits sum.splits)
  obtain e where "emu_run mem_size 500000 words = Inr (reason, grow e d)"
    using emu_run_bare [OF assms(3) run] by blast
  with assms(1) d show ?thesis by (simp add: meets_def)
qed

text \<open>C2. Every benchmark of the repository assembles, and its words, loaded and run by the harness in a memory
  of any size from 512 bytes up, end with ECALL and with the register values the table expects.\<close>

theorem benchmarks_meet_expectations:
  assumes "512 \<le> mem_size"
  shows "list_all (\<lambda>(name, source, expect). meets mem_size source expect) BENCHMARKS"
proof -
  have "length FIB_WORDS \<le> 128" "length GCD_WORDS \<le> 128" "length FACTORIAL_WORDS \<le> 128"
    "length SORT_WORDS \<le> 128" "length MATVEC_WORDS \<le> 128"
    by (simp_all add: FIB_WORDS_def GCD_WORDS_def FACTORIAL_WORDS_def SORT_WORDS_def MATVEC_WORDS_def)
  with assms show ?thesis
    using meets_bare [OF fib_assembled fib_ends] meets_bare [OF gcd_assembled gcd_ends]
      meets_bare [OF factorial_assembled factorial_ends] meets_bare [OF sort_assembled sort_ends]
      meets_bare [OF matvec_assembled matvec_ends]
    by (simp add: BENCHMARKS_def)
qed

theorem benchmarks_witness:
  "list_all (\<lambda>(name, source, expect). meets 65536 source expect) BENCHMARKS"
  by (rule benchmarks_meet_expectations) simp

end
