(* ===== verification/Asm_Flow.thy ===== *)
theory Asm_Flow
  imports Asm_Correct
begin

text \<open>
  Correctness of the assembler against the emulator, continued: branches, jumps, loads, stores,
  upper immediates and the pseudo-instructions.
\<close>

section \<open>Dispatch of the mnemonics outside the tables\<close>

definition pseudo_ops :: "string list" where
  "pseudo_ops = [''nop'', ''mv'', ''not'', ''neg'', ''j'', ''jr'', ''ret'', ''beqz'', ''bnez'', ''li'', ''la'', ''call'']"

definition in_no_table :: "string \<Rightarrow> bool" where
  "in_no_table op \<longleftrightarrow> map_of R_TABLE op = None \<and> map_of I_ALU_TABLE op = None \<and>
     map_of LOAD_TABLE op = None \<and> map_of STORE_TABLE op = None \<and> map_of BRANCH_TABLE op = None \<and>
     op \<notin> {''slli'', ''srli'', ''srai''} \<and> op \<notin> set directives"

lemma other_ops_rows:
  "list_all in_no_table [''jal'', ''jalr'', ''lui'', ''auipc'']"
  "list_all (\<lambda>op. in_no_table op \<and> enc_fixed op = None \<and> op \<notin> {''jal'', ''jalr'', ''lui'', ''auipc''}) pseudo_ops"
  by code_simp+

lemma encode_pseudo:
  "op \<in> set pseudo_ops \<Longrightarrow> ln_op ln = Some op \<Longrightarrow> encode_line ln syms = enc_pseudo ln syms op"
  using other_ops_rows(2) [unfolded list_all_iff, THEN bspec, of op]
  by (simp add: encode_line_def enc_insn_def in_no_table_def directives_def)

lemma encode_jumps:
  "ln_op ln = Some ''jal'' \<Longrightarrow> encode_line ln syms = enc_jal ln syms"
  "ln_op ln = Some ''jalr'' \<Longrightarrow> encode_line ln syms = enc_jalr ln syms"
  "ln_op ln = Some ''lui'' \<Longrightarrow> encode_line ln syms = enc_upper ln syms ''lui''"
  "ln_op ln = Some ''auipc'' \<Longrightarrow> encode_line ln syms = enc_upper ln syms ''auipc''"
  using other_ops_rows(1)
  by (simp_all add: encode_line_def enc_insn_def in_no_table_def directives_def)

lemma encode_pseudos:
  "ln_op ln = Some ''nop'' \<Longrightarrow> encode_line ln syms = Inr [nop_word]"
  "ln_op ln = Some ''mv'' \<Longrightarrow> encode_line ln syms = enc_two_regs ln ''mv''
     (\<lambda>rd rs. i_type (Opcode_value OP_IMM) rd (F3Op_value F3_ADD_SUB) rs 0)"
  "ln_op ln = Some ''not'' \<Longrightarrow> encode_line ln syms = enc_two_regs ln ''not''
     (\<lambda>rd rs. i_type (Opcode_value OP_IMM) rd (F3Op_value F3_XOR) rs (-1 AND 0xFFF))"
  "ln_op ln = Some ''neg'' \<Longrightarrow> encode_line ln syms = enc_two_regs ln ''neg''
     (\<lambda>rd rs. r_type (Opcode_value OP_REG) rd (F3Op_value F3_ADD_SUB) 0 rs F7_ALT)"
  "ln_op ln = Some ''j'' \<Longrightarrow> encode_line ln syms = enc_j ln syms"
  "ln_op ln = Some ''jr'' \<Longrightarrow> encode_line ln syms = enc_jr ln"
  "ln_op ln = Some ''ret'' \<Longrightarrow> encode_line ln syms = enc_ret ln"
  "ln_op ln = Some ''beqz'' \<Longrightarrow> encode_line ln syms = enc_branch_zero ln syms ''beqz'' (F3Branch_value F3_BEQ)"
  "ln_op ln = Some ''bnez'' \<Longrightarrow> encode_line ln syms = enc_branch_zero ln syms ''bnez'' (F3Branch_value F3_BNE)"
  "ln_op ln = Some ''li'' \<Longrightarrow> encode_line ln syms = enc_li ln syms"
  "ln_op ln = Some ''la'' \<Longrightarrow> encode_line ln syms = enc_la ln syms"
  "ln_op ln = Some ''call'' \<Longrightarrow> encode_line ln syms = enc_call ln syms"
  by (drule encode_pseudo [rotated, of _ _ syms], simp add: pseudo_ops_def, simp add: enc_pseudo_def Let_def)+

section \<open>Branches\<close>

text \<open>A word that jumps: it retires with its link, or raises in an unchanged state.\<close>

lemma wr_0 [simp]: "wr 0 v c = c"
  by (rule emu_regs.write_x0)

lemma one_word_jump:
  assumes "\<not> halted c" "holds_code c (pc c) [w]" "exec_opcode (pc c) w c = (Inr (n, None), c)"
  shows "\<exists>c'. steps_n 1 c = Inr c' \<and> reg_effect 1 c c' n 0 0"
  using one_word_reg [OF assms(1,2), of n 0 0] assms(3) by (simp add: u32_def mask_simps)

lemma one_word_target:
  assumes "\<not> halted c" "holds_code c (pc c) [w]" "0 \<le> pc c" "pc c + 4 < 2 ^ 32"
    and "exec_opcode (pc c) w c = jump_result what (pc c) dest rd c"
  shows "if 4 dvd dest then \<exists>c'. steps_n 1 c = Inr c' \<and> reg_effect 1 c c' dest rd (pc c + 4)
         else step c = (Inl (target_trap what (pc c) dest), c)"
proof (cases "4 dvd dest")
  case True
  have "u32 (pc c + 4) = pc c + 4"
    using assms(3,4) by (simp add: u32_id)
  with one_word_reg [OF assms(1,2), of dest rd "pc c + 4"] assms(5) True show ?thesis
    by (simp add: jump_result_def)
next
  case False
  with assms(5) step_raise [OF assms(1) _ , of w] assms(2) show ?thesis
    by (simp add: jump_result_def)
qed

text \<open>
  The offset of a branch or jump has no bit 0 in the instruction word: an odd one loses it.
\<close>

lemma and_not_1_mod: "(x :: int) AND NOT 1 = x - x mod 2"
proof -
  have "(x AND NOT 1) + (x AND 1) = (x AND NOT 1) OR (x AND 1)"
    by (rule disjunctive_add) (auto simp: bit_and_iff bit_not_iff bit_1_iff)
  also have "\<dots> = x"
    by (rule bit_eqI) (auto simp: bit_and_iff bit_or_iff bit_not_iff bit_1_iff)
  finally show ?thesis by (simp add: and_one_eq)
qed

lemma bit_and_not_1: "bit ((v :: int) AND NOT 1) n = (bit v n \<and> n \<noteq> 0)"
  by (auto simp: bit_and_iff bit_not_iff bit_1_iff)

lemma low_bit_lost:
  "j_type opcode rd (take_bit 21 (v AND NOT 1)) = j_type opcode rd (take_bit 21 v)"
  "b_type opcode f3 rs1 rs2 (take_bit 13 (v AND NOT 1)) = b_type opcode f3 rs1 rs2 (take_bit 13 v)"
proof -
  have "drop_bit 1 (v AND NOT 1) = drop_bit 1 v"
    by (rule bit_eqI) (simp add: bit_drop_bit_eq bit_and_not_1)
  then have "drop_bit k (v AND NOT 1) = drop_bit k v" if "0 < k" for k
    using that by (metis Suc_pred' drop_bit_drop_bit plus_1_eq_Suc add.commute)
  then have *: "take_bit m (drop_bit k (take_bit n (v AND NOT 1))) = take_bit m (drop_bit k (take_bit n v))"
    if "0 < k" for k m n
    using that by (simp only: drop_bit_take_bit)
  show "j_type opcode rd (take_bit 21 (v AND NOT 1)) = j_type opcode rd (take_bit 21 v)"
    "b_type opcode f3 rs1 rs2 (take_bit 13 (v AND NOT 1)) = b_type opcode f3 rs1 rs2 (take_bit 13 v)"
    by (simp_all only: j_type_def b_type_def mask_simps Let_def * zero_less_numeral zero_less_one)
qed

lemma offset_target: "even p \<Longrightarrow> p + ((target - p) AND NOT 1) = target AND NOT (1 :: int)"
  unfolding and_not_1_mod by presburger

lemma fetches_aligned: "fetches c a w \<Longrightarrow> 4 dvd a"
  by (simp add: fetches_def fetch_Inr and_3_dvd)

lemma code_even: "holds_code c a ws \<Longrightarrow> ws \<noteq> [] \<Longrightarrow> even a"
  by (cases ws) (auto dest!: fetches_aligned elim: dvdE)

lemma u32_dvd_4: "4 dvd u32 x \<longleftrightarrow> 4 dvd x"
  by (simp add: u32_mod dvd_mod_iff)

lemma u32_uint_reg: "regs_ok c \<Longrightarrow> reg_ok i \<Longrightarrow> u32 (r c i) = r c i"
  by (rule emu_regs.read_word)

lemma exec_branch_word:
  assumes "regs_ok c" "reg_ok rs1" "reg_ok rs2" "- 4096 \<le> v" "v < 4096"
    and "rtl_branch_op (F3Branch_value f) = Some bop"
  shows "exec_opcode p (b_type (Opcode_value OP_BRANCH) (F3Branch_value f) rs1 rs2 (take_bit 13 v)) c =
    (if rtl_taken bop (reg_word c rs1) (reg_word c rs2)
     then jump_result ''BR'' p (u32 (p + (v AND NOT 1))) 0 c else (Inr (u32 (p + 4), None), c))"
proof -
  have "branch_taken (F3Branch_value f) (r c rs1) (r c rs2) =
      Some (rtl_taken bop (reg_word c rs1) (reg_word c rs2))"
    using branch_taken_rtl_lemma [of "F3Branch_value f" "reg_word c rs1" "reg_word c rs2"] assms(1-3,6)
    by (simp add: uint_reg_word)
  moreover have "imm_b (b_type (Opcode_value OP_BRANCH) (F3Branch_value f) rs1 rs2
      (take_bit 13 (v AND NOT 1))) = v AND NOT 1"
    by (rule b_fmt.dec_enc) (use assms(4,5) in \<open>unfold and_not_1_mod, presburger\<close>)
  ultimately show ?thesis
    using assms(2,3) unfolding low_bit_lost
    by (simp add: exec_opcode_def b_type_fields exec_branch_def no_store_def sx_simps take_bit_reg
        Let_def and_3_dvd jump_result_def target_trap_def)
qed

definition branch_mnemonics :: "(string \<times> F3Branch \<times> BranchOp) list" where
  "branch_mnemonics =
    [(''beq'', F3_BEQ, BR_EQ), (''bne'', F3_BNE, BR_NE), (''blt'', F3_BLT, BR_LT),
     (''bge'', F3_BGE, BR_GE), (''bltu'', F3_BLTU, BR_LTU), (''bgeu'', F3_BGEU, BR_GEU)]"

lemma branch_mnemonics_rows:
  "list_all (\<lambda>(op, f, bop). map_of R_TABLE op = None \<and> map_of I_ALU_TABLE op = None \<and>
      map_of LOAD_TABLE op = None \<and> map_of STORE_TABLE op = None \<and>
      op \<notin> {''slli'', ''srli'', ''srai''} \<and> map_of BRANCH_TABLE op = Some (F3Branch_value f) \<and>
      op \<notin> set directives \<and> rtl_branch_op (F3Branch_value f) = Some bop) branch_mnemonics"
  by code_simp

lemma branch_mnemonics_enc:
  assumes "(op, f, bop) \<in> set branch_mnemonics" "ln_op ln = Some op"
  shows "encode_line ln syms = enc_branch ln syms op (F3Branch_value f)"
    and "rtl_branch_op (F3Branch_value f) = Some bop"
  using branch_mnemonics_rows [unfolded list_all_iff, THEN bspec, OF assms(1), simplified prod.case] assms(2)
  by (simp_all add: encode_line_def enc_insn_def directives_def)

lemma and_1_even: "(x :: int) AND 1 = 0 \<longleftrightarrow> even x"
  by (simp add: and_one_eq even_iff_mod_2_eq_zero)

lemma jump_result_x0: "jump_result what p dest 0 c =
    (if 4 dvd dest then (Inr (dest, None), c) else (Inl (target_trap what p dest), c))"
  by (simp add: jump_result_def)

text \<open>What a branch word does: it falls through, goes to its target, or raises at a misaligned one.\<close>

lemma one_word_branch:
  assumes "\<not> halted c" "holds_code c (pc c) [w]" "0 \<le> pc c" "pc c + 4 < 2 ^ 32"
    and "exec_opcode (pc c) w c = (if taken then jump_result what (pc c) dest 0 c else (Inr (u32 (pc c + 4), None), c))"
  shows "if taken \<and> \<not> 4 dvd dest then step c = (Inl (target_trap what (pc c) dest), c)
         else \<exists>c'. steps_n 1 c = Inr c' \<and> reg_effect 1 c c' (if taken then dest else pc c + 4) 0 0"
proof (cases "taken \<and> \<not> 4 dvd dest")
  case True
  then show ?thesis
    using step_raise [OF assms(1) _, of w] assms(2,5) by (simp add: jump_result_x0)
next
  case False
  have "u32 (pc c + 4) = pc c + 4"
    using assms(3,4) by (simp add: u32_id)
  then have "exec_opcode (pc c) w c = (Inr (if taken then dest else pc c + 4, None), c)"
    using False assms(5) by (auto simp: jump_result_x0)
  with False one_word_jump [OF assms(1,2)] show ?thesis by presburger
qed

text \<open>C12. A conditional branch line, assembled for its address and executed there, goes to the
  operand's address when the RTL's branch unit says so on the two registers and the address is
  word-aligned, raises the misaligned-fetch trap in an unchanged state when the branch is taken to any other
  address, and goes to the next instruction when it is not taken, whatever the operand. Besides the PC and the
  step counter nothing changes.\<close>

theorem branch_line_correct:
  assumes "(op, f, bop) \<in> set branch_mnemonics" "ln_op ln = Some op" "encode_line ln syms = Inr ws"
    and "regs_ok c" "\<not> halted c" "holds_code c (pc c) ws" "ln_pc ln = pc c" "0 \<le> pc c" "pc c + 4 < 2 ^ 32"
  shows "\<exists>rs1 rs2 target. arg_reg ln 0 = Inr rs1 \<and> arg_reg ln 1 = Inr rs2 \<and> arg_val ln syms 2 = Inr target \<and>
    (if rtl_taken bop (reg_word c rs1) (reg_word c rs2) \<and> \<not> 4 dvd target
     then step c = (Inl (target_trap ''BR'' (pc c) (u32 target)), c)
     else \<exists>c'. steps_n 1 c = Inr c' \<and>
       reg_effect 1 c c' (if rtl_taken bop (reg_word c rs1) (reg_word c rs2) then u32 target else pc c + 4) 0 0)"
proof -
  obtain rs1 rs2 target where args: "arg_reg ln 0 = Inr rs1" "arg_reg ln 1 = Inr rs2" "arg_val ln syms 2 = Inr target"
    and v: "- 4096 \<le> target - pc c" "target - pc c < 4096" "even (target - pc c)"
    and ws: "ws = [b_type (Opcode_value OP_BRANCH) (F3Branch_value f) rs1 rs2 (take_bit 13 (target - pc c))]"
    using assms(3) unfolding branch_mnemonics_enc(1) [OF assms(1,2)] enc_branch_def
    by (auto simp: bindE_Inr_iff fit_s_def Let_def asm_fail_def and_1_even assms(7)
        simp del: Opcode_value.simps split: if_splits)
  have "pc c + ((target - pc c) AND NOT 1) = target"
    unfolding and_not_1 [OF v(3)] by simp
  with exec_branch_word [OF assms(4) arg_reg_ok [OF args(1)] arg_reg_ok [OF args(2)] v(1,2)
      branch_mnemonics_enc(2) [OF assms(1,2)], of "pc c"]
  have "exec_opcode (pc c) (b_type (Opcode_value OP_BRANCH) (F3Branch_value f) rs1 rs2 (take_bit 13 (target - pc c))) c =
      (if rtl_taken bop (reg_word c rs1) (reg_word c rs2) then jump_result ''BR'' (pc c) (u32 target) 0 c
       else (Inr (u32 (pc c + 4), None), c))"
    by presburger
  from one_word_branch [OF assms(5) _ assms(8,9) this, unfolded u32_dvd_4] assms(6) ws args show ?thesis
    by blast
qed

text \<open>\<open>beqz\<close> and \<open>bnez\<close> branch to their operand exactly when the register is, or is not, zero. Their
  offset is not checked to be even: bit 0 of the target is lost.\<close>

theorem branch_zero_line_correct:
  assumes "ln_op ln = Some op" "(op, f, bop) \<in> {(''beqz'', F3_BEQ, BR_EQ), (''bnez'', F3_BNE, BR_NE)}"
    and "encode_line ln syms = Inr ws"
    and "regs_ok c" "\<not> halted c" "holds_code c (pc c) ws" "ln_pc ln = pc c" "0 \<le> pc c" "pc c + 4 < 2 ^ 32"
  shows "\<exists>rs1 target. arg_reg ln 0 = Inr rs1 \<and> arg_val ln syms 1 = Inr target \<and>
    (if rtl_taken bop (reg_word c rs1) 0 \<and> \<not> 4 dvd u32 target AND NOT 1
     then step c = (Inl (target_trap ''BR'' (pc c) (u32 target AND NOT 1)), c)
     else \<exists>c'. steps_n 1 c = Inr c' \<and>
       reg_effect 1 c c' (if rtl_taken bop (reg_word c rs1) 0 then u32 target AND NOT 1 else pc c + 4) 0 0)"
proof -
  have enc: "encode_line ln syms = enc_branch_zero ln syms op (F3Branch_value f)"
    using assms(1,2) encode_pseudos(8,9) [of ln syms] by blast
  have bop: "rtl_branch_op (F3Branch_value f) = Some bop"
    using assms(2) by (auto simp: rtl_branch_op_def)
  obtain rs1 target where args: "arg_reg ln 0 = Inr rs1" "arg_val ln syms 1 = Inr target"
    and v: "- 4096 \<le> target - pc c" "target - pc c < 4096"
    and ws: "ws = [b_type (Opcode_value OP_BRANCH) (F3Branch_value f) rs1 0 (take_bit 13 (target - pc c))]"
    using assms(3) unfolding enc enc_branch_zero_def
    by (auto simp: bindE_Inr_iff fit_s_def Let_def assms(7) simp del: Opcode_value.simps)
  have dest: "u32 (pc c + ((target - pc c) AND NOT 1)) = u32 target AND NOT 1"
    using offset_target [OF code_even [OF assms(6)], of target] ws
    by (metis list.distinct(1) u32_and_not_1)
  have "exec_opcode (pc c) (b_type (Opcode_value OP_BRANCH) (F3Branch_value f) rs1 0 (take_bit 13 (target - pc c))) c =
      (if rtl_taken bop (reg_word c rs1) 0 then jump_result ''BR'' (pc c) (u32 target AND NOT 1) 0 c
       else (Inr (u32 (pc c + 4), None), c))"
    using exec_branch_word [OF assms(4) arg_reg_ok [OF args(1)] reg_ok_simps(1) v bop, of "pc c"]
    unfolding dest emu_regs.read_zero by simp
  from one_word_branch [OF assms(5) _ assms(8,9) this] assms(6) ws args show ?thesis by blast
qed

section \<open>Jumps\<close>

lemma exec_jal_word:
  assumes "reg_ok rd" "- 1048576 \<le> v" "v < 1048576"
  shows "exec_opcode p (j_type (Opcode_value OP_JAL) rd (take_bit 21 v)) c =
    jump_result ''JAL'' p (u32 (p + (v AND NOT 1))) rd c"
proof -
  have "imm_j (j_type (Opcode_value OP_JAL) rd (take_bit 21 (v AND NOT 1))) = v AND NOT 1"
    by (rule j_fmt.dec_enc) (use assms(2,3) in \<open>unfold and_not_1_mod, presburger\<close>)
  then show ?thesis
    using assms(1) unfolding low_bit_lost
    by (simp add: exec_opcode_def j_type_fields exec_jal_def no_store_def sx_simps take_bit_reg
        Let_def and_3_dvd wr_def jump_result_def target_trap_def)
qed

text \<open>The operands of \<open>jal\<close>, with \<open>ra\<close> for a missing link register, and of \<open>j\<close>.\<close>

definition jump_operands :: "Line \<Rightarrow> syms \<Rightarrow> string \<Rightarrow> int \<Rightarrow> int \<Rightarrow> bool" where
  "jump_operands ln syms op rd target \<longleftrightarrow>
     (op = ''j'' \<and> length (ln_args ln) = 1 \<and> rd = 0 \<and> arg_val ln syms 0 = Inr target) \<or>
     (op = ''jal'' \<and> length (ln_args ln) = 1 \<and> rd = 1 \<and> arg_val ln syms 0 = Inr target) \<or>
     (op = ''jal'' \<and> length (ln_args ln) = 2 \<and> arg_reg ln 0 = Inr rd \<and> arg_val ln syms 1 = Inr target)"

lemma jump_encoding:
  assumes "ln_op ln = Some op" "op = ''jal'' \<or> op = ''j''" "encode_line ln syms = Inr ws"
  obtains rd target where "jump_operands ln syms op rd target" "reg_ok rd"
    "op = ''jal'' \<Longrightarrow> even (target - ln_pc ln)" "- 1048576 \<le> target - ln_pc ln" "target - ln_pc ln < 1048576"
    "ws = [j_type (Opcode_value OP_JAL) rd (take_bit 21 (target - ln_pc ln))]"
proof -
  consider "op = ''jal''" | "op = ''j''" using assms(2) by blast
  then show thesis
  proof cases
    case 1
    then have "encode_line ln syms = enc_jal ln syms"
      using assms(1) by (simp add: encode_jumps)
    with assms(3) 1 show thesis
      by (auto simp: enc_jal_def bindE_Inr_iff fit_s_def Let_def asm_fail_def jump_operands_def and_1_even
          simp del: Opcode_value.simps split: if_splits intro: that dest: arg_reg_ok)
  next
    case 2
    then have "encode_line ln syms = enc_j ln syms"
      using assms(1) by (simp add: encode_pseudos)
    with assms(3) 2 show thesis
      by (auto simp: enc_j_def bindE_Inr_iff fit_s_def Let_def expect_args_def jump_operands_def
          simp del: Opcode_value.simps split: if_splits intro: that)
  qed
qed

text \<open>C18. \<open>jal\<close> with one or two operands and \<open>j\<close> go to the operand's address with bit 0 cleared and leave
  the return address in the link register; if that address is not word-aligned they raise the misaligned-fetch
  trap in an unchanged state. \<open>jal\<close> is accepted for even operands only, so for it the address is the operand;
  \<open>j\<close> is accepted for odd ones too.\<close>

theorem jump_line_correct:
  assumes "ln_op ln = Some op" "op = ''jal'' \<or> op = ''j''" "encode_line ln syms = Inr ws"
    and "regs_ok c" "\<not> halted c" "holds_code c (pc c) ws" "ln_pc ln = pc c" "0 \<le> pc c" "pc c + 4 < 2 ^ 32"
  shows "\<exists>rd target. jump_operands ln syms op rd target \<and> (op = ''jal'' \<longrightarrow> even target) \<and>
    (if 4 dvd u32 target AND NOT 1
     then \<exists>c'. steps_n 1 c = Inr c' \<and> reg_effect 1 c c' (u32 target AND NOT 1) rd (pc c + 4)
     else step c = (Inl (target_trap ''JAL'' (pc c) (u32 target AND NOT 1)), c))"
proof -
  obtain rd target where ops: "jump_operands ln syms op rd target" and rd: "reg_ok rd"
    and jal: "op = ''jal'' \<Longrightarrow> even (target - pc c)"
    and v: "- 1048576 \<le> target - pc c" "target - pc c < 1048576"
    and ws: "ws = [j_type (Opcode_value OP_JAL) rd (take_bit 21 (target - pc c))]"
    using jump_encoding [OF assms(1-3)] assms(7) by metis
  have even: "even (pc c)"
    using code_even [OF assms(6)] ws by blast
  have "exec_opcode (pc c) (j_type (Opcode_value OP_JAL) rd (take_bit 21 (target - pc c))) c =
      jump_result ''JAL'' (pc c) (u32 target AND NOT 1) rd c"
    unfolding exec_jal_word [OF rd v] offset_target [OF even] u32_and_not_1 ..
  from one_word_target [OF assms(5) _ assms(8,9) this] assms(6) ws
  have "if 4 dvd u32 target AND NOT 1
      then \<exists>c'. steps_n 1 c = Inr c' \<and> reg_effect 1 c c' (u32 target AND NOT 1) rd (pc c + 4)
      else step c = (Inl (target_trap ''JAL'' (pc c) (u32 target AND NOT 1)), c)"
    by blast
  moreover have "op = ''jal'' \<longrightarrow> even target"
    using jal even by auto
  ultimately show ?thesis using ops by blast
qed

text \<open>\<open>jr\<close>, \<open>ret\<close> and the two spellings of \<open>jalr\<close>: the target is a register plus an offset.\<close>

definition indirect_operands :: "Line \<Rightarrow> syms \<Rightarrow> string \<Rightarrow> int \<Rightarrow> int \<Rightarrow> int \<Rightarrow> bool" where
  "indirect_operands ln syms op rd rs1 v \<longleftrightarrow>
     (op = ''ret'' \<and> ln_args ln = [] \<and> (rd, rs1, v) = (0, 1, 0)) \<or>
     (op = ''jr'' \<and> length (ln_args ln) = 1 \<and> (rd, v) = (0, 0) \<and> arg_reg ln 0 = Inr rs1) \<or>
     (op = ''jalr'' \<and> length (ln_args ln) = 1 \<and> (rd, v) = (1, 0) \<and> arg_reg ln 0 = Inr rs1) \<or>
     (op = ''jalr'' \<and> length (ln_args ln) = 3 \<and> arg_reg ln 0 = Inr rd \<and>
        (arg_reg ln 1 = Inr rs1 \<and> arg_val ln syms 2 = Inr v \<or>
         arg_val ln syms 1 = Inr v \<and> arg_reg ln 2 = Inr rs1))"

lemma retry_Inr:
  assumes "(case m of Inr x \<Rightarrow> Inr x | Inl (AsmError _ _ _) \<Rightarrow> n | Inl e \<Rightarrow> Inl e) = Inr y"
  shows "m = Inr y \<or> n = Inr y"
  using assms by (auto split: sum.splits asm_exn.splits)

lemma enc_jalr_operands:
  assumes "enc_jalr ln syms = Inr ws"
  obtains rd rs1 v where "indirect_operands ln syms ''jalr'' rd rs1 v" "- 2048 \<le> v" "v < 2048"
    "ws = [i_type (Opcode_value OP_JALR) rd 0 rs1 (take_bit 12 v)]"
  using assms unfolding enc_jalr_def
  by (auto simp: bindE_Inr_iff fit_s_def asm_fail_def indirect_operands_def simp del: Opcode_value.simps
      split: if_splits dest!: retry_Inr intro: that)

lemma indirect_encoding:
  assumes "ln_op ln = Some op" "op \<in> {''jalr'', ''jr'', ''ret''}" "encode_line ln syms = Inr ws"
  obtains rd rs1 v where "indirect_operands ln syms op rd rs1 v" "- 2048 \<le> v" "v < 2048"
    "ws = [i_type (Opcode_value OP_JALR) rd 0 rs1 (take_bit 12 v)]"
proof -
  consider "op = ''jalr''" | "op = ''jr''" | "op = ''ret''" using assms(2) by blast
  then show thesis
  proof cases
    case 1
    with assms(1,3) enc_jalr_operands [of ln syms ws] that show thesis by (simp add: encode_jumps) blast
  next
    case 2
    with assms(1,3) show thesis
      using that [of 0 _ 0]
      by (auto simp: encode_pseudos enc_jr_def bindE_Inr_iff expect_args_def indirect_operands_def
          simp del: Opcode_value.simps split: if_splits)
  next
    case 3
    with assms(1,3) show thesis
      using that [of 0 1 0]
      by (auto simp: encode_pseudos enc_ret_def asm_fail_def indirect_operands_def
          simp del: Opcode_value.simps split: if_splits)
  qed
qed

lemma indirect_operands_ok: "indirect_operands ln syms op rd rs1 v \<Longrightarrow> reg_ok rd \<and> reg_ok rs1"
  by (auto simp: indirect_operands_def dest: arg_reg_ok)

text \<open>C19. \<open>jalr\<close> in all its spellings, \<open>jr\<close> and \<open>ret\<close> go to register plus offset with bit 0
  cleared, and leave the return address in the link register; if that address is not word-aligned they
  raise the misaligned-fetch trap in an unchanged state.\<close>

theorem indirect_line_correct:
  assumes "ln_op ln = Some op" "op \<in> {''jalr'', ''jr'', ''ret''}" "encode_line ln syms = Inr ws"
    and "regs_ok c" "\<not> halted c" "holds_code c (pc c) ws" "0 \<le> pc c" "pc c + 4 < 2 ^ 32"
  shows "\<exists>rd rs1 v. indirect_operands ln syms op rd rs1 v \<and>
    (if 4 dvd u32 (r c rs1 + v) AND NOT 1
     then \<exists>c'. steps_n 1 c = Inr c' \<and> reg_effect 1 c c' (u32 (r c rs1 + v) AND NOT 1) rd (pc c + 4)
     else step c = (Inl (target_trap ''JALR'' (pc c) (u32 (r c rs1 + v) AND NOT 1)), c))"
proof -
  obtain rd rs1 v where ops: "indirect_operands ln syms op rd rs1 v"
    and v: "- 2048 \<le> v" "v < 2048" and ws: "ws = [i_type (Opcode_value OP_JALR) rd 0 rs1 (take_bit 12 v)]"
    using indirect_encoding [OF assms(1-3)] .
  note ok = indirect_operands_ok [OF ops]
  have sv: "signed_take_bit 11 (take_bit 12 v) = v"
    using v by (simp add: signed_take_bit_take_bit signed_take_bit_id)
  have "exec_opcode (pc c) (i_type (Opcode_value OP_JALR) rd 0 rs1 (take_bit 12 v)) c =
      jump_result ''JALR'' (pc c) (u32 (r c rs1 + v) AND NOT 1) rd c"
    using exec_jalr_word [of rd rs1 "pc c" "take_bit 12 v" c] ok by (simp only: sv u32_and_not_1)
  from one_word_target [OF assms(5) _ assms(7,8) this] assms(6) ws ops show ?thesis
    by blast
qed

section \<open>Loads and stores\<close>

definition load_mnemonics :: "(string \<times> F3Load \<times> nat \<times> bool) list" where
  "load_mnemonics =
    [(''lb'', F3_LB, 1, True), (''lh'', F3_LH, 2, True), (''lw'', F3_LW, 4, False),
     (''lbu'', F3_LBU, 1, False), (''lhu'', F3_LHU, 2, False)]"

definition store_mnemonics :: "(string \<times> F3Store \<times> nat) list" where
  "store_mnemonics = [(''sb'', F3_SB, 1), (''sh'', F3_SH, 2), (''sw'', F3_SW, 4)]"

lemma load_mnemonics_rows:
  "list_all (\<lambda>(op, f, n, sg). map_of R_TABLE op = None \<and> map_of I_ALU_TABLE op = None \<and>
      op \<notin> {''slli'', ''srli'', ''srai''} \<and> map_of LOAD_TABLE op = Some (F3Load_value f) \<and>
      op \<notin> set directives \<and> load_width (F3Load_value f) = Some (int n, sg) \<and> (n = 4 \<longrightarrow> \<not> sg)) load_mnemonics"
  by code_simp

lemma store_mnemonics_rows:
  "list_all (\<lambda>(op, f, n). map_of R_TABLE op = None \<and> map_of I_ALU_TABLE op = None \<and>
      op \<notin> {''slli'', ''srli'', ''srai''} \<and> map_of LOAD_TABLE op = None \<and>
      map_of STORE_TABLE op = Some (F3Store_value f) \<and>
      op \<notin> set directives \<and> store_width (F3Store_value f) = Some (int n)) store_mnemonics"
  by code_simp

lemma load_mnemonics_width: "(op, f, n, sg) \<in> set load_mnemonics \<Longrightarrow> n = 1 \<or> n = 2 \<or> n = 4"
  by (auto simp: load_mnemonics_def)

lemma store_mnemonics_width: "(op, f, n) \<in> set store_mnemonics \<Longrightarrow> n = 1 \<or> n = 2 \<or> n = 4"
  by (auto simp: store_mnemonics_def)

text \<open>The value a load of \<open>n\<close> bytes leaves in its register.\<close>

definition loaded_value :: "cpu \<Rightarrow> int \<Rightarrow> nat \<Rightarrow> bool \<Rightarrow> int" where
  "loaded_value c addr n sg =
     (let v = le_read mem_get n (addr - mem_base c) (mem c) in u32 (if sg then sext v (8 * n) else v))"

lemma load_value:
  assumes "access_ok c addr n" "n = 4 \<longrightarrow> \<not> sg"
  shows "\<exists>v. load c addr (int n) sg = Inr v \<and> u32 v = loaded_value c addr n sg"
proof (cases sg)
  case True
  then have "n = 1 \<or> n = 2" using assms by (auto simp: access_ok_def)
  then show ?thesis
    using load_signed [OF assms(1)] True by (simp add: loaded_value_def Let_def)
next
  case False
  then show ?thesis
    using load_unsigned [OF assms(1)] by (simp add: loaded_value_def Let_def)
qed

text \<open>An access that is not aligned or not in memory raises, the kind saying which.\<close>

definition access_trap :: "string \<Rightarrow> cpu \<Rightarrow> int \<Rightarrow> nat \<Rightarrow> emu_exn" where
  "access_trap misaligned c addr n =
     Trap (if addr mod int n = 0 then ''mem-range'' else misaligned) (pc c)
       (''addr=0x'' @ fmt_x 8 addr @ '' size='' @ fmt_d (int n))"

lemma access_fails:
  assumes "\<not> access_ok c addr n" "n = 1 \<or> n = 2 \<or> n = 4"
  shows "load c addr (int n) sg = Inl (access_trap ''misaligned-load'' c addr n)"
    and "addr \<noteq> tohost_addr c \<Longrightarrow>
      store addr v (int n) c = (Inl (access_trap ''misaligned-store'' c addr n), c)"
  using assms width_mask [of n addr]
  by (auto simp: load_def store_def sx_simps access_ok_def access_trap_def mem_index_def)

text \<open>C13. A load line puts the little-endian value at register plus offset into its register, sign- or
  zero-extended as the mnemonic says, and changes nothing else; an access that is not aligned or not within
  memory raises the trap of its kind in an unchanged state.\<close>

theorem load_line_correct:
  assumes "(op, f, n, sg) \<in> set load_mnemonics" "ln_op ln = Some op" "encode_line ln syms = Inr ws"
    and "regs_ok c" "\<not> halted c" "holds_code c (pc c) ws" "0 \<le> pc c" "pc c + 4 < 2 ^ 32"
  shows "\<exists>rd v rs1. arg_reg ln 0 = Inr rd \<and> arg_val ln syms 1 = Inr v \<and> arg_reg ln 2 = Inr rs1 \<and>
    (if access_ok c (u32 (r c rs1 + v)) n
     then \<exists>c'. steps_n 1 c = Inr c' \<and>
       reg_effect 1 c c' (pc c + 4) rd (loaded_value c (u32 (r c rs1 + v)) n sg)
     else step c = (Inl (access_trap ''misaligned-load'' c (u32 (r c rs1 + v)) n), c))"
proof -
  note facts = load_mnemonics_rows [unfolded list_all_iff, THEN bspec, OF assms(1), simplified prod.case]
  have enc: "encode_line ln syms = enc_load ln syms op (F3Load_value f)"
    using facts assms(2) by (simp add: encode_line_def enc_insn_def directives_def)
  obtain rd v rs1 where args: "arg_reg ln 0 = Inr rd" "arg_val ln syms 1 = Inr v" "arg_reg ln 2 = Inr rs1"
    and v: "- 2048 \<le> v" "v < 2048"
    and ws: "ws = [i_type (Opcode_value OP_LOAD) rd (F3Load_value f) rs1 (take_bit 12 v)]"
    using assms(3) unfolding enc enc_load_def
    by (auto simp: bindE_Inr_iff fit_s_def simp del: Opcode_value.simps)
  let ?w = "i_type (Opcode_value OP_LOAD) rd (F3Load_value f) rs1 (take_bit 12 v)"
  let ?a = "u32 (r c rs1 + v)"
  have sv: "imm_i (i_type opcode rd (F3Load_value f) rs1 (take_bit 12 v)) = v" for opcode
    by (rule i_fmt.dec_enc) (use v in simp)
  have p4: "u32 (pc c + 4) = pc c + 4"
    using assms(7,8) by (simp add: u32_id)
  have exec: "exec_opcode (pc c) ?w c = (case load c ?a (int n) sg of
      Inl e \<Rightarrow> (Inl e, c) | Inr x \<Rightarrow> (Inr (u32 (pc c + 4), None), wr rd x c))"
    using facts arg_reg_ok [OF args(1)] arg_reg_ok [OF args(3)]
    by (simp add: exec_opcode_def i_type_fields sv exec_load_def no_store_def sx_simps take_bit_reg
        split: sum.splits)
  have "if access_ok c ?a n
      then \<exists>c'. steps_n 1 c = Inr c' \<and> reg_effect 1 c c' (u32 (pc c + 4)) rd (loaded_value c ?a n sg)
      else step c = (Inl (access_trap ''misaligned-load'' c ?a n), c)"
  proof (cases "access_ok c ?a n")
    case True
    then obtain x where "load c ?a (int n) sg = Inr x" and val: "u32 x = loaded_value c ?a n sg"
      using load_value facts by blast
    then have "exec_opcode (pc c) ?w c = (Inr (u32 (pc c + 4), None), wr rd x c)"
      by (simp only: exec sum.case)
    then have "\<exists>c'. steps_n 1 c = Inr c' \<and> reg_effect 1 c c' (u32 (pc c + 4)) rd (u32 x)"
      using one_word_reg [OF assms(5)] assms(6) ws by blast
    with True val show ?thesis by simp
  next
    case False
    then have "exec_opcode (pc c) ?w c = (Inl (access_trap ''misaligned-load'' c ?a n), c)"
      by (simp only: exec access_fails(1) [OF _ load_mnemonics_width [OF assms(1)]] sum.case not_False_eq_True)
    with False assms(5,6) ws show ?thesis by (simp add: step_raise [of c ?w])
  qed
  with args show ?thesis unfolding p4 by blast
qed

text \<open>
  The whole state after a store: an address other than \<open>tohost\<close> changes memory, \<open>tohost\<close> is recorded
  with the verdict and halts the CPU; besides, only the PC and the step counter move.
\<close>

definition store_effect :: "cpu \<Rightarrow> cpu \<Rightarrow> int \<Rightarrow> int \<Rightarrow> nat \<Rightarrow> int \<Rightarrow> bool" where
  "store_effect c c' next_pc addr n v \<longleftrightarrow>
     c' = (if addr = tohost_addr c
           then c\<lparr>tohost_value := Some (u32 v), halted := True,
                  halt_reason := Some (if u32 v = 1 then ''tohost-pass'' else ''tohost-fail'')\<rparr>
           else c\<lparr>mem := le_write mem_put n (addr - mem_base c) v (mem c)\<rparr>)
          \<lparr>pc := next_pc, steps := steps c + 1\<rparr>"

lemma store_outcome:
  assumes "a = tohost_addr c \<or> access_ok c a n"
  obtains c1 where "store a v (int n) c = (Inr (), c1)" "store_effect c (retire m c1) m a n v"
proof (cases "a = tohost_addr c")
  case True
  with that [OF store_tohost [of c v "int n", folded True]] show thesis
    by (simp add: store_effect_def retire_def)
next
  case False
  with assms that [OF store_memory [of c a n v]] show thesis
    by (simp add: store_effect_def retire_def)
qed

text \<open>C14. A store line writes the low bytes of its register at register plus offset and changes nothing
  but memory, the PC and the step counter. A store to the \<open>tohost\<close> address, of any width, leaves memory alone:
  it records the register and halts with the verdict, pass for 1 and fail for anything else. Any other access that is not
  aligned or not within memory raises the trap of its kind in an unchanged state.\<close>

theorem store_line_correct:
  assumes "(op, f, n) \<in> set store_mnemonics" "ln_op ln = Some op" "encode_line ln syms = Inr ws"
    and "\<not> halted c" "holds_code c (pc c) ws" "0 \<le> pc c" "pc c + 4 < 2 ^ 32"
  shows "\<exists>rs2 v rs1. arg_reg ln 0 = Inr rs2 \<and> arg_val ln syms 1 = Inr v \<and> arg_reg ln 2 = Inr rs1 \<and>
    (if u32 (r c rs1 + v) = tohost_addr c \<or> access_ok c (u32 (r c rs1 + v)) n
     then \<exists>c'. steps_n 1 c = Inr c' \<and> store_effect c c' (pc c + 4) (u32 (r c rs1 + v)) n (r c rs2)
     else step c = (Inl (access_trap ''misaligned-store'' c (u32 (r c rs1 + v)) n), c))"
proof -
  note facts = store_mnemonics_rows [unfolded list_all_iff, THEN bspec, OF assms(1), simplified prod.case]
  have enc: "encode_line ln syms = enc_store ln syms op (F3Store_value f)"
    using facts assms(2) by (simp add: encode_line_def enc_insn_def directives_def)
  obtain rs2 v rs1 where args: "arg_reg ln 0 = Inr rs2" "arg_val ln syms 1 = Inr v" "arg_reg ln 2 = Inr rs1"
    and v: "- 2048 \<le> v" "v < 2048"
    and ws: "ws = [s_type (Opcode_value OP_STORE) (F3Store_value f) rs1 rs2 (take_bit 12 v)]"
    using assms(3) unfolding enc enc_store_def
    by (auto simp: bindE_Inr_iff fit_s_def simp del: Opcode_value.simps)
  let ?w = "s_type (Opcode_value OP_STORE) (F3Store_value f) rs1 rs2 (take_bit 12 v)"
  let ?a = "u32 (r c rs1 + v)"
  have code: "fetches c (pc c) ?w"
    using assms(5) ws by simp
  have sv: "imm_s (s_type opcode (F3Store_value f) rs1 rs2 (take_bit 12 v)) = v" for opcode
    by (rule s_fmt.dec_enc) (use v in simp)
  have p4: "u32 (pc c + 4) = pc c + 4"
    using assms(6,7) by (simp add: u32_id)
  have exec: "exec_opcode (pc c) ?w c = (case store ?a (r c rs2) (int n) c of
      (Inl e, c') \<Rightarrow> (Inl e, c') | (Inr _, c') \<Rightarrow> (Inr (u32 (pc c + 4), Some (?a, u32 (r c rs2), int n)), c'))"
    using facts arg_reg_ok [OF args(1)] arg_reg_ok [OF args(3)]
    by (simp add: exec_opcode_def s_type_fields sv exec_store_def sx_simps take_bit_reg
        split: sum.splits prod.splits)
  have "if ?a = tohost_addr c \<or> access_ok c ?a n
      then \<exists>c'. steps_n 1 c = Inr c' \<and> store_effect c c' (u32 (pc c + 4)) ?a n (r c rs2)
      else step c = (Inl (access_trap ''misaligned-store'' c ?a n), c)"
  proof (cases "?a = tohost_addr c \<or> access_ok c ?a n")
    case True
    obtain c1 where c1: "store ?a (r c rs2) (int n) c = (Inr (), c1)"
      and eff: "store_effect c (retire (u32 (pc c + 4)) c1) (u32 (pc c + 4)) ?a n (r c rs2)"
      using store_outcome [OF True] by blast
    from c1 have "exec_opcode (pc c) ?w c = (Inr (u32 (pc c + 4), Some (?a, u32 (r c rs2), int n)), c1)"
      by (simp only: exec prod.case sum.case)
    from step_exec [OF assms(4) code this] eff True show ?thesis by simp
  next
    case False
    then have "exec_opcode (pc c) ?w c = (Inl (access_trap ''misaligned-store'' c ?a n), c)"
      by (simp only: exec access_fails(2) [OF _ store_mnemonics_width [OF assms(1)]] de_Morgan_disj prod.case sum.case
          not_False_eq_True)
    with False show ?thesis by (simp add: step_raise [OF assms(4) code])
  qed
  with args show ?thesis unfolding p4 by blast
qed

section \<open>Upper immediates\<close>

text \<open>C40. \<open>lui\<close> and \<open>auipc\<close> set the register to the operand shifted by 12, plus the PC for \<open>auipc\<close>,
  modulo 2^32, for negative operands too.\<close>

theorem upper_line_correct:
  assumes "ln_op ln = Some op" "op = ''lui'' \<or> op = ''auipc''" "encode_line ln syms = Inr ws"
    and "regs_ok c" "\<not> halted c" "holds_code c (pc c) ws" "0 \<le> pc c" "pc c + 4 < 2 ^ 32"
  shows "\<exists>rd v c'. arg_reg ln 0 = Inr rd \<and> arg_val ln syms 1 = Inr v \<and> steps_n 1 c = Inr c' \<and>
    reg_effect 1 c c' (pc c + 4) rd (u32 (v * 2 ^ 12 + (if op = ''auipc'' then pc c else 0)))"
proof -
  have enc: "encode_line ln syms = enc_upper ln syms op"
    using assms(1,2) by (auto simp: encode_jumps)
  obtain rd v where args: "arg_reg ln 0 = Inr rd" "arg_val ln syms 1 = Inr v"
    and ws: "ws = [u_type (Opcode_value (if op = ''lui'' then OP_LUI else OP_AUIPC)) rd (take_bit 20 v)]"
    using assms(3) unfolding enc enc_upper_def
    by (auto simp: bindE_Inr_iff Let_def asm_fail_def mask_simps simp del: Opcode_value.simps split: if_splits)
  note rd = arg_reg_ok [OF args(1)]
  have shift: "u32 (x + push_bit 12 (take_bit 20 v)) = u32 (v * 2 ^ 12 + x)" for x
  proof -
    have "take_bit 32 (push_bit 12 (take_bit 20 v)) = take_bit 32 (push_bit 12 v)"
      by (simp add: push_bit_take_bit)
    then have "take_bit 32 (x + push_bit 12 (take_bit 20 v)) = take_bit 32 (x + push_bit 12 v)"
      by (metis take_bit_add)
    then show ?thesis by (simp add: u32_take_bit push_bit_eq_mult add.commute)
  qed
  have "\<exists>c'. steps_n 1 c = Inr c' \<and> reg_effect 1 c c' (u32 (pc c + 4)) rd
      (u32 (v * 2 ^ 12 + (if op = ''auipc'' then pc c else 0)))"
  proof (cases "op = ''lui''")
    case True
    have "\<exists>c'. steps_n 1 c = Inr c' \<and>
        reg_effect 1 c c' (u32 (pc c + 4)) rd (u32 (push_bit 12 (take_bit 20 (take_bit 20 v))))"
      using assms(6) ws True by (intro one_word_reg [OF assms(5) _ exec_lui_word [OF rd]]) simp
    with True shift [of 0] show ?thesis by simp
  next
    case False
    have "\<exists>c'. steps_n 1 c = Inr c' \<and>
        reg_effect 1 c c' (u32 (pc c + 4)) rd (u32 (pc c + push_bit 12 (take_bit 20 (take_bit 20 v))))"
      using assms(6) ws False by (intro one_word_reg [OF assms(5) _ exec_auipc_word [OF rd]]) simp
    with False assms(2) shift [of "pc c"] show ?thesis by simp
  qed
  with args assms(7,8) show ?thesis by (auto simp: u32_id)
qed

section \<open>One-word pseudo-instructions on two registers\<close>

definition unary_value :: "string \<Rightarrow> int \<Rightarrow> int" where
  "unary_value op x = (if op = ''mv'' then u32 x else if op = ''not'' then u32 (NOT x) else u32 (- x))"

lemma enc_two_regs_Inr:
  "enc_two_regs ln op mk = Inr ws \<Longrightarrow>
     \<exists>rd rs. arg_reg ln 0 = Inr rd \<and> arg_reg ln 1 = Inr rs \<and> ws = [mk rd rs]"
  by (auto simp: enc_two_regs_def bindE_Inr_iff)

lemma unary_word:
  assumes "regs_ok c" "reg_ok rd" "reg_ok rs"
  shows "exec_opcode p (i_type (Opcode_value OP_IMM) rd (F3Op_value F3_ADD_SUB) rs 0) c =
      (Inr (u32 (p + 4), None), wr rd (r c rs) c)" (is ?mv)
    and "exec_opcode p (i_type (Opcode_value OP_IMM) rd (F3Op_value F3_XOR) rs (-1 AND 0xFFF)) c =
      (Inr (u32 (p + 4), None), wr rd (NOT (r c rs)) c)" (is ?not)
    and "exec_opcode p (r_type (Opcode_value OP_REG) rd (F3Op_value F3_ADD_SUB) 0 rs F7_ALT) c =
      (Inr (u32 (p + 4), None), wr rd (- r c rs) c)" (is ?neg)
proof -
  show ?mv using exec_addi_word [OF assms(2,3), of p 0 c] by simp
  have "imm_i (i_type opcode rd (F3Op_value F3_XOR) rs (-1 AND 0xFFF)) = - 1" for opcode
    using i_fmt.dec_enc [of "- 1"] by (simp add: mask_simps)
  then show ?not
    using assms(2,3)
    by (simp add: exec_opcode_def i_type_fields exec_imm_def no_store_def sx_simps take_bit_reg
        alu_imm_def wr_def)
  show ?neg
    using assms(2,3)
    by (simp add: exec_opcode_def r_type_fields exec_reg_def no_store_def sx_simps take_bit_reg
        alu_reg_def wr_def F7_ALT_def F7_DEFAULT_def emu_regs.read_zero)
qed

text \<open>\<open>mv\<close>, \<open>not\<close> and \<open>neg\<close> compute the identity, the complement and the negation modulo 2^32.\<close>

theorem unary_line_correct:
  assumes "ln_op ln = Some op" "op \<in> {''mv'', ''not'', ''neg''}" "encode_line ln syms = Inr ws"
    and "regs_ok c" "\<not> halted c" "holds_code c (pc c) ws" "0 \<le> pc c" "pc c + 4 < 2 ^ 32"
  shows "\<exists>rd rs c'. arg_reg ln 0 = Inr rd \<and> arg_reg ln 1 = Inr rs \<and> steps_n 1 c = Inr c' \<and>
    reg_effect 1 c c' (pc c + 4) rd (unary_value op (r c rs))"
proof -
  define mk where "mk rd rs =
    (if op = ''mv'' then i_type (Opcode_value OP_IMM) rd (F3Op_value F3_ADD_SUB) rs 0
     else if op = ''not'' then i_type (Opcode_value OP_IMM) rd (F3Op_value F3_XOR) rs (-1 AND 0xFFF)
     else r_type (Opcode_value OP_REG) rd (F3Op_value F3_ADD_SUB) 0 rs F7_ALT)" for rd rs
  define val where "val x = (if op = ''mv'' then x else if op = ''not'' then NOT x else - x)" for x :: int
  have "encode_line ln syms = enc_two_regs ln op mk"
    using assms(1,2) by (auto simp: encode_pseudos mk_def [abs_def])
  then obtain rd rs where args: "arg_reg ln 0 = Inr rd" "arg_reg ln 1 = Inr rs" and ws: "ws = [mk rd rs]"
    using enc_two_regs_Inr assms(3) by metis
  have "exec_opcode (pc c) (mk rd rs) c = (Inr (u32 (pc c + 4), None), wr rd (val (r c rs)) c)"
    using unary_word [OF assms(4) arg_reg_ok [OF args(1)] arg_reg_ok [OF args(2)], of "pc c"]
    unfolding mk_def val_def by presburger
  then have "\<exists>c'. steps_n 1 c = Inr c' \<and> reg_effect 1 c c' (u32 (pc c + 4)) rd (u32 (val (r c rs)))"
    using assms(6) ws by (intro one_word_reg [OF assms(5)]) simp_all
  moreover have "u32 (val x) = unary_value op x" for x
    by (simp add: val_def unary_value_def)
  ultimately show ?thesis using args assms(7,8) by (auto simp: u32_id)
qed

section \<open>Two-word pseudo-instructions\<close>

lemma two_words_effect:
  "steps_n 2 c = Inr ((wr rd v c)\<lparr>pc := m, steps := steps c + 2\<rparr>) \<Longrightarrow>
     \<exists>c'. steps_n 2 c = Inr c' \<and> reg_effect 2 c c' m rd (u32 v)"
  using reg_effect_wr [where n = 2 and c = c] by simp

text \<open>C15. \<open>li\<close> takes two instructions and leaves its operand modulo 2^32 in the register, whatever the
  sign of the low half; every other register is unchanged.\<close>

theorem li_line_correct:
  assumes "ln_op ln = Some ''li''" "encode_line ln syms = Inr ws"
    and "regs_ok c" "\<not> halted c" "holds_code c (pc c) ws" "0 \<le> pc c" "pc c + 8 < 2 ^ 32"
  shows "\<exists>rd v c'. arg_reg ln 0 = Inr rd \<and> arg_val ln syms 1 = Inr v \<and> steps_n 2 c = Inr c' \<and>
    reg_effect 2 c c' (pc c + 8) rd (u32 v)"
proof -
  obtain rd v where args: "arg_reg ln 0 = Inr rd" "arg_val ln syms 1 = Inr v" and ws: "ws = li_words rd v"
    using assms(1,2) by (auto simp: encode_pseudos enc_li_def bindE_Inr_iff)
  have "\<exists>c'. steps_n 2 c = Inr c' \<and> reg_effect 2 c c' (pc c + 8) rd (u32 v)"
    using two_words_effect [OF li_exec [OF assms(3,4) arg_reg_ok [OF args(1)] assms(6,7)]] assms(5) ws by blast
  with args show ?thesis by blast
qed

text \<open>C16. \<open>la\<close>, assembled for its address, leaves the absolute address of the symbol in the register.\<close>

theorem la_line_correct:
  assumes "ln_op ln = Some ''la''" "encode_line ln syms = Inr ws" "ln_pc ln = pc c"
    and "regs_ok c" "\<not> halted c" "holds_code c (pc c) ws" "0 \<le> pc c" "pc c + 8 < 2 ^ 32"
  shows "\<exists>rd target c'. arg_reg ln 0 = Inr rd \<and> arg_val ln syms 1 = Inr target \<and> steps_n 2 c = Inr c' \<and>
    reg_effect 2 c c' (pc c + 8) rd (u32 target)"
proof -
  obtain rd target where args: "arg_reg ln 0 = Inr rd" "arg_val ln syms 1 = Inr target"
    and ws: "ws = la_words rd target (pc c)"
    using assms(1-3) by (auto simp: encode_pseudos enc_la_def bindE_Inr_iff)
  have "\<exists>c'. steps_n 2 c = Inr c' \<and> reg_effect 2 c c' (pc c + 8) rd (u32 target)"
    using two_words_effect [OF la_exec [OF assms(4,5) arg_reg_ok [OF args(1)] assms(7,8)]] assms(6) ws by blast
  with args show ?thesis by blast
qed

text \<open>C17. \<open>call\<close>, assembled for its address, goes to the symbol's address with bit 0 cleared and leaves the
  address behind its two words in \<open>ra\<close>. If that address is not word-aligned, the first word executes and the
  second raises the misaligned-fetch trap.\<close>

theorem call_line_correct:
  assumes "ln_op ln = Some ''call''" "encode_line ln syms = Inr ws" "ln_pc ln = pc c"
    and "regs_ok c" "\<not> halted c" "holds_code c (pc c) ws" "0 \<le> pc c" "pc c + 8 < 2 ^ 32"
  shows "\<exists>target. arg_val ln syms 0 = Inr target \<and>
    (if 4 dvd u32 target AND NOT 1
     then \<exists>c'. steps_n 2 c = Inr c' \<and> reg_effect 2 c c' (u32 target AND NOT 1) 1 (pc c + 8)
     else \<exists>t c1. step c = (Inr t, c1) \<and> pc c1 = pc c + 4 \<and>
            step c1 = (Inl (target_trap ''JALR'' (pc c + 4) (u32 target AND NOT 1)), c1))"
proof -
  obtain target where args: "arg_val ln syms 0 = Inr target" and ws: "ws = call_words target (pc c)"
    using assms(1-3) by (auto simp: encode_pseudos enc_call_def bindE_Inr_iff)
  have ra: "u32 (pc c + 8) = pc c + 8"
    using assms(7,8) by (simp add: u32_id)
  note call = call_exec [OF assms(4,5,7,8) assms(6) [unfolded ws]]
  show ?thesis
    using args call(2) two_words_effect [OF call(1), unfolded ra] by metis
qed

end
