(* ===== verification/Emu_Stretch.thy ===== *)
theory Emu_Stretch
  imports Asm_Flow
begin

text \<open>
  Stretches of execution: a number of steps that write registers only. One lemma per instruction
  the loops of the benchmarks use says what its packed word does, so that a loop is a composition
  of such lemmas.
\<close>

section \<open>Composing stretches\<close>

definition goes :: "cpu \<Rightarrow> nat \<Rightarrow> cpu \<Rightarrow> bool" where
  "goes c k d \<longleftrightarrow> steps_n k c = Inr d \<and> mem d = mem c \<and> mem_base d = mem_base c \<and>
     trap_on_ecall d = trap_on_ecall c \<and> regs_ok d \<and> \<not> halted d \<and> steps d = steps c + int k"

lemma steps_n_add: "steps_n j a = Inr b \<Longrightarrow> steps_n (j + k) a = steps_n k b"
proof (induction j arbitrary: a)
  case (Suc j)
  then obtain t a1 where "step a = (Inr t, a1)" "steps_n j a1 = Inr b"
    by (auto split: prod.splits sum.splits)
  with Suc.IH [of a1] show ?case by simp
qed simp

lemma goes_0: "regs_ok c \<Longrightarrow> \<not> halted c \<Longrightarrow> goes c 0 c"
  by (simp add: goes_def)

lemma goes_trans: "goes a j b \<Longrightarrow> goes b k c \<Longrightarrow> goes a (j + k) c"
  by (simp add: goes_def steps_n_add)

lemma goes_holds: "goes c k d \<Longrightarrow> holds_code d a ws = holds_code c a ws"
  using holds_code_cong [of d c] by (simp add: goes_def)

lemma goes_fetches: "goes c k d \<Longrightarrow> fetches d a w = fetches c a w"
  using fetch_cong [of d c] by (simp add: goes_def)

lemma goes_state: "goes c k d \<Longrightarrow> regs_ok d" "goes c k d \<Longrightarrow> \<not> halted d"
  by (simp_all add: goes_def)

lemma trap_on_ecall_retire [simp]: "trap_on_ecall (retire n (wr i v c)) = trap_on_ecall c"
  by (simp add: retire_def wr_def)

lemma goes_word:
  assumes "regs_ok c" "\<not> halted c" "reg_ok rd" "fetches c (pc c) w"
    and "exec_opcode (pc c) w c = (Inr (n, None), wr rd v c)"
  shows "goes c 1 (retire n (wr rd v c))"
  using step_exec [OF assms(2,4,5)] assms(1-3) by (simp add: goes_def emu_regs.write_ok)

lemma goes_word_plain:
  assumes "regs_ok c" "\<not> halted c" "fetches c (pc c) w"
    and "exec_opcode (pc c) w c = (Inr (n, None), c)"
  shows "goes c 1 (retire n c)"
  using goes_word [OF assms(1,2) reg_ok_simps(1) assms(3), of n 0] assms(4) by simp

text \<open>The run loop passes through a stretch that ends within its step limit.\<close>

lemma run_steps_n: "steps_n k c = Inr d \<Longrightarrow> steps c + int k \<le> n \<Longrightarrow> run n c = run n d"
proof (induction k arbitrary: c)
  case (Suc k)
  obtain t c1 where st: "step c = (Inr t, c1)" and rest: "steps_n k c1 = Inr d"
    using Suc.prems(1) by (auto split: prod.splits sum.splits)
  have "\<not> halted c"
    using st by (auto simp: step_def sx_simps)
  with Suc.IH [OF rest] Suc.prems(2) run_step [OF _ _ st, of n] step_steps [OF st] show ?case by simp
qed simp

lemma run_goes: "goes c k d \<Longrightarrow> steps c + int k \<le> n \<Longrightarrow> run n c = run n d"
  unfolding goes_def by (elim conjE) (rule run_steps_n)

section \<open>One lemma per instruction\<close>

lemma wr_u32: "wr i (u32 v) c = wr i v c"
  by (simp add: wr_def)

lemma uint_word_of_int_u32: "uint (word_of_int x :: u32w) = u32 x"
  by (simp add: uint_word_of_int_eq u32_take_bit)

text \<open>A running CPU whose next PC does not wrap.\<close>

definition ready :: "cpu \<Rightarrow> bool" where
  "ready c \<longleftrightarrow> regs_ok c \<and> \<not> halted c \<and> 0 \<le> pc c \<and> pc c + 4 < 2 ^ 32"

lemma ready_retire [simp]: "ready c \<Longrightarrow> ready (retire n c) \<longleftrightarrow> 0 \<le> n \<and> n + 4 < 2 ^ 32"
  by (auto simp: ready_def)

lemma ready_wr [simp]: "ready c \<Longrightarrow> reg_ok i \<Longrightarrow> ready (wr i v c)"
  by (simp add: ready_def emu_regs.write_ok)

lemma next_pc: "ready c \<Longrightarrow> u32 (pc c + 4) = pc c + 4"
  by (simp add: ready_def u32_id)

lemma goes_add:
  assumes "ready c" "reg_ok rd" "reg_ok rs1" "reg_ok rs2"
    and "fetches c (pc c) (r_type (Opcode_value OP_REG) rd (F3Op_value F3_ADD_SUB) rs1 rs2 F7_DEFAULT)"
  shows "goes c 1 (retire (pc c + 4) (wr rd (r c rs1 + r c rs2) c))"
proof -
  have "wr rd (uint (reg_word c rs1 + reg_word c rs2)) c = wr rd (r c rs1 + r c rs2) c"
    using uint_word_of_int_u32 [of "r c rs1 + r c rs2"] by (simp add: wr_u32)
  then show ?thesis
    using goes_word [OF _ _ assms(2,5) exec_reg_word [OF _ assms(2-4)]] next_pc [OF assms(1)] assms(1)
    by (simp add: legal_reg_def rtl_alu_op_reg_def F7_DEFAULT_def F7_ALT_def ready_def)
qed

lemma goes_sub:
  assumes "ready c" "reg_ok rd" "reg_ok rs1" "reg_ok rs2"
    and "fetches c (pc c) (r_type (Opcode_value OP_REG) rd (F3Op_value F3_ADD_SUB) rs1 rs2 F7_ALT)"
  shows "goes c 1 (retire (pc c + 4) (wr rd (r c rs1 - r c rs2) c))"
proof -
  have "wr rd (uint (reg_word c rs1 - reg_word c rs2)) c = wr rd (r c rs1 - r c rs2) c"
    using uint_word_of_int_u32 [of "r c rs1 - r c rs2"] by (simp add: wr_u32)
  then show ?thesis
    using goes_word [OF _ _ assms(2,5) exec_reg_word [OF _ assms(2-4)]] next_pc [OF assms(1)] assms(1)
    by (simp add: legal_reg_def rtl_alu_op_reg_def F7_DEFAULT_def F7_ALT_def ready_def)
qed

lemma goes_addi:
  assumes "ready c" "reg_ok rd" "reg_ok rs1" "- 2048 \<le> v" "v < 2048"
    and "fetches c (pc c) (i_type (Opcode_value OP_IMM) rd (F3Op_value F3_ADD_SUB) rs1 (take_bit 12 v))"
  shows "goes c 1 (retire (pc c + 4) (wr rd (r c rs1 + v) c))"
  using goes_word [OF _ _ assms(2,6) exec_addi_word [OF assms(2,3)]] assms(1,4,5) next_pc [OF assms(1)]
  by (simp add: signed_take_bit_take_bit signed_take_bit_id ready_def)

lemma goes_branch:
  assumes "ready c" "reg_ok rs1" "reg_ok rs2" "even v" "- 4096 \<le> v" "v < 4096"
    and "4 dvd pc c + v" "0 \<le> pc c + v" "pc c + v < 2 ^ 32"
    and "rtl_branch_op (F3Branch_value f) = Some bop"
    and "fetches c (pc c) (b_type (Opcode_value OP_BRANCH) (F3Branch_value f) rs1 rs2 (take_bit 13 v))"
  shows "goes c 1 (retire (pc c + (if rtl_taken bop (reg_word c rs1) (reg_word c rs2) then v else 4)) c)"
  using goes_word_plain [OF _ _ assms(11)] exec_branch_word [OF _ assms(2,3,5,6,10), of c "pc c", unfolded and_not_1 [OF assms(4)]] assms(1,7-9)
    next_pc [OF assms(1)]
  by (auto simp: u32_id ready_def jump_result_def u32_dvd_4)

lemma goes_jump:
  assumes "ready c" "even v" "- 1048576 \<le> v" "v < 1048576" "4 dvd pc c + v" "0 \<le> pc c + v" "pc c + v < 2 ^ 32"
    and "fetches c (pc c) (j_type (Opcode_value OP_JAL) 0 (take_bit 21 v))"
  shows "goes c 1 (retire (pc c + v) c)"
  using goes_word_plain [OF _ _ assms(8)] exec_jal_word [OF reg_ok_simps(1) assms(3,4), of "pc c" c, unfolded and_not_1 [OF assms(2)]] assms(1,5-7)
  by (simp add: u32_id ready_def jump_result_def u32_dvd_4)

lemma goes_ret:
  assumes "ready c" "4 dvd r c 1" "fetches c (pc c) (i_type (Opcode_value OP_JALR) 0 0 1 0)"
  shows "goes c 1 (retire (r c 1) c)"
proof -
  have "even (r c 1)"
    using assms(2) by presburger
  then have target: "u32 ((r c 1 + signed_take_bit 11 0) AND NOT 1) = r c 1"
    using assms(1) u32_uint_reg [OF _ reg_ok_simps(2), of c]
    by (simp only: signed_take_bit_of_0 add_0_right and_not_1 ready_def)
  have "exec_opcode (pc c) (i_type (Opcode_value OP_JALR) 0 0 1 0) c = (Inr (r c 1, None), c)"
    using exec_jalr_word [OF reg_ok_simps(1,2), of "pc c" 0 c, unfolded target] assms(2)
    by (simp add: jump_result_def)
  then show ?thesis
    using goes_word_plain [OF _ _ assms(3)] assms(1) by (simp add: ready_def)
qed

end
