(* ===== verification/Programs.thy ===== *)
theory Programs
  imports Benchmark_Runs Emu_Stretch
begin

text \<open>
  The loops of the benchmarks for every input: the multiplication subroutine and the subtractive gcd,
  as the words the assembler makes of them, executed by the emulator at any address.
\<close>

section \<open>The multiplication subroutine\<close>

definition MUL_WORDS :: "int list" where
  "MUL_WORDS = [1555, 19, 362595, 10880563, 4294280595, 4284477551, 32871]"

lemma mul_assembled: "assemble MUL 0 None = Inr MUL_WORDS"
proof -
  have "flat_program MUL 0 = Some MUL_WORDS" by code_simp
  then show ?thesis by (rule assemble_flat_lemma) simp
qed

lemma mul_packed: "MUL_WORDS =
    [i_type (Opcode_value OP_IMM) 12 (F3Op_value F3_ADD_SUB) 0 (take_bit 12 0),
     i_type (Opcode_value OP_IMM) 0 (F3Op_value F3_ADD_SUB) 0 (take_bit 12 0),
     b_type (Opcode_value OP_BRANCH) (F3Branch_value F3_BEQ) 11 0 (take_bit 13 16),
     r_type (Opcode_value OP_REG) 12 (F3Op_value F3_ADD_SUB) 12 10 F7_DEFAULT,
     i_type (Opcode_value OP_IMM) 11 (F3Op_value F3_ADD_SUB) 11 (take_bit 12 (- 1)),
     j_type (Opcode_value OP_JAL) 0 (take_bit 21 (- 12)),
     i_type (Opcode_value OP_JALR) 0 0 1 0]"
  by code_simp

lemma gcd_loop_packed: "drop 4 GCD_WORDS =
    [b_type (Opcode_value OP_BRANCH) (F3Branch_value F3_BEQ) 10 11 (take_bit 13 24),
     b_type (Opcode_value OP_BRANCH) (F3Branch_value F3_BLT) 10 11 (take_bit 13 12),
     r_type (Opcode_value OP_REG) 10 (F3Op_value F3_ADD_SUB) 10 11 F7_ALT,
     j_type (Opcode_value OP_JAL) 0 (take_bit 21 (- 12)),
     r_type (Opcode_value OP_REG) 11 (F3Op_value F3_ADD_SUB) 11 10 F7_ALT,
     j_type (Opcode_value OP_JAL) 0 (take_bit 21 (- 20)),
     i_type (Opcode_value OP_SYSTEM) 0 0 0 F12_ECALL]"
  by code_simp

text \<open>Registers the loops use.\<close>

lemma reg_ok_args [simp]: "reg_ok 10" "reg_ok 11" "reg_ok 12"
  by (simp_all add: reg_ok_def)

lemmas reg_rules = emu_regs.read_write emu_regs.read_zero emu_regs.write_ok

text \<open>Registers as words: equal exactly when their numbers are.\<close>

lemma reg_word_eq:
  "regs_ok c \<Longrightarrow> reg_ok i \<Longrightarrow> reg_ok j \<Longrightarrow> reg_word c i = reg_word c j \<longleftrightarrow> r c i = r c j"
  by (metis uint_reg_word)

lemma reg_range: "regs_ok c \<Longrightarrow> reg_ok i \<Longrightarrow> 0 \<le> r c i \<and> r c i < 2 ^ 32"
  using emu_regs.read_word [of c i] u32_range [of "r c i"] by simp

text \<open>One round of the loop, from its head at \<open>p\<close> back to it.\<close>

lemma mul_round:
  assumes "ready c" "pc c = p + 8" "0 \<le> p" "p + 28 < 2 ^ 32" "holds_code c p MUL_WORDS" "r c 11 \<noteq> 0"
  shows "\<exists>d. goes c 4 d \<and> pc d = p + 8 \<and> r d 11 = r c 11 - 1 \<and> r d 12 = u32 (r c 12 + r c 10) \<and>
    (\<forall>i. reg_ok i \<longrightarrow> i \<noteq> 11 \<longrightarrow> i \<noteq> 12 \<longrightarrow> r d i = r c i)"
proof -
  note code = assms(5) [unfolded mul_packed, simplified holds_code.simps, simplified add.assoc, simplified]
  have ok: "regs_ok c" "\<not> halted c" and al: "4 dvd p"
    using assms(1) code fetches_aligned by (auto simp: ready_def)
  have nz: "reg_word c 11 \<noteq> reg_word c 0"
    using reg_word_eq [OF ok(1), of 11 0] assms(6) by (simp add: emu_regs.read_zero)
  define c1 where "c1 = retire (p + 12) c"
  define c2 where "c2 = retire (p + 16) (wr 12 (r c1 12 + r c1 10) c1)"
  define c3 where "c3 = retire (p + 20) (wr 11 (r c2 11 - 1) c2)"
  define c4 where "c4 = retire (p + 8) c3"
  have r1: "ready c1" and r2: "ready c2" and r3: "ready c3"
    using assms(1,3,4) by (simp_all add: c1_def c2_def c3_def)
  have g1: "goes c 1 c1"
    using goes_branch [OF assms(1), of 11 0 16 F3_BEQ BR_EQ] code al assms(2-4) nz
    by (simp add: c1_def rtl_branch_op_def add.commute [of _ p])
  have g2: "goes c1 1 c2"
    using goes_add [OF r1, of 12 12 10] code goes_fetches [OF g1] by (simp add: c1_def c2_def add.commute [of _ p])
  note g12 = goes_trans [OF g1 g2]
  have g3: "goes c2 1 c3"
    using goes_addi [OF r2, of 11 11 "- 1"] code goes_fetches [OF g12] by (simp add: c2_def c3_def add.commute [of _ p])
  note g13 = goes_trans [OF g12 g3]
  have g4: "goes c3 1 c4"
    using goes_jump [OF r3, of "- 12"] code al assms(3,4) goes_fetches [OF g13] by (simp add: c3_def c4_def add.commute [of _ p])
  have "goes c 4 c4"
    using goes_trans [OF g13 g4] by (simp add: eval_nat_numeral)
  moreover have "r c4 11 = r c 11 - 1"
    using reg_range [OF ok(1), of 11] assms(6) ok
    by (simp add: c1_def c2_def c3_def c4_def reg_rules u32_id)
  moreover have "r c4 12 = u32 (r c 12 + r c 10)" "\<forall>i. reg_ok i \<longrightarrow> i \<noteq> 11 \<longrightarrow> i \<noteq> 12 \<longrightarrow> r c4 i = r c i"
    using ok by (simp_all add: c1_def c2_def c3_def c4_def reg_rules)
  moreover have "pc c4 = p + 8"
    by (simp add: c4_def)
  ultimately show ?thesis by blast
qed

text \<open>The whole loop, by induction on the counter.\<close>

lemma mul_loop:
  assumes "r c 11 = int n" "ready c" "pc c = p + 8" "0 \<le> p" "p + 28 < 2 ^ 32" "holds_code c p MUL_WORDS"
    and "4 dvd r c 1"
  shows "\<exists>d. goes c (4 * n + 2) d \<and> pc d = r c 1 \<and> r d 11 = 0 \<and> r d 12 = u32 (r c 12 + r c 10 * int n) \<and>
    (\<forall>i. reg_ok i \<longrightarrow> i \<noteq> 11 \<longrightarrow> i \<noteq> 12 \<longrightarrow> r d i = r c i)"
  using assms
proof (induction n arbitrary: c)
  case 0
  note code = "0.prems"(6) [unfolded mul_packed, simplified holds_code.simps, simplified add.assoc, simplified]
  have al: "4 dvd p"
    using code fetches_aligned by blast
  have eq: "reg_word c 11 = reg_word c 0"
    using "0.prems"(1) by (simp add: emu_regs.read_zero)
  define c1 where "c1 = retire (p + 24) c"
  have g1: "goes c 1 c1"
    using goes_branch [OF "0.prems"(2), of 11 0 16 F3_BEQ BR_EQ] code al "0.prems"(2-5) eq
    by (simp add: c1_def rtl_branch_op_def add.commute [of _ p])
  have r1: "ready c1"
    using "0.prems"(2,4,5) by (simp add: c1_def)
  have g2: "goes c1 1 (retire (r c 1) c1)"
    using goes_ret [OF r1] code "0.prems"(7) goes_fetches [OF g1] by (simp add: c1_def)
  have "r c 12 = u32 (r c 12)"
    using "0.prems"(2) emu_regs.read_word [of c 12] by (simp add: ready_def)
  then show ?case
    using goes_trans [OF g1 g2] "0.prems"(1) by (intro exI [of _ "retire (r c 1) c1"]) (simp add: c1_def)
next
  case (Suc n)
  obtain d where g: "goes c 4 d"
    and d: "pc d = p + 8" "r d 11 = r c 11 - 1" "r d 12 = u32 (r c 12 + r c 10)"
      "\<forall>i. reg_ok i \<longrightarrow> i \<noteq> 11 \<longrightarrow> i \<noteq> 12 \<longrightarrow> r d i = r c i"
    using mul_round [OF Suc.prems(2-6)] Suc.prems(1) by auto
  have "ready d"
    using goes_state [OF g] d(1) Suc.prems(4,5) by (simp add: ready_def)
  then obtain e where e: "goes d (4 * n + 2) e" "pc e = r d 1" "r e 11 = 0"
      "r e 12 = u32 (r d 12 + r d 10 * int n)" "\<forall>i. reg_ok i \<longrightarrow> i \<noteq> 11 \<longrightarrow> i \<noteq> 12 \<longrightarrow> r e i = r d i"
    using Suc.IH [of d] d Suc.prems(1,4-7) goes_holds [OF g] by auto
  have "r e 12 = u32 (r c 12 + r c 10 * int (Suc n))"
  proof -
    have "r c 12 + r c 10 * int (Suc n) = (r c 12 + r c 10) + r c 10 * int n"
      by (simp add: algebra_simps)
    then show ?thesis
      using e(4) d(3,4) by (simp only: u32_take_bit take_bit_add_left reg_ok_args)
  qed
  then show ?case
    using goes_trans [OF g e(1)] e d by (intro exI [of _ e]) (simp add: algebra_simps)
qed

text \<open>C8. The multiplication subroutine of the benchmarks, assembled and placed anywhere, returns to its
  caller after \<open>4 * a1 + 4\<close> steps with the low 32 bits of the product of \<open>a0\<close> and \<open>a1\<close> in \<open>a2\<close> and
  zero in \<open>a1\<close>, and leaves every other register and the memory as they were.\<close>

theorem mul_correct:
  assumes "assemble MUL 0 None = Inr code" "holds_code c (pc c) code"
    and "regs_ok c" "\<not> halted c" "0 \<le> pc c" "pc c + 28 < 2 ^ 32" "4 dvd r c 1"
  shows "\<exists>d. steps_n (4 * nat (r c 11) + 4) c = Inr d \<and> pc d = r c 1 \<and> r d 12 = u32 (r c 10 * r c 11) \<and>
    r d 11 = 0 \<and> mem d = mem c \<and> \<not> halted d \<and>
    (\<forall>i. reg_ok i \<longrightarrow> i \<noteq> 11 \<longrightarrow> i \<noteq> 12 \<longrightarrow> r d i = r c i)"
proof -
  let ?p = "pc c"
  have words: "holds_code c ?p MUL_WORDS"
    using assms(1,2) mul_assembled by simp
  note code = words [unfolded mul_packed, simplified holds_code.simps, simplified add.assoc, simplified]
  define c1 where "c1 = retire (?p + 4) (wr 12 0 c)"
  define c2 where "c2 = retire (?p + 8) c1"
  have r0: "ready c" and r1: "ready c1" and r2: "ready c2"
    using assms(3-6) by (simp_all add: c1_def c2_def ready_def emu_regs.write_ok)
  have g1: "goes c 1 c1"
    using goes_addi [OF r0, of 12 0 0] code by (simp add: c1_def emu_regs.read_zero)
  have g2: "goes c1 1 c2"
    using goes_addi [OF r1, of 0 0 0] code goes_fetches [OF g1] by (simp add: c1_def c2_def add.commute [of _ ?p])
  note g = goes_trans [OF g1 g2]
  have regs: "reg_ok i \<Longrightarrow> r c2 i = (if i = 12 then 0 else r c i)" for i
    using assms(3) by (simp add: c1_def c2_def reg_rules u32_id)
  have a1: "r c 11 = int (nat (r c 11))"
    using reg_range [OF assms(3), of 11] by simp
  obtain d where d: "goes c2 (4 * nat (r c 11) + 2) d" "pc d = r c2 1" "r d 11 = 0"
      "r d 12 = u32 (r c2 12 + r c2 10 * int (nat (r c 11)))"
      "\<forall>i. reg_ok i \<longrightarrow> i \<noteq> 11 \<longrightarrow> i \<noteq> 12 \<longrightarrow> r d i = r c2 i"
    using mul_loop [of c2 "nat (r c 11)" ?p] r2 assms(5-7) words a1 regs goes_holds [OF g]
    by (auto simp: c2_def)
  have "goes c (4 * nat (r c 11) + 4) d"
    using goes_trans [OF g d(1)] by (simp add: numeral_eq_Suc)
  with d a1 regs show ?thesis
    by (intro exI [of _ d]) (simp add: goes_def)
qed

section \<open>The subtractive gcd\<close>

lemma signed_less_word:
  assumes "0 \<le> a" "a < 2 ^ 31" "0 \<le> b" "b < 2 ^ 31"
  shows "(word_of_int a :: u32w) <s word_of_int b \<longleftrightarrow> a < b"
  using assms by (simp add: word_sless_alt sint_sbintrunc' signed_take_bit_int_eq_self)

text \<open>The head of the loop at \<open>p\<close>, with two positive operands.\<close>

definition gcd_head :: "cpu \<Rightarrow> int \<Rightarrow> bool" where
  "gcd_head c p \<longleftrightarrow> ready c \<and> pc c = p \<and> 0 \<le> p \<and> p + 28 < 2 ^ 32 \<and> holds_code c p (drop 4 GCD_WORDS) \<and>
     0 < r c 10 \<and> r c 10 < 2 ^ 31 \<and> 0 < r c 11 \<and> r c 11 < 2 ^ 31"

lemma gcd_round:
  assumes "gcd_head c p" "r c 10 \<noteq> r c 11"
  shows "\<exists>d. goes c 4 d \<and> gcd_head d p \<and> gcd (r d 10) (r d 11) = gcd (r c 10) (r c 11) \<and>
    r d 10 + r d 11 < r c 10 + r c 11"
proof -
  note head = assms(1) [unfolded gcd_head_def]
  have rdy: "ready c" and ok: "regs_ok c" "\<not> halted c" and p: "pc c = p" "0 \<le> p" "p + 28 < 2 ^ 32"
    using head by (auto simp: ready_def)
  have words: "holds_code c p (drop 4 GCD_WORDS)"
    using head by blast
  note code = words [unfolded gcd_loop_packed, simplified holds_code.simps, simplified add.assoc, simplified]
  have al: "4 dvd p"
    using code fetches_aligned by blast
  have ne: "reg_word c 10 \<noteq> reg_word c 11"
    using reg_word_eq [OF ok(1), of 10 11] assms(2) by simp
  have lt: "reg_word c 10 <s reg_word c 11 \<longleftrightarrow> r c 10 < r c 11"
    using head by (intro signed_less_word) auto
  define c1 where "c1 = retire (p + 4) c"
  define q where "q = (if r c 10 < r c 11 then p + 16 else p + 8)"
  define i where "i = (if r c 10 < r c 11 then 11 else 10 :: int)"
  define v where "v = (if r c 10 < r c 11 then r c 11 - r c 10 else r c 10 - r c 11)"
  define c2 where "c2 = retire q c1"
  define c3 where "c3 = retire (q + 4) (wr i v c2)"
  define c4 where "c4 = retire p c3"
  have i: "reg_ok i" "i \<noteq> 0"
    by (simp_all add: i_def)
  have r1: "ready c1" and r2: "ready c2" and r3: "ready c3"
    using rdy p i by (simp_all add: c1_def c2_def c3_def q_def)
  have g1: "goes c 1 c1"
    using goes_branch [OF rdy, of 10 11 24 F3_BEQ BR_EQ] code al p ne
    by (simp add: c1_def rtl_branch_op_def add.commute [of _ p])
  have g2: "goes c1 1 c2"
    using goes_branch [OF r1, of 10 11 12 F3_BLT BR_LT] code al p lt goes_fetches [OF g1]
    by (cases "r c 10 < r c 11") (simp_all add: c1_def c2_def q_def rtl_branch_op_def add.commute [of _ p])
  note g12 = goes_trans [OF g1 g2]
  have g3: "goes c2 1 c3"
    using goes_sub [OF r2, of 11 11 10] goes_sub [OF r2, of 10 10 11] code goes_fetches [OF g12]
    by (auto simp: c1_def c2_def c3_def q_def i_def v_def add.commute [of _ p])
  note g13 = goes_trans [OF g12 g3]
  have g4: "goes c3 1 c4"
    using goes_jump [OF r3, of "- 12"] goes_jump [OF r3, of "- 20"] code al p goes_fetches [OF g13]
    by (cases "r c 10 < r c 11") (simp_all add: c3_def c4_def q_def add.commute [of _ p])
  have g: "goes c 4 c4"
    using goes_trans [OF g13 g4] by (simp add: eval_nat_numeral)
  have v: "0 < v" "v < 2 ^ 31"
    using head assms(2) by (auto simp: v_def)
  then have regs: "r c4 10 = (if r c 10 < r c 11 then r c 10 else v)" "r c4 11 = (if r c 10 < r c 11 then v else r c 11)"
    using ok i by (simp_all add: c1_def c2_def c3_def c4_def i_def reg_rules u32_id)
  have "gcd_head c4 p"
    using head regs v r3 goes_holds [OF g] by (auto simp: gcd_head_def c4_def)
  moreover have "gcd (r c4 10) (r c4 11) = gcd (r c 10) (r c 11)"
    using gcd_diff1 [of "r c 10" "r c 11"] gcd_diff1 [of "r c 11" "r c 10"]
    by (simp add: regs v_def gcd.commute)
  moreover have "r c4 10 + r c4 11 < r c 10 + r c 11"
    using head by (auto simp: regs v_def)
  ultimately show ?thesis
    using g by blast
qed

lemma gcd_loop:
  "gcd_head c p \<Longrightarrow> \<exists>k d. goes c k d \<and> int k \<le> 4 * (r c 10 + r c 11) \<and> pc d = p + 24 \<and>
     r d 10 = gcd (r c 10) (r c 11)"
proof (induction "nat (r c 10 + r c 11)" arbitrary: c rule: less_induct)
  case less
  note head = less.prems [unfolded gcd_head_def]
  show ?case
  proof (cases "r c 10 = r c 11")
    case True
    have words: "holds_code c p (drop 4 GCD_WORDS)"
      using head by blast
    note code = words [unfolded gcd_loop_packed, simplified holds_code.simps, simplified add.assoc, simplified]
    have "4 dvd p"
      using code fetches_aligned by blast
    then have "goes c 1 (retire (p + 24) c)"
      using goes_branch [of c 10 11 24 F3_BEQ BR_EQ] code head True
      by (simp add: rtl_branch_op_def add.commute [of _ p])
    with True head show ?thesis
      by (intro exI [of _ 1] exI [of _ "retire (p + 24) c"]) simp
  next
    case False
    obtain d where d: "goes c 4 d" "gcd_head d p" "gcd (r d 10) (r d 11) = gcd (r c 10) (r c 11)"
        "r d 10 + r d 11 < r c 10 + r c 11"
      using gcd_round [OF less.prems False] by blast
    moreover have "nat (r d 10 + r d 11) < nat (r c 10 + r c 11)"
      using d(2,4) by (auto simp: gcd_head_def)
    ultimately obtain k e where e: "goes d k e" "int k \<le> 4 * (r d 10 + r d 11)" "pc e = p + 24"
        "r e 10 = gcd (r c 10) (r c 11)"
      using less.hyps [of d] by auto
    have "int (4 + k) \<le> 4 * (r c 10 + r c 11)"
      using e(2) d(4) by simp
    with goes_trans [OF d(1) e(1)] e show ?thesis by blast
  qed
qed

lemma run_ecall:
  assumes "regs_ok c" "\<not> halted c" "steps c < n" "\<not> trap_on_ecall c"
    and "fetches c (pc c) (i_type (Opcode_value OP_SYSTEM) 0 0 0 F12_ECALL)"
  shows "\<exists>d. run n c = (Inr ''ecall'', d) \<and> regs d = regs c"
proof -
  let ?c1 = "c\<lparr>halted := True, halt_reason := Some ''ecall''\<rparr>"
  let ?w = "i_type (Opcode_value OP_SYSTEM) 0 0 0 F12_ECALL"
  have "exec_opcode (pc c) ?w c = (Inr (u32 (pc c + 4), None), ?c1)"
    using assms(4)
    by (simp add: exec_opcode_def packed_fields exec_system_def exec_system0_def exec_env_call_def
        no_store_def sx_simps F12_ECALL_def)
  from run_step [OF assms(2,3) step_exec [OF assms(2,5) this]]
  show ?thesis by (simp add: run_halted retire_def)
qed

text \<open>C9. The loop of the gcd benchmark, at any address and on any two positive signed words in \<open>a0\<close> and
  \<open>a1\<close>, ends within \<open>4 * (a0 + a1) + 1\<close> steps: the run reports ECALL with the greatest common
  divisor in \<open>a0\<close>.\<close>

theorem gcd_correct:
  assumes "assemble GCD_SRC 0 None = Inr code" "holds_code c (pc c) (drop 4 code)"
    and "regs_ok c" "\<not> halted c" "\<not> trap_on_ecall c" "0 \<le> pc c" "pc c + 28 < 2 ^ 32"
    and "0 < r c 10" "r c 10 < 2 ^ 31" "0 < r c 11" "r c 11 < 2 ^ 31"
    and "steps c + 4 * (r c 10 + r c 11) < n"
  shows "\<exists>d. run n c = (Inr ''ecall'', d) \<and> r d 10 = gcd (r c 10) (r c 11)"
proof -
  have words: "holds_code c (pc c) (drop 4 GCD_WORDS)"
    using assms(1,2) gcd_assembled by simp
  have "gcd_head c (pc c)"
    using assms words by (simp add: gcd_head_def ready_def)
  then obtain k d where d: "goes c k d" "int k \<le> 4 * (r c 10 + r c 11)" "pc d = pc c + 24"
      "r d 10 = gcd (r c 10) (r c 11)"
    using gcd_loop by blast
  have "fetches d (pc d) (i_type (Opcode_value OP_SYSTEM) 0 0 0 F12_ECALL)"
    using words [unfolded gcd_loop_packed, simplified holds_code.simps, simplified add.assoc, simplified]
      goes_fetches [OF d(1)] d(3) by simp
  moreover have "steps d < n" "\<not> trap_on_ecall d"
    using d(1,2) assms(5,12) by (simp_all add: goes_def)
  ultimately obtain e where "run n d = (Inr ''ecall'', e)" "regs e = regs d"
    using run_ecall goes_state [OF d(1)] by blast
  moreover have "run n c = run n d"
    using run_goes [OF d(1)] d(2) assms(12) by simp
  ultimately show ?thesis
    using d(4) by (auto simp: r_def)
qed

end
