(* ===== verification/Asm_Source.thy ===== *)
theory Asm_Source
  imports Asm_Text
begin

text \<open>
  What the textual half of the assembler accepts: integer literals and register names read back as
  what they were written for, and \<open>tokenize\<close> recovers the statements of a source text.
\<close>

section \<open>Integer literals\<close>

lemma digits_no_underscore: "list_all (is_digit_of b) ds \<Longrightarrow> b \<le> 16 \<Longrightarrow> list_all (\<lambda>c. c \<noteq> CHR ''_'') ds"
  by (auto simp: list_all_iff dest: digit_plain(11))

lemma digits_no_space: "list_all (is_digit_of b) ds \<Longrightarrow> b \<le> 16 \<Longrightarrow> list_all (\<lambda>c. \<not> py_isspace c) ds"
  by (auto simp: list_all_iff dest: digit_plain(2))

text \<open>The radix prefixes of \<open>parse_int\<close>.\<close>

definition radix_prefixes :: "(nat \<times> string) list" where
  "radix_prefixes = [(16, ''0x''), (16, ''0X''), (2, ''0b''), (2, ''0B''), (8, ''0o''), (8, ''0O'')]"

lemma digits_decimal_text:
  assumes "ds \<noteq> []" "list_all (is_digit_of 10) ds"
  shows "parse_int_text ds = Some (digits_value 10 ds)"
    "parse_int_text (CHR ''-'' # ds) = Some (- digits_value 10 ds)"
proof -
  obtain c t where ds: "ds = c # t" using assms(1) by (cases ds) auto
  have plain: "\<not> py_startswith [d, e] ds" if "e \<in> {CHR ''x'', CHR ''X'', CHR ''b'', CHR ''B'', CHR ''o'', CHR ''O''}" for d e
  proof -
    have "\<not> is_digit_of 10 e" using that by (auto simp: is_digit_of_def digit_value_def py_isdigit_def
        py_islower_def py_isupper_def)
    then show ?thesis using assms(2) by (cases ds; cases "tl ds") (auto simp: py_startswith_def)
  qed
  have neg: "\<not> py_startswith (CHR ''-'' # p) ds" "\<not> py_startswith (CHR ''0'' # p) (CHR ''-'' # ds)" for p
    using assms(2) digit_plain(5) [of 10 c] by (auto simp: ds py_startswith_def)
  have neg2: "py_startswith (CHR ''-'' # p) (CHR ''-'' # ds) = py_startswith p ds" for p
    by (simp add: py_startswith_def)
  show "parse_int_text ds = Some (digits_value 10 ds)"
    using neg plain py_int_digits [OF assms] by (simp add: parse_int_text_def Let_def)
  have all: "takeWhile (is_digit_of 10) ds = ds" "dropWhile (is_digit_of 10) ds = []"
    using assms(2) by (simp_all add: takeWhile_eq_all_conv dropWhile_eq_Nil_conv list_all_iff)
  have "py_int 10 (CHR ''-'' # ds) = Some (- digits_value 10 ds)"
    using assms(1) by (simp add: py_int_def Let_def all base_prefix_def c_isspace_def py_startswith_def)
  then show "parse_int_text (CHR ''-'' # ds) = Some (- digits_value 10 ds)"
    using neg plain by (simp add: parse_int_text_def Let_def neg2)
qed

lemma digits_radix_text:
  assumes "(b, p) \<in> set radix_prefixes" "ds \<noteq> []" "list_all (is_digit_of b) ds"
  shows "parse_int_text (p @ ds) = Some (digits_value b ds)"
    "parse_int_text (CHR ''-'' # p @ ds) = Some (- digits_value b ds)"
proof -
  have "py_int b ds = Some (digits_value b ds)"
    using assms py_int_digits [of ds b] by (auto simp: radix_prefixes_def)
  then show "parse_int_text (p @ ds) = Some (digits_value b ds)"
    "parse_int_text (CHR ''-'' # p @ ds) = Some (- digits_value b ds)"
    using assms(1) by (auto simp: radix_prefixes_def parse_int_text_def Let_def py_startswith_def)
qed

text \<open>The number a text of digits denotes: the last digit counts one, each other one \<open>b\<close> times the next.\<close>

definition place_value :: "nat \<Rightarrow> string \<Rightarrow> int" where
  "place_value b ds =
     (\<Sum>i < length ds. (case digit_value (rev ds ! i) of None \<Rightarrow> 0 | Some d \<Rightarrow> int d) * int b ^ i)"

lemma digits_value_place: "digits_value b ds = place_value b ds"
proof (induction ds rule: rev_induct)
  case Nil
  show ?case by (simp add: digits_value_def place_value_def)
next
  case (snoc c ds)
  have "place_value b (ds @ [c]) = (case digit_value c of None \<Rightarrow> 0 | Some d \<Rightarrow> int d) + place_value b ds * int b"
    by (simp add: place_value_def sum.lessThan_Suc_shift sum_distrib_left sum_distrib_right mult_ac del: sum.lessThan_Suc)
  with snoc show ?case by (simp add: digits_value_append)
qed

text \<open>White space around a text that has none goes.\<close>

lemma strip_padded:
  assumes "list_all py_isspace w1" "list_all py_isspace w2" "list_all (\<lambda>c. \<not> py_isspace c) s"
  shows "py_strip (w1 @ s @ w2) = s"
proof -
  have "py_strip (w1 @ s @ w2) = rev (dropWhile py_isspace (rev (dropWhile py_isspace (s @ w2))))"
    using assms(1) by (simp add: py_strip_def py_lstrip_def py_rstrip_def dropWhile_append2 list_all_iff)
  also have "\<dots> = s"
  proof (cases s)
    case Nil
    then show ?thesis using assms(2) by (auto simp: dropWhile_eq_Nil_conv list_all_iff dest: set_dropWhileD)
  next
    case (Cons c t)
    then have "dropWhile py_isspace (s @ w2) = s @ w2"
      using assms(3) by simp
    moreover have "dropWhile py_isspace (rev s) = rev s"
      using assms(3) by (intro dropWhile_none) (simp add: list_all_iff)
    moreover have "dropWhile py_isspace (rev w2 @ rev s) = dropWhile py_isspace (rev s)"
      using assms(2) by (intro dropWhile_append2) (simp add: list_all_iff)
    ultimately show ?thesis by simp
  qed
  finally show ?thesis .
qed

lemma literal_text:
  assumes "b = 10 \<and> p = [] \<or> (b, p) \<in> set radix_prefixes" "ds \<noteq> []" "list_all (is_digit_of b) ds"
    and "mns = [] \<or> mns = ''-''"
  shows "parse_int_text (mns @ p @ ds) = Some (if mns = [] then place_value b ds else - place_value b ds)"
    and "list_all (\<lambda>c. \<not> py_isspace c) (mns @ p @ ds)"
proof -
  show "parse_int_text (mns @ p @ ds) = Some (if mns = [] then place_value b ds else - place_value b ds)"
    using assms digits_decimal_text [of ds] digits_radix_text [of b p ds] by (auto simp: digits_value_place)
  have "b \<le> 16"
    using assms(1) by (auto simp: radix_prefixes_def)
  then have "list_all (\<lambda>c. \<not> py_isspace c) ds"
    using digits_no_space [OF assms(3)] by blast
  with assms(1,4) show "list_all (\<lambda>c. \<not> py_isspace c) (mns @ p @ ds)"
    by (auto simp: radix_prefixes_def py_isspace_def)
qed

text \<open>C36. An integer literal is read as the number it denotes: any digits of the base, upper or lower case, leading
  zeros or not, behind a minus sign or none, with any of the six radix prefixes or in decimal without one, with
  underscores anywhere, and white space around it.\<close>

theorem parse_int_literals:
  assumes "b = 10 \<and> p = [] \<or> (b, p) \<in> set radix_prefixes" "ds \<noteq> []" "list_all (is_digit_of b) ds"
    and "mns = [] \<or> mns = ''-''" "py_remove (CHR ''_'') body = mns @ p @ ds"
    and "list_all py_isspace w1" "list_all py_isspace w2"
  shows "parse_int (w1 @ body @ w2) l src = Inr (if mns = [] then place_value b ds else - place_value b ds)"
proof -
  note lit = literal_text [OF assms(1-4)]
  have "\<not> py_isspace c" if "c \<in> set body" for c
  proof (cases "c = CHR ''_''")
    case False
    then have "c \<in> set (py_remove (CHR ''_'') body)"
      using that by (simp add: py_remove_def)
    with lit(2) show ?thesis by (simp only: assms(5) list_all_iff) blast
  qed (simp add: py_isspace_def)
  then have "py_strip (w1 @ body @ w2) = body"
    using strip_padded [OF assms(6,7)] by (simp add: list_all_iff)
  then show ?thesis
    by (simp add: parse_int_def assms(5) lit(1))
qed

section \<open>Statements and their text\<close>

text \<open>
  A statement is an optional label and an optional operation with operands; an operand is a token
  or the memory form \<open>offset(base)\<close>. A comment may follow.
\<close>

datatype operand = Token string | Offset string string

record stmt =
  st_label :: "string option"
  st_op :: "(string \<times> operand list) option"
  st_comment :: "string option"

fun join :: "string \<Rightarrow> string list \<Rightarrow> string" where
  "join sep [] = []"
| "join sep [s] = s"
| "join sep (s # t # ss) = s @ sep @ join sep (t # ss)"

fun operand_text :: "operand \<Rightarrow> string" where
  "operand_text (Token t) = t"
| "operand_text (Offset i b) = i @ ''('' @ b @ '')''"

fun operand_args :: "operand \<Rightarrow> string list" where
  "operand_args (Token t) = [t]"
| "operand_args (Offset i b) = [i, b]"

definition body_text :: "string \<times> operand list \<Rightarrow> string" where
  "body_text oa = fst oa @ (if snd oa = [] then [] else '' '' @ join '', '' (map operand_text (snd oa)))"

definition stmt_text :: "stmt \<Rightarrow> string" where
  "stmt_text st =
     (case st_label st of None \<Rightarrow> [] | Some l \<Rightarrow> l @ '':'') @
     (case st_op st of None \<Rightarrow> [] | Some oa \<Rightarrow> ''    '' @ body_text oa) @
     (case st_comment st of None \<Rightarrow> [] | Some c \<Rightarrow> '' #'' @ c)"

text \<open>The line \<open>tokenize\<close> should make of a statement, if any.\<close>

definition stmt_line :: "int \<Rightarrow> stmt \<Rightarrow> Line option" where
  "stmt_line lineno st =
     (if st_label st = None \<and> st_op st = None then None
      else Some \<lparr>ln_lineno = lineno, ln_raw = stmt_text st, ln_label = st_label st,
        ln_op = map_option fst (st_op st),
        ln_args = (case st_op st of None \<Rightarrow> [] | Some (_, args) \<Rightarrow> concat (map operand_args args)),
        ln_section = ''text'', ln_pc = 0, ln_size = 0\<rparr>)"

fun stmt_lines :: "int \<Rightarrow> stmt list \<Rightarrow> Line list" where
  "stmt_lines n [] = []"
| "stmt_lines n (st # sts) =
     (case stmt_line n st of None \<Rightarrow> [] | Some ln \<Rightarrow> [ln]) @ stmt_lines (n + 1) sts"

text \<open>Which tokens, labels and comments: a token has no blank and no punctuation of the syntax.\<close>

definition token_char :: "char \<Rightarrow> bool" where
  "token_char c \<longleftrightarrow> \<not> py_isspace c \<and> c \<notin> set '',():#/''"

definition token_ok :: "string \<Rightarrow> bool" where
  "token_ok t \<longleftrightarrow> t \<noteq> [] \<and> list_all token_char t"

fun operand_ok :: "operand \<Rightarrow> bool" where
  "operand_ok (Token t) = token_ok t"
| "operand_ok (Offset i b) = (token_ok i \<and> token_ok b)"

definition stmt_ok :: "stmt \<Rightarrow> bool" where
  "stmt_ok st \<longleftrightarrow>
     (case st_label st of None \<Rightarrow> True | Some l \<Rightarrow> l \<noteq> [] \<and> label_start (hd l) \<and> list_all label_char l) \<and>
     (case st_op st of None \<Rightarrow> True
      | Some (op, args) \<Rightarrow> token_ok op \<and> py_lower op = op \<and> list_all operand_ok args) \<and>
     (case st_comment st of None \<Rightarrow> True
      | Some c \<Rightarrow> list_all (\<lambda>d. d \<noteq> CHR 0x0D \<and> \<not> py_islinebreak d) c)"

section \<open>Comments, blanks and labels\<close>

lemma label_char_token: "label_char c \<Longrightarrow> token_char c \<and> c \<noteq> CHR '':''"
  by (auto simp: label_char_def label_start_def token_char_def py_isalpha_def py_isupper_def
      py_islower_def py_isdigit_def py_isspace_def Let_def)

lemma linebreak_space: "py_islinebreak c \<Longrightarrow> py_isspace c"
  by (auto simp: py_islinebreak_def py_isspace_def Let_def)

lemma strip_comment_keep:
  assumes "list_all (\<lambda>c. c \<noteq> CHR ''#'' \<and> c \<noteq> CHR ''/'') s"
  shows "strip_comment (s @ t) = s @ strip_comment t"
  using assms by (induction s) (auto simp: py_startswith_def)

lemma strip_ends:
  assumes "s \<noteq> []" "\<not> py_isspace (hd s)" "\<not> py_isspace (last s)" "list_all py_isspace a" "list_all py_isspace b"
  shows "py_strip (a @ s @ b) = s"
proof -
  have "py_lstrip (a @ s @ b) = s @ b"
    using assms by (cases s) (auto simp: py_lstrip_def list_all_iff dropWhile_append2)
  moreover have "dropWhile py_isspace (rev b @ rev s) = dropWhile py_isspace (rev s)"
    by (rule dropWhile_append2) (use assms(5) in \<open>simp add: list_all_iff\<close>)
  moreover have "dropWhile py_isspace (rev s) = rev s"
    using assms by (cases s rule: rev_cases) auto
  ultimately show ?thesis by (simp add: py_strip_def py_rstrip_def)
qed

lemma match_label_some:
  assumes "l \<noteq> []" "label_start (hd l)" "list_all label_char l"
  shows "match_label (l @ CHR '':'' # rest) = Some (l, py_lstrip rest)"
proof -
  have "\<not> label_char (CHR '':'')" using label_char_token by blast
  with assms show ?thesis
    by (simp add: match_label_def Let_def takeWhile_append2 dropWhile_append2 list_all_iff
        py_lstrip_def py_startswith_def py_isspace_def)
qed

lemma match_label_none:
  assumes "CHR '':'' \<notin> set line"
  shows "match_label line = None"
proof -
  have "CHR '':'' \<notin> set (py_lstrip (dropWhile label_char line))"
    using assms by (auto simp: py_lstrip_def dest!: set_dropWhileD)
  then have "\<not> py_startswith '':'' (py_lstrip (dropWhile label_char line))"
    by (cases "py_lstrip (dropWhile label_char line)") (auto simp: py_startswith_def)
  then show ?thesis by (simp add: match_label_def Let_def)
qed

section \<open>Operands\<close>

lemma token_facts:
  assumes "token_ok t"
  shows "t \<noteq> []" "list_all (\<lambda>c. \<not> py_isspace c) t" "list_all not_paren t" "CHR '','' \<notin> set t"
    "CHR '':'' \<notin> set t" "list_all (\<lambda>c. c \<noteq> CHR ''#'' \<and> c \<noteq> CHR ''/'') t" "\<not> py_isspace (hd t)" "\<not> py_isspace (last t)"
  using assms by (auto simp: token_ok_def token_char_def list_all_iff not_paren_def)

lemma sub_parens_plain: "list_all not_paren t \<Longrightarrow> sub_parens (t @ s) = t @ sub_parens s"
  by (induction t) (auto simp: not_paren_def Let_def)

lemma sub_parens_offset:
  assumes "token_ok b"
  shows "sub_parens (CHR ''('' # b @ CHR '')'' # s) = '', '' @ b @ sub_parens s"
proof -
  have "\<not> not_paren (CHR '')'')" by (simp add: not_paren_def)
  then have "takeWhile not_paren (b @ CHR '')'' # s) = b" "dropWhile not_paren (b @ CHR '')'' # s) = CHR '')'' # s"
    using token_facts(3) [OF assms] by (simp_all add: takeWhile_append2 dropWhile_append2 list_all_iff)
  then show ?thesis
    using token_facts(1,2) [OF assms] by (simp add: Let_def paren_group_def strip_plain py_startswith_def)
qed

lemma sub_parens_operand: "operand_ok x \<Longrightarrow> sub_parens (operand_text x @ s) = join '', '' (operand_args x) @ sub_parens s"
  by (cases x) (auto simp: sub_parens_plain token_facts(3) sub_parens_offset simp del: sub_parens.simps)

lemma join_append: "xs \<noteq> [] \<Longrightarrow> ys \<noteq> [] \<Longrightarrow> join sep (xs @ ys) = join sep xs @ sep @ join sep ys"
  by (induction sep xs rule: join.induct) (auto simp: neq_Nil_conv)

lemma operand_args_nonempty: "operand_args x \<noteq> []"
  by (cases x) auto

lemma sub_parens_operands:
  "list_all operand_ok xs \<Longrightarrow>
   sub_parens (join '', '' (map operand_text xs)) = join '', '' (concat (map operand_args xs))"
proof (induction xs)
  case (Cons x xs)
  show ?case
  proof (cases xs)
    case Nil
    with Cons.prems sub_parens_operand [of x "[]"] show ?thesis by simp
  next
    case (Cons y ys)
    have "sub_parens ('', '' @ join '', '' (map operand_text xs)) = '', '' @ sub_parens (join '', '' (map operand_text xs))"
      by (rule sub_parens_plain) (simp add: not_paren_def)
    with Cons Cons.IH Cons.prems sub_parens_operand [of x] operand_args_nonempty show ?thesis
      by (simp add: join_append)
  qed
qed simp

lemma split_on_plain: "c \<notin> set t \<Longrightarrow> py_split_on c (t @ c # s) = t # py_split_on c s"
  by (induction t) auto

lemma split_on_single: "c \<notin> set t \<Longrightarrow> py_split_on c t = [t]"
  by (induction t) auto

lemma split_join:
  assumes "list_all token_ok ts" "ts \<noteq> []"
  shows "map py_strip (py_split_on (CHR '','') (join '', '' ts)) = ts \<and>
    map py_strip (py_split_on (CHR '','') (CHR '' '' # join '', '' ts)) = ts"
  using assms
proof (induction ts)
  case (Cons t ts)
  have t: "CHR '','' \<notin> set t" "py_strip t = t" "py_strip (CHR '' '' # t) = t"
    using Cons.prems token_facts [of t] strip_ends [of t "'' ''" "[]"] by (simp_all add: strip_plain py_isspace_def)
  show ?case
  proof (cases "ts = []")
    case False
    then have "join '', '' (t # ts) = t @ CHR '','' # CHR '' '' # join '', '' ts" by (cases ts) auto
    then show ?thesis
      using t Cons.IH Cons.prems False split_on_plain [OF t(1), of "CHR '' '' # join '', '' ts"]
        split_on_plain [of "CHR '',''" "CHR '' '' # t" "CHR '' '' # join '', '' ts"]
      by (simp del: py_split_on.simps)
  qed (use t in \<open>simp add: split_on_single del: py_split_on.simps\<close>)
qed simp

lemma operand_args_ok: "list_all operand_ok xs \<Longrightarrow> list_all token_ok (concat (map operand_args xs))"
proof (induction xs)
  case (Cons x xs)
  then show ?case by (cases x) auto
qed simp

text \<open>Every character of the operands' text is one of a token or of the punctuation between them.\<close>

lemma operands_text_chars:
  assumes "list_all operand_ok xs" "c \<in> set (join '', '' (map operand_text xs))"
  shows "token_char c \<or> c \<in> set '', ()''"
  using assms
proof (induction xs)
  case (Cons x xs)
  have "token_char c \<or> c \<in> set '', ()''" if "c \<in> set (operand_text x)"
    using that Cons.prems(1) by (cases x) (auto simp: token_ok_def list_all_iff)
  with Cons show ?case by (cases xs) auto
qed simp

lemma operands_text_ends:
  assumes "list_all operand_ok xs" "xs \<noteq> []"
  shows "join '', '' (map operand_text xs) \<noteq> []" "\<not> py_isspace (hd (join '', '' (map operand_text xs)))"
    "\<not> py_isspace (last (join '', '' (map operand_text xs)))"
proof -
  have e: "operand_text x \<noteq> [] \<and> \<not> py_isspace (hd (operand_text x)) \<and> \<not> py_isspace (last (operand_text x))"
    if "operand_ok x" for x
    using that token_facts(1,7,8) by (cases x) (auto simp: py_isspace_def)
  have "join '', '' (map operand_text xs) \<noteq> [] \<and> \<not> py_isspace (hd (join '', '' (map operand_text xs))) \<and>
    \<not> py_isspace (last (join '', '' (map operand_text xs)))"
    using assms
  proof (induction xs)
    case (Cons x xs)
    with e [of x] show ?case by (cases xs) auto
  qed simp
  then show "join '', '' (map operand_text xs) \<noteq> []" "\<not> py_isspace (hd (join '', '' (map operand_text xs)))"
    "\<not> py_isspace (last (join '', '' (map operand_text xs)))" by auto
qed

lemma split_args_operands:
  assumes "list_all operand_ok xs"
  shows "split_args (join '', '' (map operand_text xs)) = concat (map operand_args xs)"
proof (cases "xs = []")
  case False
  have ok: "list_all token_ok (concat (map operand_args xs))" "concat (map operand_args xs) \<noteq> []"
    using operand_args_ok [OF assms] False operand_args_nonempty by auto
  have "py_strip (join '', '' (map operand_text xs)) = join '', '' (map operand_text xs)"
    using strip_ends [OF operands_text_ends [OF assms False], of "[]" "[]"] by simp
  moreover have "filter (\<lambda>a. a \<noteq> []) (concat (map operand_args xs)) = concat (map operand_args xs)"
    using ok(1) by (auto simp: filter_id_conv list_all_iff token_ok_def)
  ultimately show ?thesis
    using operands_text_ends(1) [OF assms False] split_join [OF ok] sub_parens_operands [OF assms]
    by (simp add: split_args_def Let_def)
qed (simp add: split_args_def py_strip_def py_lstrip_def py_rstrip_def)

section \<open>Whole lines\<close>

lemma body_chars:
  assumes "token_ok op" "list_all operand_ok xs" "c \<in> set (body_text (op, xs))"
  shows "c \<notin> set '':#/''" "\<not> py_islinebreak c"
proof -
  have "token_char c \<or> c \<in> set '', ()''"
    using assms operands_text_chars [OF assms(2), of c]
    by (auto simp: body_text_def token_ok_def list_all_iff split: if_splits)
  then show "c \<notin> set '':#/''" "\<not> py_islinebreak c"
    using linebreak_space [of c] by (auto simp: token_char_def py_islinebreak_def)
qed

lemma body_ends:
  assumes "token_ok op" "list_all operand_ok xs"
  shows "body_text (op, xs) \<noteq> []" "\<not> py_isspace (hd (body_text (op, xs)))" "\<not> py_isspace (last (body_text (op, xs)))"
  using token_facts(1,7,8) [OF assms(1)] operands_text_ends [OF assms(2)] by (auto simp: body_text_def)

lemma split1_body:
  assumes "token_ok op" "list_all operand_ok xs"
  shows "py_split1 (body_text (op, xs)) = (if xs = [] then [op] else [op, join '', '' (map operand_text xs)])"
proof -
  have op: "list_all (\<lambda>c. \<not> py_isspace c) op" "op \<noteq> []" "\<not> py_isspace (hd op)"
    using token_facts(1,2,7) [OF assms(1)] by simp_all
  have l: "py_lstrip (body_text (op, xs)) = body_text (op, xs)"
    using body_ends(1,2) [OF assms] by (cases "body_text (op, xs)") (auto simp: py_lstrip_def)
  have w: "takeWhile (\<lambda>c. \<not> py_isspace c) (op @ CHR '' '' # s) = op"
    "dropWhile (\<lambda>c. \<not> py_isspace c) (op @ CHR '' '' # s) = CHR '' '' # s" for s
    using op(1) by (simp_all add: takeWhile_append2 dropWhile_append2 list_all_iff py_isspace_def)
  have w0: "takeWhile (\<lambda>c. \<not> py_isspace c) op = op" "dropWhile (\<lambda>c. \<not> py_isspace c) op = []"
    using op(1) by (simp_all add: takeWhile_eq_all_conv dropWhile_eq_Nil_conv list_all_iff)
  show ?thesis
  proof (cases "xs = []")
    case True
    with op(2) l show ?thesis by (simp add: py_split1_def Let_def body_text_def py_lstrip_def w0 del: takeWhile_eq_all_conv dropWhile_eq_Nil_conv)
  next
    case False
    define args where "args = join '', '' (map operand_text xs)"
    have "py_lstrip (CHR '' '' # args) = args" "args \<noteq> []"
      using operands_text_ends(1,2) [OF assms(2) False]
      by (cases args; auto simp: args_def [symmetric] py_lstrip_def py_isspace_def)+
    with False op l w show ?thesis
      by (simp add: py_split1_def Let_def body_text_def args_def [symmetric])
  qed
qed

text \<open>The text before the comment, and what is left of it once labels are taken off.\<close>

lemma stmt_comment_cut:
  assumes "stmt_ok st"
  shows "strip_comment (stmt_text st) =
    (case st_label st of None \<Rightarrow> [] | Some l \<Rightarrow> l @ '':'') @
    (case st_op st of None \<Rightarrow> [] | Some oa \<Rightarrow> ''    '' @ body_text oa) @
    (case st_comment st of None \<Rightarrow> [] | Some c \<Rightarrow> '' '')"
proof -
  define lab where "lab = (case st_label st of None \<Rightarrow> [] | Some l \<Rightarrow> l @ '':'')"
  define body where "body = (case st_op st of None \<Rightarrow> [] | Some oa \<Rightarrow> ''    '' @ body_text oa)"
  have "list_all (\<lambda>c. c \<noteq> CHR ''#'' \<and> c \<noteq> CHR ''/'') lab"
    using assms label_char_token
    by (auto simp: lab_def stmt_ok_def list_all_iff token_char_def split: option.splits)
  moreover have "list_all (\<lambda>c. c \<noteq> CHR ''#'' \<and> c \<noteq> CHR ''/'') body"
    using assms body_chars(1) by (force simp: body_def stmt_ok_def list_all_iff split: option.splits)
  ultimately show ?thesis
    by (simp add: stmt_text_def lab_def [symmetric] body_def [symmetric] strip_comment_keep split: option.splits)
qed

lemma strip_blank: "list_all py_isspace s \<Longrightarrow> py_strip s = []"
  by (simp add: py_strip_def py_lstrip_def py_rstrip_def list_all_iff dropWhile_eq_Nil_conv [THEN iffD2])

lemma tokenize_stmt:
  assumes "stmt_ok st"
  shows "tokenize_line n (stmt_text st) = stmt_line n st"
proof -
  define tail where "tail = (case st_comment st of None \<Rightarrow> [] | Some c \<Rightarrow> '' '')"
  have tail: "list_all py_isspace tail"
    by (simp add: tail_def py_isspace_def split: option.split)
  have cut: "strip_comment (stmt_text st) =
      (case st_label st of None \<Rightarrow> [] | Some l \<Rightarrow> l @ '':'') @
      (case st_op st of None \<Rightarrow> [] | Some oa \<Rightarrow> ''    '' @ body_text oa) @ tail"
    using stmt_comment_cut [OF assms] by (simp add: tail_def)
  have four: "list_all py_isspace ''    ''" by (simp add: py_isspace_def)
  have lab: "l \<noteq> [] \<and> label_start (hd l) \<and> list_all label_char l \<and> \<not> py_isspace (hd l)" if "st_label st = Some l" for l
    using assms that label_char_token [of "hd l"]
    by (cases l) (auto simp: stmt_ok_def token_char_def)
  show ?thesis
  proof (cases "st_op st")
    case None
    show ?thesis
    proof (cases "st_label st")
      case None
      with \<open>st_op st = None\<close> tail show ?thesis
        by (simp add: tokenize_line_def cut stmt_line_def strip_blank)
    next
      case (Some l)
      have "py_strip ([] @ (l @ '':'') @ tail) = l @ '':''"
        using lab [OF Some] tail by (intro strip_ends) (auto simp: py_isspace_def)
      then show ?thesis
        using Some \<open>st_op st = None\<close> lab [OF Some] match_label_some [of l "[]"]
        by (simp add: tokenize_line_def cut stmt_line_def strip_blank py_lstrip_def)
    qed
  next
    case (Some oa)
    obtain op xs where oa: "oa = (op, xs)" by fastforce
    have ok: "token_ok op" "list_all operand_ok xs" "py_lower op = op"
      using assms Some oa by (auto simp: stmt_ok_def)
    define body where "body = body_text (op, xs)"
    have ends: "body \<noteq> []" "\<not> py_isspace (hd body)" "\<not> py_isspace (last body)"
      using body_ends [OF ok(1,2)] by (simp_all add: body_def)
    have colon: "CHR '':'' \<notin> set body"
      using body_chars(1) [OF ok(1,2)] by (force simp: body_def)
    have sp: "py_strip body = body" "py_lstrip (''    '' @ body) = body"
      using strip_ends [OF ends, of "[]" "[]"] ends by (cases body; simp add: py_lstrip_def py_isspace_def)+
    have rest: "py_split1 body = (if xs = [] then [op] else [op, join '', '' (map operand_text xs)])"
      using split1_body [OF ok(1,2)] by (simp add: body_def)
    have args: "split_args [] = []" "split_args (join '', '' (map operand_text xs)) = concat (map operand_args xs)"
      using split_args_operands [of "[]"] split_args_operands [OF ok(2)] by simp_all
    show ?thesis
    proof (cases "st_label st")
      case None
      have "py_strip (''    '' @ body @ tail) = body"
        using ends four tail by (rule strip_ends)
      then show ?thesis
        using None Some ends(1) colon rest args ok(3)
        by (simp add: tokenize_line_def cut stmt_line_def oa body_def [symmetric] match_label_none Let_def)
    next
      case (Some l)
      have "py_strip ([] @ (l @ CHR '':'' # ''    '' @ body) @ tail) = l @ CHR '':'' # ''    '' @ body"
        using lab [OF Some] ends tail by (intro strip_ends) auto
      then show ?thesis
        using Some \<open>st_op st = Some oa\<close> ends(1) rest args ok(3) sp
          match_label_some [of l "''    '' @ body"] lab [OF Some]
        by (simp add: tokenize_line_def cut stmt_line_def oa body_def [symmetric] Let_def)
    qed
  qed
qed

lemma stmt_text_one_line:
  assumes "stmt_ok st"
  shows "list_all (\<lambda>c. c \<noteq> CHR 0x0D \<and> \<not> py_islinebreak c) (stmt_text st)"
proof -
  let ?P = "\<lambda>c. c \<noteq> CHR 0x0D \<and> \<not> py_islinebreak c"
  have cr: "py_islinebreak (CHR 0x0D)" by code_simp
  have label: "?P c" if "label_char c" for c
    using label_char_token [OF that] linebreak_space [of c] cr linebreak_space [OF cr]
    unfolding token_char_def by metis
  have blanks: "list_all ?P '' :#''" by code_simp
  have "list_all ?P (case st_label st of None \<Rightarrow> [] | Some l \<Rightarrow> l @ '':'')"
    using assms label blanks by (auto simp: stmt_ok_def list_all_iff split: option.splits)
  moreover have "list_all ?P (case st_op st of None \<Rightarrow> [] | Some oa \<Rightarrow> ''    '' @ body_text oa)"
  proof (cases "st_op st")
    case (Some oa)
    obtain op xs where "oa = (op, xs)" by fastforce
    then show ?thesis
      using Some assms body_chars(2) [of op xs] blanks cr by (auto simp: stmt_ok_def list_all_iff)
  qed simp
  moreover have "list_all ?P (case st_comment st of None \<Rightarrow> [] | Some c \<Rightarrow> '' #'' @ c)"
    using assms blanks by (auto simp: stmt_ok_def split: option.splits)
  ultimately show ?thesis by (simp add: stmt_text_def)
qed

definition source_text :: "stmt list \<Rightarrow> string" where
  "source_text sts = concat (map (\<lambda>st. stmt_text st @ [CHR 0x0A]) sts)"

text \<open>C35. \<open>tokenize\<close> recovers every statement of a source text: label, lower-case operation, operands with
  \<open>offset(base)\<close> taken apart, and the number and text of the line it stands on; blank and comment lines
  only count.\<close>

theorem tokenize_recovers:
  assumes "list_all stmt_ok sts"
  shows "tokenize (source_text sts) = stmt_lines 1 sts"
proof -
  have "py_splitlines (source_text sts) = map stmt_text sts"
  proof -
    have "list_all (list_all (\<lambda>c. c \<noteq> CHR 0x0D \<and> \<not> py_islinebreak c)) (map stmt_text sts)"
      using assms stmt_text_one_line by (simp add: list.pred_map comp_def list.pred_mono_strong)
    from splitlines_concat [OF this] show ?thesis
      by (simp add: source_text_def comp_def)
  qed
  moreover have "tokenize_from n (map stmt_text sts) = stmt_lines n sts" for n
    using assms by (induction sts arbitrary: n) (auto simp: tokenize_stmt split: option.split)
  ultimately show ?thesis by (simp add: tokenize_def)
qed

end
