(* ===== verification/Asm_Errors.thy ===== *)
theory Asm_Errors
  imports Asm_Load Asm_Flow
begin

text \<open>
  Errors of the assembler: where they point, which exceptions escape, and inputs on which the
  result is not what the source text says.
\<close>

section \<open>Errors name the line they come from\<close>

definition blames :: "Line \<Rightarrow> asm_exn \<Rightarrow> bool" where
  "blames ln e \<longleftrightarrow> (\<exists>m. e = AsmError (ln_lineno ln) m (ln_raw ln))"

text \<open>If it raises, it blames the line.\<close>

definition blaming :: "Line \<Rightarrow> asm_exn + 'a \<Rightarrow> bool" where
  "blaming ln m \<longleftrightarrow> (\<forall>e. m = Inl e \<longrightarrow> blames ln e)"

named_theorems blaming_rules \<open>operations that blame the line they work on\<close>

lemma blaming_bindE [blaming_rules]: "blaming ln m \<Longrightarrow> (\<And>x. blaming ln (f x)) \<Longrightarrow> blaming ln (bindE m f)"
  by (auto simp: blaming_def bindE_Inl_iff)

lemma blaming_basic [blaming_rules]:
  "blaming ln (Inr x)" "blaming ln (asm_fail ln msg)" "blaming ln (p1_fail ln msg)"
  "blaming ln m \<Longrightarrow> blaming ln n \<Longrightarrow> blaming ln (if b then m else n)"
  by (simp_all add: blaming_def blames_def asm_fail_def p1_fail_def)

lemma blaming_option [blaming_rules]:
  "blaming ln m \<Longrightarrow> (\<And>x. blaming ln (f x)) \<Longrightarrow> blaming ln (case v of None \<Rightarrow> m | Some x \<Rightarrow> f x)"
  by (cases v) simp_all

lemma blaming_prod [blaming_rules]: "(\<And>x y. blaming ln (f x y)) \<Longrightarrow> blaming ln (case v of (x, y) \<Rightarrow> f x y)"
  by (cases v) simp

lemma blaming_operands [blaming_rules]:
  "blaming ln (expect_args ln n what)" "blaming ln (arg_reg ln k)" "blaming ln (arg_val ln syms k)"
  "blaming ln (fit_s ln v bits what)" "blaming ln (fit_unsigned v bits (ln_lineno ln) (ln_raw ln) what)"
  "blaming ln (parse_int t (ln_lineno ln) (ln_raw ln))"
  "blaming ln (resolve t syms (ln_lineno ln) (ln_raw ln))"
  by (auto simp: blaming_def blames_def expect_args_def arg_reg_def arg_val_def fit_s_def fit_signed_def
      fit_unsigned_def parse_reg_def parse_int_def resolve_def Let_def split: option.splits if_splits)

lemma blaming_mapE [blaming_rules]: "(\<And>x. blaming ln (f x)) \<Longrightarrow> blaming ln (mapE f xs)"
  by (induction xs) (auto intro!: blaming_rules)

lemma blaming_retry [blaming_rules]:
  assumes "blaming ln m" "blaming ln n"
  shows "blaming ln (case m of Inr x \<Rightarrow> Inr x | Inl (AsmError _ _ _) \<Rightarrow> n | Inl e \<Rightarrow> Inl e)"
  using assms by (auto simp: blaming_def split: sum.splits asm_exn.splits)

lemmas enc_defs =
  enc_r_def enc_i_alu_def enc_shift_def enc_load_def enc_store_def enc_branch_def enc_jal_def
  enc_jalr_def enc_upper_def enc_two_regs_def enc_j_def enc_jr_def enc_ret_def enc_branch_zero_def
  enc_li_def enc_la_def enc_call_def enc_data_def

lemma encode_line_blaming: "blaming ln (encode_line ln syms)"
  unfolding encode_line_def enc_insn_def enc_pseudo_def enc_defs Let_def
  by (intro blaming_rules)

lemma p1_line_blaming: "blaming ln (p1_line ln s)"
  unfolding p1_line_def p1_label_def p1_op_def Let_def
  by (intro blaming_rules)

section \<open>What can escape from \<open>assemble\<close>\<close>

lemma p1_lines_Inl:
  "p1_lines lns s = Inl e \<Longrightarrow> \<exists>ln \<in> set lns. blames ln e"
proof (induction lns arbitrary: s)
  case (Cons ln lns)
  then show ?case
    using p1_line_blaming [of ln s] by (auto simp: bindE_Inl_iff blaming_def split: prod.splits)
qed simp

lemma p1_op_names:
  "p1_op ln s = Inr (ln', s') \<Longrightarrow> ln_lineno ln' = ln_lineno ln \<and> ln_raw ln' = ln_raw ln"
  by (auto simp: p1_op_def p1_place_def p1_switch_def p1_fail_def Let_def bindE_Inr_iff
      split: option.splits if_splits)

lemma p1_lines_names:
  "p1_lines lns s = Inr (lns', s') \<Longrightarrow>
     map (\<lambda>ln. (ln_lineno ln, ln_raw ln)) lns' = map (\<lambda>ln. (ln_lineno ln, ln_raw ln)) lns"
proof (induction lns arbitrary: s lns')
  case (Cons l lns)
  obtain l' s1 rest where l: "p1_line l s = Inr (l', s1)" and r: "p1_lines lns s1 = Inr (rest, s')"
    and out: "lns' = l' # rest"
    using Cons.prems by (rule p1_lines_Cons)
  have "ln_lineno l' = ln_lineno l \<and> ln_raw l' = ln_raw l"
    using l by (auto simp: p1_line_def bindE_Inr_iff dest: p1_op_names)
  with Cons.IH [OF r] show ?case by (simp add: out)
qed simp

lemma size_lines_Inl:
  "size_lines lns st = Inl e \<Longrightarrow> (\<exists>ln \<in> set lns. blames ln e) \<or> e = PyValueError ''negative shift count''"
proof (induction lns arbitrary: st)
  case (Cons ln lns)
  have "blames ln e \<or> e = PyValueError ''negative shift count''" if "size_line ln st = Inl e"
    using that blaming_operands(6) [of ln "ln_args ln ! 0"]
    by (auto simp: size_line_def bindE_Inl_iff blaming_def Let_def split: prod.splits option.splits if_splits)
  with Cons show ?case by (auto simp: bindE_Inl_iff)
qed simp

lemma emit_lines_Inl: "emit_lines lns syms im = Inl e \<Longrightarrow> \<exists>ln \<in> set lns. blames ln e"
proof (induction lns arbitrary: im)
  case (Cons ln lns)
  then show ?case
    using encode_line_blaming [of ln syms] by (auto simp: bindE_Inl_iff blaming_def)
qed simp

lemma tokenize_from_lines:
  "ln \<in> set (tokenize_from n raws) \<Longrightarrow>
     \<exists>i < length raws. ln_lineno ln = n + int i \<and> ln_raw ln = raws ! i"
proof (induction n raws rule: tokenize_from.induct)
  case (2 n raw raws)
  have here: "ln_lineno ln = n \<and> ln_raw ln = raw" if "tokenize_line n raw = Some ln"
    using that by (auto simp: tokenize_line_def Let_def split: if_splits option.splits prod.splits)
  show ?case
  proof (cases "tokenize_line n raw = Some ln")
    case True
    with here show ?thesis by (intro exI [of _ 0]) simp
  next
    case False
    then have "ln \<in> set (tokenize_from (n + 1) raws)"
      using "2.prems" by (auto split: option.splits)
    then obtain i where "i < length raws" "ln_lineno ln = n + 1 + int i" "ln_raw ln = raws ! i"
      using "2.IH" by (auto split: option.splits)
    then show ?thesis by (intro exI [of _ "Suc i"]) simp
  qed
qed simp

lemma assemble_errors_lemma:
  assumes "assemble source tb dbo = Inl e"
  shows "e = PyValueError ''negative shift count'' \<or>
    (\<exists>i m. i < length (py_splitlines source) \<and> e = AsmError (int i + 1) m (py_splitlines source ! i))"
proof -
  let ?lines = "tokenize source"
  have "e = PyValueError ''negative shift count'' \<or> (\<exists>ln \<in> set ?lines. blames ln e)"
  proof (cases "size_lines ?lines (\<lambda>_. 0, ''text'')")
    case (Inl e')
    with assms size_lines_Inl [OF Inl] show ?thesis
      by (auto simp: assemble_def assemble_image_def Let_def)
  next
    case (Inr z)
    obtain sizes cur where z: "z = (sizes, cur)" by fastforce
    define db where "db = (case dbo of None \<Rightarrow> tb + align_up (sizes ''text'') 4 | Some b \<Rightarrow> b)"
    have rest: "bindE (pass1 ?lines tb db) (\<lambda>(lns, syms). emit_lines lns syms []) = Inl e"
      using assms Inr by (auto simp: assemble_def assemble_image_def Let_def z db_def bindE_Inl_iff)
    then consider "p1_lines ?lines (p1_init tb db) = Inl e"
      | lns s where "p1_lines ?lines (p1_init tb db) = Inr (lns, s)" "emit_lines lns (p1_syms s) [] = Inl e"
      by (auto simp: pass1_def bindE_Inl_iff bindE_Inr_iff)
    then show ?thesis
    proof cases
      case 1
      then show ?thesis by (blast dest: p1_lines_Inl)
    next
      case 2
      obtain ln where ln: "ln \<in> set lns" "blames ln e"
        using emit_lines_Inl [OF 2(2)] by blast
      have "(ln_lineno ln, ln_raw ln) \<in> set (map (\<lambda>ln. (ln_lineno ln, ln_raw ln)) lns)"
        using ln(1) by simp
      then have "(ln_lineno ln, ln_raw ln) \<in> set (map (\<lambda>ln. (ln_lineno ln, ln_raw ln)) ?lines)"
        unfolding p1_lines_names [OF 2(1)] .
      then obtain l where l: "l \<in> set ?lines" "ln_lineno l = ln_lineno ln" "ln_raw l = ln_raw ln"
        by auto
      with ln(2) have "blames l e" by (simp add: blames_def)
      with l(1) show ?thesis by blast
    qed
  qed
  moreover have "\<exists>i m. i < length (py_splitlines source) \<and> e = AsmError (int i + 1) m (py_splitlines source ! i)"
    if ln: "ln \<in> set ?lines" "blames ln e" for ln
  proof -
    obtain i where "i < length (py_splitlines source)" "ln_lineno ln = 1 + int i"
        "ln_raw ln = py_splitlines source ! i"
      using tokenize_from_lines ln(1) unfolding tokenize_def by blast
    with ln(2) show ?thesis unfolding blames_def by (metis add.commute)
  qed
  ultimately show ?thesis by blast
qed

text \<open>C39. Every \<open>AsmError\<close> that \<open>assemble\<close> raises carries a line number of the source and the text of
  exactly that line; the only other exception that escapes is the \<open>ValueError\<close> of a negative shift.\<close>

theorem assemble_errors_located:
  assumes "assemble source tb dbo = Inl e"
  shows "e = PyValueError ''negative shift count'' \<or>
    (\<exists>i m. i < length (py_splitlines source) \<and> e = AsmError (int i + 1) m (py_splitlines source ! i))"
  by (rule assemble_errors_lemma [OF assms])

section \<open>Mnemonics\<close>

definition mnemonics :: "string list" where
  "mnemonics = directives @ map fst R_TABLE @ map fst I_ALU_TABLE @ [''slli'', ''srli'', ''srai''] @
     map fst LOAD_TABLE @ map fst STORE_TABLE @ map fst BRANCH_TABLE @
     [''jal'', ''jalr'', ''lui'', ''auipc'', ''fence'', ''fence.i'', ''ecall'', ''ebreak'',
      ''nop'', ''mv'', ''not'', ''neg'', ''j'', ''jr'', ''ret'', ''beqz'', ''bnez'', ''li'', ''la'', ''call'']"

text \<open>Any word in the place of a mnemonic that is not in the list of mnemonics and directives is
  reported as unknown, with the line it stands on.\<close>

theorem unknown_mnemonic:
  assumes "ln_op ln = Some op" "op \<notin> set mnemonics"
  shows "encode_line ln syms = Inl (AsmError (ln_lineno ln) (Unknown_mnemonic op) (ln_raw ln))"
proof -
  have none: "op \<notin> set (map fst R_TABLE)" "op \<notin> set (map fst I_ALU_TABLE)" "op \<notin> set (map fst LOAD_TABLE)"
      "op \<notin> set (map fst STORE_TABLE)" "op \<notin> set (map fst BRANCH_TABLE)"
    using assms(2) unfolding mnemonics_def set_append by blast+
  then have "map_of R_TABLE op = None" "map_of I_ALU_TABLE op = None" "map_of LOAD_TABLE op = None"
      "map_of STORE_TABLE op = None" "map_of BRANCH_TABLE op = None"
    by (simp_all add: map_of_eq_None_iff)
  moreover have "op \<notin> set directives" "op \<notin> set [''slli'', ''srli'', ''srai'']"
      "op \<notin> set [''jal'', ''jalr'', ''lui'', ''auipc'', ''fence'', ''fence.i'', ''ecall'', ''ebreak'',
      ''nop'', ''mv'', ''not'', ''neg'', ''j'', ''jr'', ''ret'', ''beqz'', ''bnez'', ''li'', ''la'', ''call'']"
    using assms(2) unfolding mnemonics_def set_append by blast+
  ultimately show ?thesis
    using assms(1)
    by (simp add: encode_line_def enc_insn_def enc_fixed_def enc_pseudo_def asm_fail_def directives_def)
qed

section \<open>Results that are not what the source says\<close>

lemma odd_jump_word:
  assumes "even t"
  shows "j_type opcode rd (take_bit 21 (t + 1)) = j_type opcode rd (take_bit 21 t)"
proof -
  have "(t + 1) AND NOT 1 = t"
    unfolding and_not_1_mod using assms by presburger
  then show ?thesis using low_bit_lost(1) [of opcode rd "t + 1"] by (simp only:)
qed

text \<open>An odd offset is rejected by \<open>jal\<close>, but \<open>j\<close> has no such check and jumps to the byte before
  the target instead.\<close>

theorem odd_jump_accepted:
  assumes "ln_op ln = Some ''j''" "length (ln_args ln) = 1" "arg_val ln syms 0 = Inr target"
    and "odd (target - ln_pc ln)" "- 1048576 < target - ln_pc ln" "target - ln_pc ln < 1048576"
  shows "encode_line ln syms =
      Inr [j_type (Opcode_value OP_JAL) 0 (take_bit 21 (target - 1 - ln_pc ln))] \<and>
    encode_line (ln\<lparr>ln_op := Some ''jal''\<rparr>) syms =
      Inl (AsmError (ln_lineno ln) (Jal_not_aligned target) (ln_raw ln))"
proof
  have "encode_line ln syms = Inr [j_type (Opcode_value OP_JAL) 0 (take_bit 21 (target - ln_pc ln))]"
    using assms by (simp add: encode_pseudos enc_j_def expect_args_def fit_s_def bindE_Inr_iff)
  then show "encode_line ln syms =
      Inr [j_type (Opcode_value OP_JAL) 0 (take_bit 21 (target - 1 - ln_pc ln))]"
    using odd_jump_word [of "target - 1 - ln_pc ln"] assms(4) by simp
  show "encode_line (ln\<lparr>ln_op := Some ''jal''\<rparr>) syms =
      Inl (AsmError (ln_lineno ln) (Jal_not_aligned target) (ln_raw ln))"
    using assms by (simp add: encode_jumps enc_jal_def arg_val_def asm_fail_def and_1_even)
qed

text \<open>Two short programs with surprising results. A data section can overwrite text when the text
  base is not aligned as the code asks: the default data base is computed from offsets relative to
  0, while the text is laid out from the real base. And a negative \<open>.align\<close> escapes as a
  \<open>ValueError\<close> instead of an \<open>AsmError\<close> with a line number.\<close>

theorem assemble_surprises:
  "assemble (''.align 3'' @ [CHR 0x0A] @ ''nop'' @ [CHR 0x0A] @ ''.data'' @ [CHR 0x0A] @ ''.word 7'') 4 None
     = Inr [7] \<and>
   assemble ''.align -1'' 0 None = Inl (PyValueError ''negative shift count'')"
proof
  show "assemble ''.align -1'' 0 None = Inl (PyValueError ''negative shift count'')"
    by code_simp
  show "assemble (''.align 3'' @ [CHR 0x0A] @ ''nop'' @ [CHR 0x0A] @ ''.data'' @ [CHR 0x0A] @ ''.word 7'') 4 None
     = Inr [7]"
    by code_simp
qed

end
