(* ===== verification/Asm_Hex.thy ===== *)
theory Asm_Hex
  imports Asm_Load
begin

text \<open>
  The \<open>$readmemh\<close> file: what \<open>to_hex_lines\<close> writes reads back, line by line, as the words.
\<close>

section \<open>Hexadecimal digits\<close>

lemma length_digits_of: "2 \<le> base \<Longrightarrow> 0 < k \<Longrightarrow> n < base ^ k \<Longrightarrow> length (digits_of base n) \<le> k"
proof (induction base n arbitrary: k rule: digits_of.induct)
  case (1 base n)
  show ?case
  proof (cases "n < base")
    case False
    obtain j where k: "k = Suc j" using "1.prems"(2) by (cases k) auto
    have "0 < j" using False "1.prems"(3) k by (cases j) auto
    moreover have "n div base < base ^ j"
      using "1.prems" k by (simp add: less_mult_imp_div_less mult.commute)
    ultimately have "length (digits_of base (n div base)) \<le> j"
      using "1.IH" False "1.prems"(1) by simp
    then show ?thesis using False "1.prems"(1) k by (simp add: digits_of.simps [of base n])
  qed (use "1.prems" in \<open>simp add: digits_of.simps [of base n]\<close>)
qed

section \<open>One line for each word\<close>

lemma hex_line:
  assumes "0 \<le> w" "w < 2 ^ 32"
  shows "length (fmt_x 8 w) = 8" "list_all (is_digit_of 16) (fmt_x 8 w)" "py_int 16 (fmt_x 8 w) = Some w"
proof -
  define ds where "ds = digits_of 16 (nat w)"
  have f: "fmt_x 8 w = replicate (8 - length ds) (CHR ''0'') @ ds"
    using assms(1) by (simp add: format_int_def ds_def Let_def)
  have "nat w < 16 ^ 8"
    using assms by (simp add: nat_less_iff)
  then have len: "length ds \<le> 8"
    unfolding ds_def by (intro length_digits_of) simp_all
  then show "length (fmt_x 8 w) = 8" by (simp add: f)
  have zero: "is_digit_of 16 (CHR ''0'')" by code_simp
  have "list_all (is_digit_of 16) ds"
    unfolding ds_def by (rule digits_of_digits) simp_all
  then show digits: "list_all (is_digit_of 16) (fmt_x 8 w)"
    using zero by (auto simp: f list_all_iff)
  have "digits_value 16 (fmt_x 8 w) = w"
    using assms(1) digits_value_digits_of [of 16 "nat w"] by (simp add: f digits_value_zeros ds_def)
  moreover have "fmt_x 8 w \<noteq> []"
    using digits_of_nonempty by (simp add: f ds_def)
  ultimately show "py_int 16 (fmt_x 8 w) = Some w"
    using py_int_digits [OF _ digits] by simp
qed

text \<open>The hex file has one line of eight hexadecimal digits for each word, and reading the lines
  with \<open>int(line, 16)\<close> gives the words back.\<close>

theorem hex_file_roundtrip:
  assumes "words_ok ws"
  shows "map (py_int 16) (py_splitlines (to_hex_lines ws)) = map Some ws \<and>
    list_all (\<lambda>l. length l = 8) (py_splitlines (to_hex_lines ws))"
proof -
  have "list_all (list_all (\<lambda>c. c \<noteq> CHR 0x0D \<and> \<not> py_islinebreak c)) (map (fmt_x 8) ws)"
    using assms hex_line(2) digit_plain(3,4) [of 16] by (fastforce simp: words_ok_def list_all_iff)
  then have "py_splitlines (to_hex_lines ws) = map (fmt_x 8) ws"
    using splitlines_concat [of "map (fmt_x 8) ws"] by (simp add: to_hex_lines_def comp_def)
  with assms hex_line show ?thesis by (simp add: words_ok_def list_all_iff)
qed

end
