(* ===== verification/Emu_Correct.thy ===== *)
theory Emu_Correct
  imports Emu_Mem Emu_Regs Rtl_Units
begin

text \<open>
  What the reference emulator promises: the trace of a step accounts for every register and memory
  change, memory accesses read back what was written, a step that raises changes nothing, a run
  always ends, and arithmetic, branches and immediates are those of the RTL.
\<close>

section \<open>Where an instruction may write\<close>

text \<open>Registers other than the destination, and memory, as they were.\<close>

definition keeps_others :: "int \<Rightarrow> cpu \<Rightarrow> cpu \<Rightarrow> bool" where
  "keeps_others inst c0 c \<longleftrightarrow> mem c = mem c0 \<and>
     (\<forall>k. k \<noteq> nat (inst_rd inst) \<or> inst_rd inst = 0 \<longrightarrow> regs c ! k = regs c0 ! k)"

definition keeps_regs :: "cpu \<Rightarrow> cpu \<Rightarrow> bool" where
  "keeps_regs c0 c \<longleftrightarrow> mem c = mem c0 \<and> regs c = regs c0"

lemma keeps_others_wr: "keeps_others inst c0 c \<Longrightarrow> keeps_others inst c0 (wr (inst_rd inst) v c)"
  by (auto simp: keeps_others_def wr_def)

lemma keeps_refl [simp]: "keeps_others inst c c" "keeps_regs c c"
  by (simp_all add: keeps_others_def keeps_regs_def)

lemma keeps_csrs [simp]:
  "keeps_others inst c0 (c\<lparr>csrs := m\<rparr>) = keeps_others inst c0 c"
  "keeps_others inst c0 (c\<lparr>halted := h, halt_reason := s\<rparr>) = keeps_others inst c0 c"
  by (simp_all add: keeps_others_def)

named_theorems exec_keeps \<open>what each opcode leaves alone\<close>

abbreviation (input) keeps_rd :: "cpu \<Rightarrow> int \<Rightarrow> 'a emu \<Rightarrow> bool" where
  "keeps_rd c0 inst m \<equiv> sx_ensures (keeps_others inst c0) (\<lambda>_. True) m"

lemma exec_alu_keeps [exec_keeps]:
  "keeps_rd c0 inst (exec_lui pc0 inst)" "keeps_rd c0 inst (exec_auipc pc0 inst)"
  "keeps_rd c0 inst (exec_imm pc0 inst)" "keeps_rd c0 inst (exec_reg pc0 inst)"
  "keeps_rd c0 inst (exec_load pc0 inst)"
  by (auto simp: sx_ensures_def sx_simps exec_lui_def exec_auipc_def exec_imm_def exec_reg_def
      exec_load_def keeps_others_wr split: sum.splits option.splits)

lemma exec_jump_keeps [exec_keeps]:
  "keeps_rd c0 inst (exec_jal pc0 inst)" "keeps_rd c0 inst (exec_jalr pc0 inst)"
  by (auto simp: sx_ensures_def sx_simps exec_jal_def exec_jalr_def Let_def keeps_others_wr)

lemma exec_system_keeps [exec_keeps]: "keeps_rd c0 inst (exec_system pc0 inst)"
proof -
  have "keeps_rd c0 inst (exec_csr pc0 inst)"
    by (auto simp: sx_ensures_def sx_simps exec_csr_def Let_def intro!: keeps_others_wr)
  moreover have "keeps_rd c0 inst (exec_env_call pc0 cause reason)" for cause reason
    by (auto simp: sx_ensures_def sx_simps exec_env_call_def take_trap_def)
  ultimately show ?thesis
    unfolding exec_system_def exec_system0_def Let_def
    by (auto intro!: sx_rules sx_ensures_gets)
qed

lemma exec_branch_keeps: "sx_ensures (keeps_regs c0) (\<lambda>_. True) (exec_branch pc0 inst)"
  by (auto simp: sx_ensures_def sx_simps exec_branch_def Let_def split: option.splits)

lemma no_store_result:
  "no_store m c = (Inr (n, mw), c1) \<Longrightarrow> mw = None \<and> m c = (Inr n, c1)"
  by (auto simp: no_store_def sx_bind_def sx_return_def split: prod.splits sum.splits)

lemma sx_ensuresD: "sx_ensures I Q m \<Longrightarrow> I c \<Longrightarrow> m c = (x, c1) \<Longrightarrow> I c1"
  by (auto simp: sx_ensures_def dest!: spec [of _ c])

text \<open>What a store reports and does.\<close>

definition stored :: "cpu \<Rightarrow> cpu \<Rightarrow> int \<Rightarrow> int \<Rightarrow> int \<Rightarrow> bool" where
  "stored c c1 addr v sz \<longleftrightarrow> regs c1 = regs c \<and>
     (if addr = tohost_addr c then mem c1 = mem c \<and> halted c1 \<and> tohost_value c1 = Some v
      else \<exists>n. sz = int n \<and> access_ok c addr n \<and> mem c1 = le_write mem_put n (addr - mem_base c) v (mem c))"

lemma width_cases: "store_width f3 = Some sz \<Longrightarrow> sz = 1 \<or> sz = 2 \<or> sz = 4"
  by (auto simp: store_width_def split: if_splits)

lemma u32_id_write: "n \<le> 4 \<Longrightarrow> le_write mem_put n a (u32 v) m = le_write mem_put n a v m"
  by (simp add: u32_take_bit emu_mem.le_write_low_bits)

lemma store_result:
  assumes "store addr v sz c = (Inr u, c1)" "sz = 1 \<or> sz = 2 \<or> sz = 4"
  shows "stored c c1 addr (u32 v) sz"
proof (cases "addr = tohost_addr c")
  case True
  with assms(1) show ?thesis by (auto simp: store_tohost stored_def)
next
  case False
  obtain n where n: "sz = int n" "n = 1 \<or> n = 2 \<or> n = 4"
    using assms(2) by (elim disjE) (auto intro: that [of 1] that [of 2] that [of 4])
  have acc: "access_ok c addr n"
    using assms(1) n False width_mask [of n addr]
    by (auto simp: store_def sx_simps access_ok_def mem_index_def split: if_splits)
  have "n \<le> 4" using n(2) by auto
  then show ?thesis
    using assms(1) store_memory [OF acc False, of v] False acc n(1)
    by (auto simp: stored_def u32_id_write)
qed

lemma exec_store_result:
  assumes "exec_store pc0 inst c = (Inr (n, mw), c1)"
  shows "\<exists>addr v sz. mw = Some (addr, v, sz) \<and> stored c c1 addr v sz"
proof -
  obtain sz addr v where w: "store_width (inst_funct3 inst) = Some sz"
    and st: "store addr v sz c = (Inr (), c1)" and mw: "mw = Some (addr, u32 v, sz)"
    using assms
    by (auto simp: exec_store_def sx_bind_def sx_gets_def sx_return_def sx_raise_def split: option.splits prod.splits sum.splits)
  show ?thesis
    using store_result [OF st width_cases [OF w]] mw by blast
qed

section \<open>The trace\<close>

text \<open>The register part and the memory part of a trace, as statements about the two states.\<close>

definition trace_regs :: "(int \<times> int) option \<Rightarrow> cpu \<Rightarrow> cpu \<Rightarrow> bool" where
  "trace_regs w c c' \<longleftrightarrow>
     (\<forall>j. reg_ok j \<longrightarrow> r c' j = (case w of Some (rd, v) \<Rightarrow> if j = rd then v else r c j | None \<Rightarrow> r c j))"

definition trace_mem :: "(int \<times> int \<times> int) option \<Rightarrow> cpu \<Rightarrow> cpu \<Rightarrow> bool" where
  "trace_mem w c c' \<longleftrightarrow>
     (case w of
        None \<Rightarrow> mem c' = mem c
      | Some (addr, v, sz) \<Rightarrow>
          if addr = tohost_addr c then mem c' = mem c \<and> halted c' \<and> tohost_value c' = Some v
          else \<exists>n. sz = int n \<and> access_ok c addr n \<and> mem c' = le_write mem_put n (addr - mem_base c) v (mem c))"

lemma keeps_others_trace:
  assumes "keeps_others inst c c1" "inst_opcode inst \<in> set rd_opcodes"
  shows "trace_regs (trace_rd inst c1) c c1"
  using assms inst_fields_range(1) [of inst]
  by (auto simp: trace_regs_def trace_rd_def keeps_others_def r_def reg_ok_def Let_def)

lemma keeps_regs_trace:
  assumes "regs c1 = regs c" "inst_opcode inst \<notin> set rd_opcodes"
  shows "trace_regs (trace_rd inst c1) c c1"
  using assms by (auto simp: trace_regs_def trace_rd_def r_def Let_def)

lemma rd_opcode_members:
  "Opcode_value op \<in> set rd_opcodes \<longleftrightarrow> op \<notin> {OP_BRANCH, OP_STORE, OP_FENCE}"
  by (cases op) (simp_all add: rd_opcodes_def)

lemma applied_ifE:
  assumes "(if b then p else q) c = y"
  obtains "b" "p c = y" | "q c = y"
  using assms by (cases b) auto

lemma exec_opcode_trace:
  assumes "exec_opcode pc0 inst c = (Inr (n, mw), c1)"
  shows "trace_regs (trace_rd inst c1) c c1 \<and> trace_mem mw c c1"
proof -
  have keep: "trace_regs (trace_rd inst c1) c c1 \<and> trace_mem mw c c1"
    if m: "no_store m c = (Inr (n, mw), c1)" "keeps_rd c inst m" and op: "inst_opcode inst = Opcode_value op"
      "op \<notin> {OP_BRANCH, OP_STORE, OP_FENCE}" for m op
  proof -
    have k: "keeps_others inst c c1" and mw: "mw = None"
      using no_store_result [OF m(1)] sx_ensuresD [OF m(2) keeps_refl(1)] by blast+
    then have "trace_regs (trace_rd inst c1) c c1"
      using keeps_others_trace [OF k] op by (simp add: rd_opcode_members)
    with k mw show ?thesis by (simp add: trace_mem_def keeps_others_def)
  qed
  have none: "trace_regs (trace_rd inst c1) c c1 \<and> trace_mem mw c c1"
    if m: "no_store m c = (Inr (n, mw), c1)" "sx_ensures (keeps_regs c) (\<lambda>_. True) m"
      and op: "inst_opcode inst = Opcode_value op" "op \<in> {OP_BRANCH, OP_FENCE}" for m op
  proof -
    have k: "keeps_regs c c1" and mw: "mw = None"
      using no_store_result [OF m(1)] sx_ensuresD [OF m(2) keeps_refl(2)] by blast+
    have "inst_opcode inst \<notin> set rd_opcodes"
      using op rd_opcode_members [of op] by auto
    with k mw show ?thesis
      using keeps_regs_trace [of c1 c inst] by (simp add: keeps_regs_def trace_mem_def)
  qed
  have st: "trace_regs (trace_rd inst c1) c c1 \<and> trace_mem mw c c1"
    if m: "exec_store pc0 inst c = (Inr (n, mw), c1)" and op: "inst_opcode inst = Opcode_value OP_STORE"
  proof -
    obtain addr v sz where "mw = Some (addr, v, sz)" "stored c c1 addr v sz"
      using exec_store_result [OF m] by blast
    moreover have "inst_opcode inst \<notin> set rd_opcodes"
      unfolding op rd_opcode_members by simp
    ultimately show ?thesis
      using keeps_regs_trace [of c1 c inst] by (auto simp: stored_def trace_mem_def)
  qed
  have fence: "sx_ensures (keeps_regs c) (\<lambda>_. True) (sx_return x)" for x
    by (intro sx_rules) simp
  show ?thesis
    using assms unfolding exec_opcode_def Let_def
    by (elim applied_ifE)
      (erule (1) st | (erule keep, rule exec_keeps, assumption, simp; fail)
        | (erule none, rule exec_branch_keeps fence, assumption, simp; fail) | (simp add: sx_simps; fail))+
qed

lemma trace_cong:
  "regs c' = regs c1 \<Longrightarrow> trace_regs w c c' = trace_regs w c c1"
  "mem c' = mem c1 \<Longrightarrow> halted c' = halted c1 \<Longrightarrow> tohost_value c' = tohost_value c1 \<Longrightarrow>
     trace_mem mw c c' = trace_mem mw c c1"
  unfolding trace_regs_def trace_mem_def r_def by (simp, simp only:)

text \<open>What the trace has, opcode by opcode.\<close>

lemma exec_opcode_known:
  assumes "exec_opcode pc0 inst c = (Inr x, c1)"
  obtains op where "inst_opcode inst = Opcode_value op"
  using assms unfolding exec_opcode_def Let_def
  by (elim applied_ifE) (erule that | (simp add: sx_simps; fail))+

lemma exec_opcode_mem_write:
  assumes "exec_opcode pc0 inst c = (Inr (n, mw), c1)"
  shows "mw \<noteq> None \<longleftrightarrow> inst_opcode inst = Opcode_value OP_STORE"
proof (cases "inst_opcode inst = Opcode_value OP_STORE")
  case True
  then have "exec_store pc0 inst c = (Inr (n, mw), c1)"
    using assms by (simp add: exec_opcode_def)
  with True show ?thesis by (auto dest: exec_store_result)
next
  case False
  have "mw = None"
    using assms False unfolding exec_opcode_def Let_def
    by (elim applied_ifE) (auto simp: sx_simps dest!: no_store_result)
  with False show ?thesis by simp
qed

lemma trace_rd_known:
  assumes "inst_opcode inst = Opcode_value op"
  shows "trace_rd inst c =
    (if inst_rd inst = 0 \<or> inst_opcode inst \<in> {Opcode_value OP_BRANCH, Opcode_value OP_STORE, Opcode_value OP_FENCE}
     then None else Some (inst_rd inst, r c (inst_rd inst)))"
proof -
  have "inst_opcode inst \<in> {Opcode_value OP_BRANCH, Opcode_value OP_STORE, Opcode_value OP_FENCE} \<longleftrightarrow>
      inst_opcode inst \<notin> set rd_opcodes"
    unfolding assms rd_opcode_members by (cases op) simp_all
  then show ?thesis by (auto simp: trace_rd_def r_def Let_def)
qed

text \<open>The environment instructions write no register.\<close>

lemma exec_system0_keeps: "sx_ensures (keeps_regs c0) (\<lambda>_. True) (exec_system0 pc0 inst)"
  by (auto simp: sx_ensures_def sx_simps exec_system0_def exec_env_call_def take_trap_def keeps_regs_def Let_def)

lemma exec_opcode_system0:
  assumes "exec_opcode pc0 inst c = (Inr (n, mw), c1)" "inst_opcode inst = Opcode_value OP_SYSTEM" "inst_funct3 inst = 0"
  shows "regs c1 = regs c"
proof -
  have "no_store (exec_system0 pc0 inst) c = (Inr (n, mw), c1)"
    using assms by (simp add: exec_opcode_def exec_system_def)
  from sx_ensuresD [OF exec_system0_keeps keeps_refl(2)] no_store_result [OF this] show ?thesis
    by (auto simp: keeps_regs_def)
qed

text \<open>C21. The record \<open>step\<close> returns, field by field. The instruction is the word fetched at the old PC. \<open>rd_write\<close> is the
  instruction's destination with its value after the step, for every opcode but BRANCH, STORE and FENCE and every destination but
  \<open>x0\<close>; every other register is unchanged. \<open>mem_write\<close> is there for stores and for nothing else, and memory changes by exactly
  that write, or, at the \<open>tohost\<close> address, the value is recorded and the CPU halts. \<open>ECALL\<close>, \<open>EBREAK\<close>, \<open>MRET\<close> and \<open>WFI\<close> write
  no register, so with a destination other than \<open>x0\<close> the record repeats a value the step did not write.\<close>

theorem step_trace_sound:
  assumes "step c = (Inr t, c')"
  shows "tr_pc t = pc c \<and> fetch c (pc c) = Inr (tr_inst t) \<and>
    trace_regs (rd_write t) c c' \<and> trace_mem (mem_write t) c c' \<and>
    rd_write t =
      (if inst_rd (tr_inst t) = 0 \<or>
          inst_opcode (tr_inst t) \<in> {Opcode_value OP_BRANCH, Opcode_value OP_STORE, Opcode_value OP_FENCE}
       then None else Some (inst_rd (tr_inst t), r c' (inst_rd (tr_inst t)))) \<and>
    (mem_write t \<noteq> None \<longleftrightarrow> inst_opcode (tr_inst t) = Opcode_value OP_STORE) \<and>
    (inst_opcode (tr_inst t) = Opcode_value OP_SYSTEM \<and> inst_funct3 (tr_inst t) = 0 \<longrightarrow> regs c' = regs c)"
proof -
  obtain inst n mw c1 where f: "fetch c (pc c) = Inr inst"
    and e: "exec_opcode (pc c) inst c = (Inr (n, mw), c1)"
    and c': "c' = c1\<lparr>pc := n, steps := steps c1 + 1\<rparr>"
    and t: "t = \<lparr>tr_pc = pc c, tr_inst = inst, rd_write = trace_rd inst c1, mem_write = mw\<rparr>"
    using assms by (rule step_Inr_cases)
  obtain op where op: "inst_opcode inst = Opcode_value op"
    using exec_opcode_known [OF e] .
  have "trace_regs (trace_rd inst c1) c c'" "trace_mem mw c c'"
    using exec_opcode_trace [OF e] trace_cong [of c' c1] by (simp_all add: c')
  moreover have "r c' i = r c1 i" "regs c' = regs c1" for i
    by (simp_all add: c' r_def)
  ultimately show ?thesis
    using f exec_opcode_mem_write [OF e] exec_opcode_system0 [OF e] trace_rd_known [OF op, of c1]
    by (simp add: t del: Opcode_value.simps)
qed

section \<open>Whole runs\<close>

lemma init_wf: "RV32I_init sz base tohost te = Inr c \<Longrightarrow> word_ok base \<Longrightarrow> wf_cpu c"
  by (auto simp: RV32I_init_def wf_cpu_def list_all_length byte_ok_def split: if_splits)

lemma load_program_wf:
  "load_program data b c = Inr c' \<Longrightarrow> wf_cpu c \<Longrightarrow> list_all byte_ok data \<Longrightarrow> wf_cpu c'"
  by (auto simp: load_program_def wf_cpu_def Let_def list_all_iff dest!: in_set_takeD in_set_dropD
      split: if_splits)

text \<open>C27. Whatever program is loaded into a freshly constructed CPU, every state it reaches is
  well-formed: 32 registers with 32-bit values, \<open>x0\<close> zero, bytes in memory, 32-bit CSRs and PC.\<close>

theorem reachable_wf:
  assumes "RV32I_init sz base tohost te = Inr c0" "word_ok base"
    and "load_program data b c0 = Inr c" "list_all byte_ok data" "steps_to c d"
  shows "wf_cpu d \<and> length (mem d) = nat sz \<and> mem_base d = base"
proof -
  have "wf_cpu d"
    using assms init_wf load_program_wf steps_to_wf by blast
  moreover have "length (mem d) = length (mem c) \<and> mem_base d = mem_base c"
    using assms(5)
  proof (induction rule: steps_to.induct)
    case (steps_step c c1 t c2)
    then show ?case by (auto dest: step_frame)
  qed simp
  moreover have "length (mem c) = nat sz \<and> mem_base c = base"
    using assms(1,3) by (auto simp: RV32I_init_def load_program_def Let_def split: if_splits)
  ultimately show ?thesis by simp
qed

text \<open>C28. An instruction that raises leaves the CPU exactly as it was before the step: no register,
  memory byte, CSR or counter has changed, so the trap's PC is the PC of the culprit.\<close>

theorem step_raise_unchanged:
  assumes "step c = (Inl e, c')"
  shows "c' = c"
  using assms by (rule step_raise_same)

lemma run_steps_bound: "run n c = (res, d) \<Longrightarrow> steps d \<le> max n (steps c)"
proof (induction n c arbitrary: res d rule: run.induct)
  case (1 n c)
  show ?case
  proof (cases "\<not> halted c \<and> steps c < n")
    case True
    obtain x c1 where st: "step c = (x, c1)" by fastforce
    show ?thesis
    proof (cases x)
      case (Inl e)
      with st True "1.prems" show ?thesis by (auto simp: run.simps [of n c] dest: step_raise_same)
    next
      case (Inr t)
      with st True "1.prems" have "run n c1 = (res, d)" by (simp add: run.simps [of n c])
      then have "steps d \<le> max n (steps c1)" using "1.IH" [OF True st [symmetric] Inr] by simp
      with st Inr True show ?thesis by (auto dest: step_steps)
    qed
  next
    case False
    with "1.prems" show ?thesis by (auto simp: run.simps [of n c] split: if_splits)
  qed
qed

text \<open>C26. \<open>run\<close> always ends: it stops in a reachable state within the step limit, and ends in one of
  three ways: the exception of the next step, the step limit with the CPU still going, or a halt.\<close>

theorem run_ends:
  "\<exists>res d. run n c = (res, d) \<and> steps_to c d \<and> steps d \<le> max n (steps c) \<and>
     ((\<exists>e. res = Inl e \<and> \<not> halted d \<and> fst (step d) = Inl e) \<or>
      (res = Inr ''step-limit'' \<and> \<not> halted d \<and> n \<le> steps d) \<or>
      (\<exists>s. res = Inr s \<and> halted d))"
proof -
  obtain res d where r: "run n c = (res, d)" by fastforce
  with run_reaches [OF r] run_steps_bound [OF r] run_outcome [OF r] show ?thesis by blast
qed

section \<open>Memory\<close>

lemma access_ok_mem: "length (mem c') = length (mem c) \<Longrightarrow> mem_base c' = mem_base c \<Longrightarrow> access_ok c' = access_ok c"
  by (simp add: access_ok_def fun_eq_iff)

lemma le_write_length [simp]: "length (le_write mem_put n i v m) = length m"
  by (induction n arbitrary: i v m) (simp_all add: mem_put_def)

lemma access_inside: "access_ok c a n \<Longrightarrow> emu_mem.inside_n (mem c) (a - mem_base c) n"
  by (auto simp: emu_inside_n access_ok_def)

text \<open>C29. A load of any width inside a stored word, halfword or byte reads the matching slice of the
  stored value (little-endian), in particular the whole value at the same width.\<close>

theorem load_after_store:
  assumes "access_ok c a n" "a \<noteq> tohost_addr c" "store a v (int n) c = (Inr (), c')"
    and "j + k \<le> n" "access_ok c (a + int j) k"
  shows "load c' (a + int j) (int k) False = Inr (take_bit (8 * k) (drop_bit (8 * j) v))"
proof -
  have c': "c' = c\<lparr>mem := le_write mem_put n (a - mem_base c) v (mem c)\<rparr>"
    using store_memory [OF assms(1,2)] assms(3) by simp
  have "access_ok c' (a + int j) k"
    using assms(5) access_ok_mem [of c' c] by (simp add: c')
  then show ?thesis
    using load_unsigned emu_mem.le_read_slice [OF access_inside [OF assms(1)] assms(4), of v]
    by (simp add: c' algebra_simps)
qed

text \<open>A store does not change what any access to disjoint addresses loads.\<close>

theorem load_after_disjoint_store:
  assumes "access_ok c a n" "a \<noteq> tohost_addr c" "store a v (int n) c = (Inr (), c')"
    and "access_ok c b k" "b + int k \<le> a \<or> a + int n \<le> b"
  shows "load c' b (int k) False = load c b (int k) False"
proof -
  have c': "c' = c\<lparr>mem := le_write mem_put n (a - mem_base c) v (mem c)\<rparr>"
    using store_memory [OF assms(1,2)] assms(3) by simp
  have "access_ok c' b k"
    using assms(4) access_ok_mem [of c' c] by (simp add: c')
  moreover have "le_read mem_get k (b - mem_base c) (mem c') = le_read mem_get k (b - mem_base c) (mem c)"
    unfolding c' using emu_mem.le_read_write_disjoint [OF access_inside [OF assms(1)]] assms(5) by simp
  ultimately show ?thesis
    using load_unsigned assms(4) by (simp add: c')
qed

text \<open>A store to \<open>tohost\<close> never reaches memory and ends the run with the verdict of the
  stored value: pass for 1, fail for anything else.\<close>

theorem tohost_ends_run:
  "\<exists>c'. store (tohost_addr c) v sz c = (Inr (), c') \<and> mem c' = mem c \<and> tohost_value c' = Some (u32 v) \<and>
     run n c' = (Inr (if u32 v = 1 then ''tohost-pass'' else ''tohost-fail''), c')"
  by (simp add: store_tohost run_halted)

section \<open>Agreement with the RTL\<close>

text \<open>C22. On every encoding the ISA defines, the register-register arithmetic of the emulator is the
  operation \<open>decoder.sv\<close> selects, computed by \<open>alu.sv\<close> on 32-bit words.\<close>

theorem alu_reg_matches_rtl:
  assumes "legal_reg f3 f7"
  shows "alu_reg f3 f7 (uint a) (uint b) pc0 = Inr (uint (rtl_alu (rtl_alu_op_reg f3 f7) a b))"
  using assms by (rule alu_reg_rtl_lemma)

text \<open>C23. The same for the immediate operations, on the sign-extended immediate.\<close>

theorem alu_imm_matches_rtl:
  assumes "legal_imm f3 (inst_funct7 inst)"
  shows "alu_imm f3 (uint a) (sint b) inst pc0 =
    Inr (uint (rtl_alu (rtl_alu_op_imm f3 (inst_funct7 inst)) a b))"
  using assms by (rule alu_imm_rtl_lemma)

text \<open>C24. The emulator takes a branch exactly when \<open>branch_unit.sv\<close> does, and raises exactly when the
  decoder reports an illegal branch.\<close>

theorem branch_matches_rtl:
  "branch_taken f3 (uint a) (uint b) = map_option (\<lambda>op. rtl_taken op a b) (rtl_branch_op f3)"
  by (rule branch_taken_rtl_lemma)

text \<open>C25. For every 32-bit instruction word and each format the emulator decodes, the immediate
  generator of the RTL produces the emulator's immediate as a 32-bit word.\<close>

theorem immediates_match_rtl:
  "rtl_imm (Opcode_value OP_IMM) w = word_of_int (imm_i (uint w)) \<and>
   rtl_imm (Opcode_value OP_LOAD) w = word_of_int (imm_i (uint w)) \<and>
   rtl_imm (Opcode_value OP_JALR) w = word_of_int (imm_i (uint w)) \<and>
   rtl_imm (Opcode_value OP_STORE) w = word_of_int (imm_s (uint w)) \<and>
   rtl_imm (Opcode_value OP_BRANCH) w = word_of_int (imm_b (uint w)) \<and>
   rtl_imm (Opcode_value OP_LUI) w = word_of_int (imm_u (uint w)) \<and>
   rtl_imm (Opcode_value OP_AUIPC) w = word_of_int (imm_u (uint w)) \<and>
   rtl_imm (Opcode_value OP_JAL) w = word_of_int (imm_j (uint w))"
  by (simp add: rtl_imm_def rtl_imm_i_lemma rtl_imm_s_lemma rtl_imm_b_lemma rtl_imm_u_lemma rtl_imm_j_lemma)

text \<open>An undefined \<open>funct7\<close> on ADD/SUB or a right shift is illegal to the emulator, whatever the
  operands, but the decoder selects plain ADD or logical shift for it.\<close>

theorem undefined_funct7_diverges:
  assumes "f3 = F3Op_value F3_ADD_SUB \<or> f3 = F3Op_value F3_SR" "f7 \<notin> {F7_DEFAULT, F7_ALT}"
  shows "(\<exists>d. alu_reg f3 f7 x y pc0 = Inl (Trap ''illegal'' pc0 d)) \<and>
    rtl_alu_op_reg f3 f7 = (if f3 = F3Op_value F3_ADD_SUB then ALU_ADD else ALU_SRL)"
  using assms by (auto simp: alu_reg_def rtl_alu_op_reg_def Let_def)

end
