(* ===== verification/Riscv_Tests.thy ===== *)
theory Riscv_Tests
  imports Emu_Correct "HOL-Library.List_Lexorder" "HOL-Library.Char_ord"
begin

text \<open>
  \<open>tools/refmodel/riscv_tests_runner.py\<close>: one conformance test on the emulator, and the suite. What
  \<open>load_elf\<close> returns (it goes through the third-party \<open>elftools\<close>) and the directory listing are
  arguments; printing is left out.
\<close>

section \<open>One test\<close>

definition MAX_STEPS :: int where "MAX_STEPS = 1000000"

type_synonym segments = "(int \<times> int list) list"

definition load_segments :: "segments \<Rightarrow> cpu \<Rightarrow> emu_exn + cpu" where
  "load_segments segs c0 = fold (\<lambda>(paddr, data) c. bindE c (load_program data (Some paddr))) segs (Inr c0)"

definition seg_base :: "segments \<Rightarrow> int" where
  "seg_base segs = Min (set (map fst segs))"

definition seg_top :: "segments \<Rightarrow> int" where
  "seg_top segs = Max (set (map (\<lambda>s. fst s + int (length (snd s))) segs))"

definition test_mem_size :: "segments \<Rightarrow> int" where
  "test_mem_size segs = ((seg_top segs - seg_base segs + 0xFFFF) AND NOT 0xFFFF) + 0x10000"

text \<open>The CPU the test starts on.\<close>

definition test_cpu :: "segments \<Rightarrow> int \<Rightarrow> emu_exn + cpu" where
  "test_cpu segs tohost =
     bindE (RV32I_init (test_mem_size segs) (seg_base segs) tohost True) (\<lambda>c.
     load_segments segs (c\<lparr>pc := seg_base segs\<rparr>))"

definition test_report :: "(emu_exn + string) \<times> cpu \<Rightarrow> emu_exn + bool \<times> string" where
  "test_report res =
     (case res of
        (Inl (Trap kind p detail), c) \<Rightarrow>
          Inr (False, ''trap: '' @ kind @ '' at PC=0x'' @ fmt_x 8 p @ '': '' @ detail)
      | (Inl e, c) \<Rightarrow> Inl e
      | (Inr reason, c) \<Rightarrow>
          if reason = ''tohost-pass'' then Inr (True, ''tohost=1 after '' @ fmt_d (steps c) @ '' steps'')
          else if reason = ''tohost-fail'' then
            (let v = (case tohost_value c of None \<Rightarrow> 0 | Some v \<Rightarrow> v) in
             Inr (False, ''tohost=0x'' @ fmt_x 0 v @ '' (failing subtest '' @ fmt_d (drop_bit 1 v) @ '')''))
          else Inr (False, ''halt='' @ reason @ '', last PC=0x'' @ fmt_x 8 (pc c) @ '', '' @
                     fmt_d (steps c) @ '' steps''))"

text \<open>\<open>run_test\<close>, given what \<open>load_elf\<close> returned.\<close>

definition run_test :: "segments \<times> int option \<Rightarrow> emu_exn + bool \<times> string" where
  "run_test elf =
     (case elf of (segs, tohost) \<Rightarrow>
      (case tohost of
         None \<Rightarrow> Inr (False, ''no `tohost` symbol in ELF'')
       | Some th \<Rightarrow>
           if segs = [] then Inr (False, ''no loadable segments in ELF'')
           else bindE (test_cpu segs th) (\<lambda>c. test_report (run MAX_STEPS c))))"

section \<open>The suite\<close>

definition KNOWN_SKIPS :: "string list" where
  "KNOWN_SKIPS = [''rv32ui-p-ma_data'']"

text \<open>\<open>f in t.name\<close> and \<open>str.endswith\<close>.\<close>

fun py_contains :: "string \<Rightarrow> string \<Rightarrow> bool" where
  "py_contains f [] = (f = [])"
| "py_contains f (c # s) = (py_startswith f (c # s) \<or> py_contains f s)"

definition py_endswith :: "string \<Rightarrow> string \<Rightarrow> bool" where
  "py_endswith p s = py_startswith (rev p) (rev s)"

text \<open>A directory entry: its name and whether it is a file.\<close>

definition all_tests :: "(string \<times> bool) list \<Rightarrow> string list" where
  "all_tests entries =
     sort (map fst (filter (\<lambda>(name, is_file). is_file \<and> \<not> py_endswith ''.dump'' name \<and>
                                              \<not> py_startswith ''.'' name) entries))"

record tally =
  passes :: int
  fails :: "(string \<times> string) list"
  skips :: "string list"

definition tally_test :: "(string \<Rightarrow> segments \<times> int option) \<Rightarrow> string \<Rightarrow> tally \<Rightarrow> emu_exn + tally" where
  "tally_test load_elf name t =
     (if name \<in> set KNOWN_SKIPS then Inr (t\<lparr>skips := skips t @ [name]\<rparr>)
      else bindE (run_test (load_elf name)) (\<lambda>(ok, reason).
        if ok then Inr (t\<lparr>passes := passes t + 1\<rparr>)
        else Inr (t\<lparr>fails := fails t @ [(name, reason)]\<rparr>)))"

definition run_tests :: "(string \<Rightarrow> segments \<times> int option) \<Rightarrow> string list \<Rightarrow> emu_exn + tally" where
  "run_tests load_elf names =
     fold (\<lambda>name t. bindE t (tally_test load_elf name)) names (Inr \<lparr>passes = 0, fails = [], skips = []\<rparr>)"

text \<open>\<open>main\<close>: the exit code, and the tally when tests were run. \<open>filters\<close> is \<open>argv[1:]\<close>.\<close>

definition main :: "(string \<Rightarrow> segments \<times> int option) \<Rightarrow> (string \<times> bool) list \<Rightarrow> string list \<Rightarrow>
    emu_exn + int \<times> tally option" where
  "main load_elf entries filters =
     (let tests = all_tests entries;
          chosen = (if filters = [] then tests else filter (\<lambda>t. list_ex (\<lambda>f. py_contains f t) filters) tests)
      in if chosen = [] then Inr (2, None)
         else bindE (run_tests load_elf chosen) (\<lambda>t. Inr (if fails t = [] then 0 else 1, Some t)))"

section \<open>An instruction raises nothing but \<open>Trap\<close>\<close>

definition is_trap :: "emu_exn \<Rightarrow> bool" where
  "is_trap e \<longleftrightarrow> (\<exists>k p d. e = Trap k p d)"

definition traps_only :: "('s, emu_exn, 'a) sx \<Rightarrow> bool" where
  "traps_only m \<longleftrightarrow> (\<forall>s e. fst (m s) = Inl e \<longrightarrow> is_trap e)"

named_theorems trap_rules \<open>computations that raise nothing but \<open>Trap\<close>\<close>

lemma traps_only_basic [trap_rules]:
  "traps_only (sx_return x)" "traps_only (sx_gets g)" "traps_only (sx_modify k)"
  "traps_only (sx_raise (Trap kind p d))"
  "traps_only m \<Longrightarrow> traps_only n \<Longrightarrow> traps_only (if b then m else n)"
  by (simp_all add: traps_only_def sx_simps is_trap_def)

lemma traps_only_bind [trap_rules]:
  "traps_only m \<Longrightarrow> (\<And>x. traps_only (f x)) \<Longrightarrow> traps_only (sx_bind m f)"
  by (auto simp: traps_only_def sx_bind_def split: prod.splits sum.splits) (metis fst_conv)+

lemma traps_only_read: "(\<And>c e. h c = Inl e \<Longrightarrow> is_trap e) \<Longrightarrow> traps_only (sx_read h)"
  by (simp add: traps_only_def sx_simps)

lemma traps_only_case [trap_rules]:
  "traps_only m \<Longrightarrow> (\<And>x. traps_only (f x)) \<Longrightarrow> traps_only (case v of None \<Rightarrow> m | Some x \<Rightarrow> f x)"
  "(\<And>x y. traps_only (g x y)) \<Longrightarrow> traps_only (case w of (x, y) \<Rightarrow> g x y)"
  by (auto split: option.splits prod.splits)

lemma reads_trap [trap_rules]:
  "traps_only (sx_read (\<lambda>c. fetch c a))" "traps_only (sx_read (\<lambda>c. load c a sz sg))"
  "traps_only (sx_read (\<lambda>c. mem_index c a sz))"
  "traps_only (sx_read (\<lambda>c. alu_imm f3 (r c i) imm inst p))"
  "traps_only (sx_read (\<lambda>c. alu_reg f3 f7 (r c i) (r c j) p))"
  by (rule traps_only_read,
      auto simp: fetch_def load_def mem_index_def alu_imm_def alu_reg_def bindE_Inl_iff is_trap_def Let_def
        split: if_splits)+

lemma exec_opcode_traps: "traps_only (exec_opcode p inst)"
  unfolding exec_opcode_def no_store_def exec_lui_def exec_auipc_def exec_jal_def exec_jalr_def
    exec_branch_def exec_load_def exec_store_def store_def exec_imm_def exec_reg_def exec_system_def
    exec_system0_def exec_env_call_def take_trap_def exec_csr_def Let_def
  by (intro trap_rules)

lemma step_traps: "\<not> halted c \<Longrightarrow> fst (step c) = Inl e \<Longrightarrow> is_trap e"
proof -
  assume a: "\<not> halted c" "fst (step c) = Inl e"
  let ?m = "sx_bind (sx_gets pc) (\<lambda>pc0. sx_bind (sx_read (\<lambda>c. fetch c pc0)) (\<lambda>inst.
    sx_bind (exec_opcode pc0 inst) (\<lambda>(next_pc, mw). sx_bind (sx_gets (trace_rd inst)) (\<lambda>rw.
    sx_bind (sx_modify (\<lambda>c. c\<lparr>pc := next_pc, steps := steps c + 1\<rparr>)) (\<lambda>_.
    sx_return \<lparr>tr_pc = pc0, tr_inst = inst, rd_write = rw, mem_write = mw\<rparr>)))))"
  have "traps_only ?m"
    by (intro trap_rules exec_opcode_traps)
  moreover have "fst (?m c) = Inl e"
    using a by (simp add: step_def sx_bind_def sx_gets_def)
  ultimately show "is_trap e" by (simp add: traps_only_def)
qed

lemma run_traps: "run n c = (Inl e, d) \<Longrightarrow> is_trap e"
  using run_outcome [of n c "Inl e" d] step_traps by auto

section \<open>The segments always fit\<close>

lemma test_mem_size_ge: "seg_top segs - seg_base segs < test_mem_size segs"
proof -
  let ?x = "seg_top segs - seg_base segs + 0xFFFF"
  have "?x AND NOT 0xFFFF = ?x - ?x mod 0x10000"
    using and_not_mask [of ?x 16] by simp
  moreover have "?x mod 0x10000 < 0x10000" by simp
  ultimately show ?thesis unfolding test_mem_size_def by linarith
qed

lemma segment_inside:
  assumes "(a, data) \<in> set segs"
  shows "seg_base segs \<le> a" "a + int (length data) \<le> seg_top segs"
  using assms by (force simp: seg_base_def seg_top_def intro: Min_le Max_ge)+

lemma load_program_fits:
  assumes "mem_base c \<le> a" "a + int (length data) \<le> mem_base c + int (length (mem c))"
  shows "\<exists>m. load_program data (Some a) c = Inr (c\<lparr>mem := m\<rparr>) \<and> length m = length (mem c)"
  using assms by (auto simp: load_program_def Let_def nat_diff_distrib)

lemma load_segments_fit:
  assumes "\<forall>(a, data) \<in> set segs. mem_base c \<le> a \<and> a + int (length data) \<le> mem_base c + int (length (mem c))"
  shows "\<exists>m. load_segments segs c = Inr (c\<lparr>mem := m\<rparr>)"
  using assms unfolding load_segments_def
proof (induction segs arbitrary: c)
  case Nil
  show ?case by (auto intro: exI [of _ "mem c"])
next
  case (Cons seg segs)
  obtain a data where seg: "seg = (a, data)" by fastforce
  obtain m where m: "load_program data (Some a) c = Inr (c\<lparr>mem := m\<rparr>)" "length m = length (mem c)"
    using load_program_fits [of c a data] Cons.prems seg by auto
  have "\<exists>m'. fold (\<lambda>(paddr, data) c. bindE c (load_program data (Some paddr))) segs (Inr (c\<lparr>mem := m\<rparr>)) =
      Inr (c\<lparr>mem := m\<rparr>\<lparr>mem := m'\<rparr>)"
    by (rule Cons.IH) (use Cons.prems m(2) in auto)
  then show ?case using m(1) seg by auto
qed

lemma test_cpu_exists:
  assumes "segs \<noteq> []"
  shows "\<exists>m. test_cpu segs th = Inr \<lparr>regs = replicate 32 0, pc = seg_base segs, mem = m, mem_base = seg_base segs,
    tohost_addr = th, tohost_value = None, halted = False, halt_reason = None, steps = 0,
    csrs = [CSR_MHARTID \<mapsto> 0], trap_on_ecall = True\<rparr>"
proof -
  obtain a data where seg: "(a, data) \<in> set segs" using assms by (cases segs) auto
  have "0 \<le> test_mem_size segs"
    using segment_inside [OF seg] test_mem_size_ge [of segs] by linarith
  moreover have "\<forall>(a, data) \<in> set segs. seg_base segs \<le> a \<and>
      a + int (length data) \<le> seg_base segs + int (nat (test_mem_size segs))"
    using segment_inside test_mem_size_ge [of segs] calculation by force
  ultimately show ?thesis
    using load_segments_fit [of segs "\<lparr>regs = replicate 32 0, pc = seg_base segs,
      mem = replicate (nat (test_mem_size segs)) 0, mem_base = seg_base segs,
      tohost_addr = th, tohost_value = None, halted = False, halt_reason = None, steps = 0,
      csrs = [CSR_MHARTID \<mapsto> 0], trap_on_ecall = True\<rparr>"]
    by (simp add: test_cpu_def RV32I_init_def)
qed

lemma test_report_total: "(\<And>e. fst res = Inl e \<Longrightarrow> is_trap e) \<Longrightarrow> \<exists>ok reason. test_report res = Inr (ok, reason)"
  by (cases res; cases "fst res") (auto simp: test_report_def is_trap_def Let_def)

lemma run_test_total_lemma: "\<exists>ok reason. run_test elf = Inr (ok, reason)"
proof -
  obtain segs tohost where elf: "elf = (segs, tohost)" by fastforce
  show ?thesis
  proof (cases "tohost = None \<or> segs = []")
    case False
    then obtain th where t: "tohost = Some th" "segs \<noteq> []" by auto
    obtain c where th: "tohost = Some th" "segs \<noteq> []" "test_cpu segs th = Inr c"
      using test_cpu_exists [OF t(2), of th] t by blast
    have "\<exists>ok reason. test_report (run MAX_STEPS c) = Inr (ok, reason)"
      by (rule test_report_total) (metis prod.collapse run_traps)
    with th show ?thesis by (simp add: elf run_test_def)
  qed (auto simp: elf run_test_def split: option.split)
qed

text \<open>C30. Whatever the ELF file contains, \<open>run_test\<close> returns a verdict: the memory it allocates holds
  every segment, so loading never raises, and the only exceptions of a run are the traps it catches.\<close>

theorem run_test_total: "\<exists>ok reason. run_test elf = Inr (ok, reason)"
  by (rule run_test_total_lemma)

section \<open>A pass means that 1 was stored\<close>

definition honest :: "cpu \<Rightarrow> bool" where
  "honest c \<longleftrightarrow> (halt_reason c = Some ''tohost-pass'' \<longrightarrow> tohost_value c = Some 1)"

lemma honest_wr [simp]: "honest (wr i v c) = honest c"
  by (simp add: honest_def wr_def)

lemma honest_updates [simp]:
  "honest (c\<lparr>csrs := m\<rparr>) = honest c" "honest (c\<lparr>mem := b\<rparr>) = honest c"
  "honest (c\<lparr>pc := p, steps := n\<rparr>) = honest c"
  by (simp_all add: honest_def)

lemma honest_halts:
  "honest (c\<lparr>tohost_value := Some v, halted := h,
     halt_reason := Some (if v = 1 then ''tohost-pass'' else ''tohost-fail'')\<rparr>)"
  "s \<noteq> ''tohost-pass'' \<Longrightarrow> honest (c\<lparr>halted := h, halt_reason := Some s\<rparr>)"
  by (simp_all add: honest_def)

lemma store_honest: "sx_keeps honest (store a v sz)"
  unfolding store_def
  by (intro sx_keeps_rules sx_keeps_modify) (simp_all only: honest_halts honest_updates)

lemma exec_system_honest: "sx_keeps honest (exec_system p inst)"
proof -
  have "sx_keeps honest (exec_env_call p cause reason)" if "reason \<noteq> ''tohost-pass''" for cause reason
    unfolding exec_env_call_def take_trap_def
    by (intro sx_keeps_rules sx_keeps_modify) (use that in \<open>simp_all add: honest_halts\<close>)
  moreover have "sx_keeps honest (exec_csr p inst)"
    unfolding exec_csr_def Let_def
    by (intro sx_keeps_rules sx_keeps_modify) simp_all
  ultimately show ?thesis
    unfolding exec_system_def exec_system0_def Let_def by (auto intro!: sx_keeps_rules)
qed

lemma exec_opcode_honest: "sx_keeps honest (exec_opcode p inst)"
  unfolding exec_opcode_def no_store_def exec_lui_def exec_auipc_def exec_jal_def exec_jalr_def
    exec_branch_def exec_load_def exec_store_def exec_imm_def exec_reg_def Let_def
  by (intro sx_keeps_rules sx_keeps_modify store_honest exec_system_honest; simp)

lemma steps_to_honest: "steps_to c d \<Longrightarrow> honest c \<Longrightarrow> honest d"
proof (induction rule: steps_to.induct)
  case (steps_step c c1 t c2)
  obtain inst n mw c' where e: "exec_opcode (pc c1) inst c1 = (Inr (n, mw), c')"
    and c2: "c2 = c'\<lparr>pc := n, steps := steps c' + 1\<rparr>"
    using steps_step.hyps(2) by (rule step_Inr_cases)
  have "honest c'"
    using exec_opcode_honest [of "pc c1" inst] steps_step e by (auto simp: sx_keeps_def dest!: spec [of _ c1])
  then show ?case by (simp add: c2)
qed

lemma run_reason: "run n c = (Inr s, d) \<Longrightarrow> s = ''step-limit'' \<or>
    s = (case halt_reason d of None \<Rightarrow> ''halted'' | Some s \<Rightarrow> if s = '''' then ''halted'' else s)"
proof (induction n c arbitrary: d rule: run.induct)
  case (1 n c)
  show ?case
  proof (cases "\<not> halted c \<and> steps c < n")
    case True
    obtain x c1 where st: "step c = (x, c1)" by fastforce
    show ?thesis
    proof (cases x)
      case (Inl e)
      with st True "1.prems" show ?thesis by (simp add: run.simps [of n c])
    next
      case (Inr t)
      with st True "1.prems" have "run n c1 = (Inr s, d)" by (simp add: run.simps [of n c])
      then show ?thesis using "1.IH" [OF True st [symmetric] Inr] by blast
    qed
  next
    case False
    with "1.prems" show ?thesis by (auto simp: run.simps [of n c] split: if_splits)
  qed
qed

text \<open>A test is reported as passed only if, within the step cap, the program loaded from its
  segments reached a state in which it had stored the value 1 to \<open>tohost\<close>.\<close>

theorem run_test_pass:
  assumes "run_test (segs, tohost) = Inr (True, reason)"
  shows "\<exists>th c d. tohost = Some th \<and> test_cpu segs th = Inr c \<and> steps_to c d \<and>
    tohost_value d = Some 1 \<and> steps d \<le> MAX_STEPS"
proof -
  obtain th c where th: "tohost = Some th" "segs \<noteq> []" "test_cpu segs th = Inr c"
    and rep: "test_report (run MAX_STEPS c) = Inr (True, reason)"
    using assms by (auto simp: run_test_def bindE_Inr_iff split: option.splits if_splits)
  obtain res d where r: "run MAX_STEPS c = (res, d)" by fastforce
  have res: "res = Inr ''tohost-pass''"
    using rep by (auto simp: r test_report_def Let_def split: sum.splits emu_exn.splits if_splits)
  have fresh: "honest c" "steps c = 0"
    using test_cpu_exists [OF th(2), of th] th(3) by (auto simp: honest_def)
  have "halt_reason d = Some ''tohost-pass''"
    using run_reason [OF r [unfolded res]] by (auto split: option.splits if_splits)
  then have "tohost_value d = Some 1"
    using steps_to_honest [OF run_reaches [OF r] fresh(1)] by (simp add: honest_def)
  moreover have "steps d \<le> MAX_STEPS"
    using run_steps_bound [OF r] fresh(2) by (simp add: MAX_STEPS_def)
  ultimately show ?thesis using th run_reaches [OF r] by blast
qed

section \<open>The exit code\<close>

definition test_ok :: "(string \<Rightarrow> segments \<times> int option) \<Rightarrow> string \<Rightarrow> bool" where
  "test_ok load_elf name \<longleftrightarrow> name \<in> set KNOWN_SKIPS \<or> (\<exists>reason. run_test (load_elf name) = Inr (True, reason))"

lemma tally_test_result:
  "\<exists>t'. tally_test load_elf name t = Inr t' \<and>
     (fails t' = [] \<longleftrightarrow> fails t = [] \<and> test_ok load_elf name) \<and>
     passes t' + int (length (fails t')) + int (length (skips t')) =
       passes t + int (length (fails t)) + int (length (skips t)) + 1"
proof -
  obtain ok reason where r: "run_test (load_elf name) = Inr (ok, reason)"
    using run_test_total_lemma by metis
  then show ?thesis by (cases ok) (auto simp: tally_test_def test_ok_def)
qed

lemma run_tests_result:
  "\<exists>t'. fold (\<lambda>name t. bindE t (tally_test load_elf name)) names (Inr t) = Inr t' \<and>
     (fails t' = [] \<longleftrightarrow> fails t = [] \<and> (\<forall>name \<in> set names. test_ok load_elf name)) \<and>
     passes t' + int (length (fails t')) + int (length (skips t')) =
       passes t + int (length (fails t)) + int (length (skips t)) + int (length names)"
proof (induction names arbitrary: t)
  case (Cons name names)
  obtain t1 where t1: "tally_test load_elf name t = Inr t1"
      "fails t1 = [] \<longleftrightarrow> fails t = [] \<and> test_ok load_elf name"
      "passes t1 + int (length (fails t1)) + int (length (skips t1)) =
       passes t + int (length (fails t)) + int (length (skips t)) + 1"
    using tally_test_result by blast
  show ?case using Cons.IH [of t1] t1 by auto
qed simp

text \<open>C32. The suite always finishes. Its exit code is 2 when no test is selected, 0 when every selected
  test passes or is a known skip, and 1 otherwise; every selected test is counted exactly once.\<close>

theorem main_exit_code:
  "let chosen = filter (\<lambda>t. filters = [] \<or> list_ex (\<lambda>f. py_contains f t) filters) (all_tests entries) in
   if chosen = [] then main load_elf entries filters = Inr (2, None)
   else \<exists>t. main load_elf entries filters = Inr (if list_all (test_ok load_elf) chosen then 0 else 1, Some t) \<and>
     passes t + int (length (fails t)) + int (length (skips t)) = int (length chosen)"
proof -
  define chosen where "chosen = filter (\<lambda>t. filters = [] \<or> list_ex (\<lambda>f. py_contains f t) filters) (all_tests entries)"
  have ch: "(if filters = [] then all_tests entries
      else filter (\<lambda>t. list_ex (\<lambda>f. py_contains f t) filters) (all_tests entries)) = chosen"
    by (simp add: chosen_def)
  obtain t where "run_tests load_elf chosen = Inr t"
      "fails t = [] \<longleftrightarrow> list_all (test_ok load_elf) chosen"
      "passes t + int (length (fails t)) + int (length (skips t)) = int (length chosen)"
    using run_tests_result [of load_elf chosen "\<lparr>passes = 0, fails = [], skips = []\<rparr>"]
    by (auto simp: run_tests_def list_all_iff)
  then show ?thesis
    unfolding main_def Let_def ch chosen_def [symmetric] by auto
qed

end
