(* ===== verification/Witnesses.thy ===== *)
theory Witnesses
  imports Asm_Errors Asm_Hex Riscv_Tests
begin

text \<open>
  Concrete inputs on which the hypotheses of the properties hold: one line or one small program
  assembled for address 0, and a CPU with the code in its memory.
\<close>

section \<open>A line and a CPU\<close>

definition demo_line :: "string \<Rightarrow> string list \<Rightarrow> Line" where
  "demo_line op args = \<lparr>ln_lineno = 1, ln_raw = op, ln_label = None, ln_op = Some op, ln_args = args,
     ln_section = ''text'', ln_pc = 0, ln_size = 0\<rparr>"

definition demo_syms :: syms where
  "demo_syms = [''far'' \<mapsto> 0x12345FFC, ''near'' \<mapsto> 0xFFC]"

text \<open>The code at 0, then bytes 200 up to address 64; \<open>a0\<close> is 5 and \<open>a1\<close> is 48.\<close>

definition demo_cpu :: "int list \<Rightarrow> cpu" where
  "demo_cpu ws = \<lparr>regs = (replicate 32 0)[10 := 5, 11 := 48], pc = 0,
     mem = words_bytes ws @ replicate (64 - 4 * length ws) 200, mem_base = 0, tohost_addr = 0x80001000,
     tohost_value = None, halted = False, halt_reason = None, steps = 0, csrs = [CSR_MHARTID \<mapsto> 0],
     trap_on_ecall = False\<rparr>"

section \<open>Lines\<close>

text \<open>One theorem for each kind of line: the hypotheses are evaluated on the concrete line and CPU, and
  the operands the property speaks of are read off.\<close>

theorem r_line_witness:
  "\<exists>c'. steps_n 1 (demo_cpu [1085605171]) = Inr c' \<and>
     reg_effect 1 (demo_cpu [1085605171]) c' 4 10 4294967253"
proof -
  let ?l = "demo_line ''sub'' [''a0'', ''a0'', ''a1'']" and ?c = "demo_cpu [1085605171]"
  have "\<exists>rd rs1 rs2 c'. arg_reg ?l 0 = Inr rd \<and> arg_reg ?l 1 = Inr rs1 \<and> arg_reg ?l 2 = Inr rs2 \<and>
      steps_n 1 ?c = Inr c' \<and>
      reg_effect 1 ?c c' (pc ?c + 4) rd (uint (rtl_alu ALU_SUB (reg_word ?c rs1) (reg_word ?c rs2)))"
    by (rule r_line_correct [where op = "''sub''" and syms = demo_syms and ws = "[1085605171]"]) code_simp+
  moreover have "arg_reg ?l 0 = Inr 10" "arg_reg ?l 1 = Inr 10" "arg_reg ?l 2 = Inr 11" "pc ?c + 4 = 4"
      "uint (rtl_alu ALU_SUB (reg_word ?c 10) (reg_word ?c 11)) = 4294967253"
    by code_simp+
  ultimately show ?thesis by (elim exE conjE) (simp del: steps_n.simps; blast)
qed

theorem i_line_witness:
  "\<exists>c'. steps_n 1 (demo_cpu [1076188435]) = Inr c' \<and>
     reg_effect 1 (demo_cpu [1076188435]) c' 4 10 1"
proof -
  let ?l = "demo_line ''srai'' [''a0'', ''a0'', ''2'']" and ?c = "demo_cpu [1076188435]"
  have "\<exists>rd rs1 v c'. arg_reg ?l 0 = Inr rd \<and> arg_reg ?l 1 = Inr rs1 \<and> arg_val ?l demo_syms 2 = Inr v \<and>
      steps_n 1 ?c = Inr c' \<and>
      reg_effect 1 ?c c' (pc ?c + 4) rd (uint (rtl_alu ALU_SRA (reg_word ?c rs1) (word_of_int v)))"
    by (rule i_line_correct [where op = "''srai''" and ws = "[1076188435]"]) code_simp+
  moreover have "arg_reg ?l 0 = Inr 10" "arg_reg ?l 1 = Inr 10" "arg_val ?l demo_syms 2 = Inr 2" "pc ?c + 4 = 4"
      "uint (rtl_alu ALU_SRA (reg_word ?c 10) (word_of_int 2)) = 1"
    by code_simp+
  ultimately show ?thesis by (elim exE conjE) (simp del: steps_n.simps; blast)
qed

theorem branch_line_witness:
  "\<exists>c'. steps_n 1 (demo_cpu [11887715]) = Inr c' \<and> reg_effect 1 (demo_cpu [11887715]) c' 8 0 0"
proof -
  let ?l = "demo_line ''bltu'' [''a0'', ''a1'', ''8'']" and ?c = "demo_cpu [11887715]"
  have "\<exists>rs1 rs2 target. arg_reg ?l 0 = Inr rs1 \<and> arg_reg ?l 1 = Inr rs2 \<and> arg_val ?l demo_syms 2 = Inr target \<and>
      (if rtl_taken BR_LTU (reg_word ?c rs1) (reg_word ?c rs2) \<and> \<not> 4 dvd target
       then step ?c = (Inl (target_trap ''BR'' (pc ?c) (u32 target)), ?c)
       else \<exists>c'. steps_n 1 ?c = Inr c' \<and>
        reg_effect 1 ?c c' (if rtl_taken BR_LTU (reg_word ?c rs1) (reg_word ?c rs2) then u32 target else pc ?c + 4) 0 0)"
    by (rule branch_line_correct [where op = "''bltu''" and f = F3_BLTU and ws = "[11887715]"]) code_simp+
  moreover have "arg_reg ?l 0 = Inr 10" "arg_reg ?l 1 = Inr 11" "arg_val ?l demo_syms 2 = Inr 8"
      "rtl_taken BR_LTU (reg_word ?c 10) (reg_word ?c 11)" "u32 8 = 8"
    by code_simp+
  ultimately show ?thesis by (elim exE conjE) (simp del: steps_n.simps)
qed

theorem branch_zero_line_witness:
  "\<exists>c'. steps_n 1 (demo_cpu [332899]) = Inr c' \<and> reg_effect 1 (demo_cpu [332899]) c' 8 0 0"
proof -
  let ?l = "demo_line ''bnez'' [''a0'', ''8'']" and ?c = "demo_cpu [332899]"
  have "\<exists>rs1 target. arg_reg ?l 0 = Inr rs1 \<and> arg_val ?l demo_syms 1 = Inr target \<and>
      (if rtl_taken BR_NE (reg_word ?c rs1) 0 \<and> \<not> 4 dvd u32 target AND NOT 1
       then step ?c = (Inl (target_trap ''BR'' (pc ?c) (u32 target AND NOT 1)), ?c)
       else \<exists>c'. steps_n 1 ?c = Inr c' \<and>
        reg_effect 1 ?c c' (if rtl_taken BR_NE (reg_word ?c rs1) 0 then u32 target AND NOT 1 else pc ?c + 4) 0 0)"
    by (rule branch_zero_line_correct [where op = "''bnez''" and f = F3_BNE and ws = "[332899]"]) code_simp+
  moreover have "arg_reg ?l 0 = Inr 10" "arg_val ?l demo_syms 1 = Inr 8" "rtl_taken BR_NE (reg_word ?c 10) 0" "u32 8 AND NOT 1 = 8"
    by code_simp+
  ultimately show ?thesis by (elim exE conjE) (simp del: steps_n.simps)
qed

theorem jump_line_witness:
  "\<exists>c'. steps_n 1 (demo_cpu [2144338159]) = Inr c' \<and> reg_effect 1 (demo_cpu [2144338159]) c' 4092 1 4"
proof -
  let ?l = "demo_line ''jal'' [''near'']" and ?c = "demo_cpu [2144338159]"
  have "\<exists>rd target. jump_operands ?l demo_syms ''jal'' rd target \<and> (''jal'' = ''jal'' \<longrightarrow> even target) \<and>
      (if 4 dvd u32 target AND NOT 1
       then \<exists>c'. steps_n 1 ?c = Inr c' \<and> reg_effect 1 ?c c' (u32 target AND NOT 1) rd (pc ?c + 4)
       else step ?c = (Inl (target_trap ''JAL'' (pc ?c) (u32 target AND NOT 1)), ?c))"
    by (rule jump_line_correct [where ws = "[2144338159]"]) code_simp+
  moreover have "arg_val ?l demo_syms 0 = Inr 4092" "length (ln_args ?l) = 1" "u32 4092 AND NOT 1 = 4092" "pc ?c + 4 = 4"
    by code_simp+
  ultimately show ?thesis by (elim exE conjE) (simp add: jump_operands_def del: steps_n.simps)
qed

theorem indirect_line_witness:
  "\<exists>c'. steps_n 1 (demo_cpu [5603559]) = Inr c' \<and> reg_effect 1 (demo_cpu [5603559]) c' 52 1 4"
proof -
  let ?l = "demo_line ''jalr'' [''ra'', ''a1'', ''5'']" and ?c = "demo_cpu [5603559]"
  have "\<exists>rd rs1 v. indirect_operands ?l demo_syms ''jalr'' rd rs1 v \<and>
      (if 4 dvd u32 (r ?c rs1 + v) AND NOT 1
       then \<exists>c'. steps_n 1 ?c = Inr c' \<and> reg_effect 1 ?c c' (u32 (r ?c rs1 + v) AND NOT 1) rd (pc ?c + 4)
       else step ?c = (Inl (target_trap ''JALR'' (pc ?c) (u32 (r ?c rs1 + v) AND NOT 1)), ?c))"
    by (rule indirect_line_correct [where ws = "[5603559]"]) code_simp+
  moreover have "arg_reg ?l 0 = Inr 1" "arg_reg ?l 1 = Inr 11" "arg_val ?l demo_syms 2 = Inr 5"
      "isl (arg_reg ?l 2)" "length (ln_args ?l) = 3" "u32 (r ?c 11 + 5) AND NOT 1 = 52" "pc ?c + 4 = 4"
    by code_simp+
  ultimately show ?thesis
    by (elim exE conjE) (auto simp: indirect_operands_def simp del: steps_n.simps)
qed

theorem load_line_witness:
  "\<exists>c'. steps_n 1 (demo_cpu [5604611]) = Inr c' \<and> reg_effect 1 (demo_cpu [5604611]) c' 4 10 4294967240"
proof -
  let ?l = "demo_line ''lb'' [''a0'', ''5'', ''a1'']" and ?c = "demo_cpu [5604611]"
  have "\<exists>rd v rs1. arg_reg ?l 0 = Inr rd \<and> arg_val ?l demo_syms 1 = Inr v \<and> arg_reg ?l 2 = Inr rs1 \<and>
      (if access_ok ?c (u32 (r ?c rs1 + v)) 1
       then \<exists>c'. steps_n 1 ?c = Inr c' \<and>
         reg_effect 1 ?c c' (pc ?c + 4) rd (loaded_value ?c (u32 (r ?c rs1 + v)) 1 True)
       else step ?c = (Inl (access_trap ''misaligned-load'' ?c (u32 (r ?c rs1 + v)) 1), ?c))"
    by (rule load_line_correct [where op = "''lb''" and f = F3_LB and ws = "[5604611]"]) code_simp+
  moreover have "arg_reg ?l 0 = Inr 10" "arg_val ?l demo_syms 1 = Inr 5" "arg_reg ?l 2 = Inr 11"
      "access_ok ?c (u32 (r ?c 11 + 5)) 1" "loaded_value ?c (u32 (r ?c 11 + 5)) 1 True = 4294967240" "pc ?c + 4 = 4"
    by code_simp+
  ultimately show ?thesis by (elim exE conjE) (simp del: steps_n.simps)
qed

theorem store_line_witness:
  "\<exists>c'. steps_n 1 (demo_cpu [10851107]) = Inr c' \<and> store_effect (demo_cpu [10851107]) c' 4 54 2 5"
proof -
  let ?l = "demo_line ''sh'' [''a0'', ''6'', ''a1'']" and ?c = "demo_cpu [10851107]"
  have "\<exists>rs2 v rs1. arg_reg ?l 0 = Inr rs2 \<and> arg_val ?l demo_syms 1 = Inr v \<and> arg_reg ?l 2 = Inr rs1 \<and>
      (if u32 (r ?c rs1 + v) = tohost_addr ?c \<or> access_ok ?c (u32 (r ?c rs1 + v)) 2
       then \<exists>c'. steps_n 1 ?c = Inr c' \<and> store_effect ?c c' (pc ?c + 4) (u32 (r ?c rs1 + v)) 2 (r ?c rs2)
       else step ?c = (Inl (access_trap ''misaligned-store'' ?c (u32 (r ?c rs1 + v)) 2), ?c))"
    by (rule store_line_correct [where op = "''sh''" and f = F3_SH and ws = "[10851107]"]) code_simp+
  moreover have "arg_reg ?l 0 = Inr 10" "arg_val ?l demo_syms 1 = Inr 6" "arg_reg ?l 2 = Inr 11"
      "u32 (r ?c 11 + 6) = 54" "access_ok ?c 54 2" "r ?c 10 = 5" "pc ?c + 4 = 4"
    by code_simp+
  ultimately show ?thesis by (elim exE conjE) (simp del: steps_n.simps)
qed

theorem upper_line_witness:
  "\<exists>c'. steps_n 1 (demo_cpu [4294964503]) = Inr c' \<and> reg_effect 1 (demo_cpu [4294964503]) c' 4 10 4294963200"
proof -
  let ?l = "demo_line ''auipc'' [''a0'', ''-1'']" and ?c = "demo_cpu [4294964503]"
  have "\<exists>rd v c'. arg_reg ?l 0 = Inr rd \<and> arg_val ?l demo_syms 1 = Inr v \<and> steps_n 1 ?c = Inr c' \<and>
      reg_effect 1 ?c c' (pc ?c + 4) rd (u32 (v * 2 ^ 12 + (if ''auipc'' = ''auipc'' then pc ?c else 0)))"
    by (rule upper_line_correct [where ws = "[4294964503]"]) code_simp+
  moreover have "arg_reg ?l 0 = Inr 10" "arg_val ?l demo_syms 1 = Inr (- 1)" "pc ?c + 4 = 4"
      "u32 (- 1 * 2 ^ 12 + (if ''auipc'' = ''auipc'' then pc ?c else 0)) = 4294963200"
    by code_simp+
  ultimately show ?thesis by (metis sum.inject(2))
qed

theorem unary_line_witness:
  "\<exists>c'. steps_n 1 (demo_cpu [1085277491]) = Inr c' \<and> reg_effect 1 (demo_cpu [1085277491]) c' 4 10 4294967248"
proof -
  let ?l = "demo_line ''neg'' [''a0'', ''a1'']" and ?c = "demo_cpu [1085277491]"
  have "\<exists>rd rs c'. arg_reg ?l 0 = Inr rd \<and> arg_reg ?l 1 = Inr rs \<and> steps_n 1 ?c = Inr c' \<and>
      reg_effect 1 ?c c' (pc ?c + 4) rd (unary_value ''neg'' (r ?c rs))"
    by (rule unary_line_correct [where syms = demo_syms and ws = "[1085277491]"]) code_simp+
  moreover have "arg_reg ?l 0 = Inr 10" "arg_reg ?l 1 = Inr 11" "pc ?c + 4 = 4" "unary_value ''neg'' (r ?c 11) = 4294967248"
    by code_simp+
  ultimately show ?thesis by (elim exE conjE) (simp del: steps_n.simps; blast)
qed

theorem li_line_witness:
  "\<exists>c'. steps_n 2 (demo_cpu [3735930167, 4009035027]) = Inr c' \<and>
     reg_effect 2 (demo_cpu [3735930167, 4009035027]) c' 8 10 0xDEADBEEF"
proof -
  let ?l = "demo_line ''li'' [''a0'', ''0xDEADBEEF'']" and ?c = "demo_cpu [3735930167, 4009035027]"
  have "\<exists>rd v c'. arg_reg ?l 0 = Inr rd \<and> arg_val ?l demo_syms 1 = Inr v \<and> steps_n 2 ?c = Inr c' \<and>
      reg_effect 2 ?c c' (pc ?c + 8) rd (u32 v)"
    by (rule li_line_correct [where ws = "[3735930167, 4009035027]"]) code_simp+
  moreover have "arg_reg ?l 0 = Inr 10" "arg_val ?l demo_syms 1 = Inr 0xDEADBEEF" "pc ?c + 8 = 8"
      "u32 0xDEADBEEF = 0xDEADBEEF"
    by code_simp+
  ultimately show ?thesis by (elim exE conjE) (simp del: steps_n.simps; blast)
qed

theorem la_line_witness:
  "\<exists>c'. steps_n 2 (demo_cpu [305423639, 4291101971]) = Inr c' \<and>
     reg_effect 2 (demo_cpu [305423639, 4291101971]) c' 8 10 0x12345FFC"
proof -
  let ?l = "demo_line ''la'' [''a0'', ''far'']" and ?c = "demo_cpu [305423639, 4291101971]"
  have "\<exists>rd target c'. arg_reg ?l 0 = Inr rd \<and> arg_val ?l demo_syms 1 = Inr target \<and> steps_n 2 ?c = Inr c' \<and>
      reg_effect 2 ?c c' (pc ?c + 8) rd (u32 target)"
    by (rule la_line_correct [where ws = "[305423639, 4291101971]"]) code_simp+
  moreover have "arg_reg ?l 0 = Inr 10" "arg_val ?l demo_syms 1 = Inr 0x12345FFC" "pc ?c + 8 = 8"
      "u32 0x12345FFC = 0x12345FFC"
    by code_simp+
  ultimately show ?thesis by (elim exE conjE) (simp del: steps_n.simps; blast)
qed

theorem call_line_witness:
  "\<exists>c'. steps_n 2 (demo_cpu [305422487, 4290805991]) = Inr c' \<and>
     reg_effect 2 (demo_cpu [305422487, 4290805991]) c' 0x12345FFC 1 8"
proof -
  let ?l = "demo_line ''call'' [''far'']" and ?c = "demo_cpu [305422487, 4290805991]"
  have "\<exists>target. arg_val ?l demo_syms 0 = Inr target \<and>
      (if 4 dvd u32 target AND NOT 1
       then \<exists>c'. steps_n 2 ?c = Inr c' \<and> reg_effect 2 ?c c' (u32 target AND NOT 1) 1 (pc ?c + 8)
       else \<exists>t c1. step ?c = (Inr t, c1) \<and> pc c1 = pc ?c + 4 \<and>
              step c1 = (Inl (target_trap ''JALR'' (pc ?c + 4) (u32 target AND NOT 1)), c1))"
    by (rule call_line_correct [where ws = "[305422487, 4290805991]"]) code_simp+
  moreover have "arg_val ?l demo_syms 0 = Inr 0x12345FFC" "pc ?c + 8 = 8" "u32 0x12345FFC AND NOT 1 = 0x12345FFC"
    by code_simp+
  ultimately show ?thesis by (elim exE conjE) (simp del: steps_n.simps)
qed

section \<open>A program\<close>

definition demo_src :: string where
  "demo_src = ''la a0, q'' @ [CHR 0x0A] @ ''.data'' @ [CHR 0x0A] @ ''q: .word 7''"

definition demo_im :: image where
  "demo_im = [(0, 23), (1, 5), (2, 0), (3, 0), (4, 19), (5, 5), (6, 133), (7, 0), (8, 7), (9, 0), (10, 0), (11, 0)]"

lemma demo_image: "assemble_image demo_src 0 None = Inr demo_im"
  by code_simp

lemma demo_placed:
  "case placed demo_src 0 None of Inl e \<Rightarrow> False
   | Inr (lns, syms) \<Rightarrow> lns \<noteq> [] \<and> ln_op (hd lns) = Some ''la'' \<and> ln_pc (hd lns) = 0 \<and> ln_size (hd lns) = 8"
  by code_simp

text \<open>The program fetched from memory: the two words of the first line are code at 0.\<close>

theorem code_loaded_witness:
  "\<exists>c ln syms out. load_program (words_bytes (pack_image demo_im)) (Some (image_lo demo_im)) (demo_cpu []) = Inr c \<and>
     ln_op ln = Some ''la'' \<and> ln_pc ln = 0 \<and> encode_line ln syms = Inr out \<and> holds_code c 0 out"
proof -
  obtain c where c: "load_program (words_bytes (pack_image demo_im)) (Some (image_lo demo_im)) (demo_cpu []) = Inr c"
  proof -
    have "\<not> isl (load_program (words_bytes (pack_image demo_im)) (Some (image_lo demo_im)) (demo_cpu []))"
      by code_simp
    then show thesis using that by (metis sum.collapse(2))
  qed
  from assembled_code_loaded [OF demo_image c]
  obtain lns syms where pl: "placed demo_src 0 None = Inr (lns, syms)"
    and all: "\<forall>ln \<in> set lns. ln_op ln \<noteq> Some ''.byte'' \<longrightarrow> 4 dvd ln_pc ln \<longrightarrow>
      (\<exists>out. encode_line ln syms = Inr out \<and> holds_code c (ln_pc ln) out)"
    by auto
  have h: "lns \<noteq> []" "ln_op (hd lns) = Some ''la''" "ln_pc (hd lns) = 0"
    using demo_placed by (simp_all add: pl)
  then have "\<exists>out. encode_line (hd lns) syms = Inr out \<and> holds_code c (ln_pc (hd lns)) out"
    using bspec [OF all hd_in_set [OF h(1)]] by simp
  with c h show ?thesis by auto
qed

theorem layout_witness:
  "\<exists>ln syms out. ln_op ln = Some ''la'' \<and> encode_line ln syms = Inr out \<and> emitted ln out \<le> 8 \<and>
     line_held demo_im ln out"
proof -
  from assembled_layout [OF demo_image]
  obtain lns syms where pl: "placed demo_src 0 None = Inr (lns, syms)"
    and size: "\<forall>ln \<in> set lns. \<exists>out. encode_line ln syms = Inr out \<and> emitted ln out \<le> ln_size ln"
    and held: "\<forall>ln \<in> set lns. \<exists>out. encode_line ln syms = Inr out \<and> line_held demo_im ln out"
    by auto
  have "lns \<noteq> []" "ln_op (hd lns) = Some ''la''" "ln_size (hd lns) = 8"
    using demo_placed by (simp_all add: pl)
  with size held show ?thesis by (metis hd_in_set sum.inject(2))
qed

theorem packed_words_witness:
  "words_bytes (pack_image demo_im) ! 8 = 7"
proof -
  have ws: "assemble demo_src 0 None = Inr (pack_image demo_im)"
    by (simp add: assemble_def demo_image)
  have f: "image_lo demo_im \<le> 8" "8 < image_lo demo_im + 4 * int (length (pack_image demo_im))"
      "nat (8 - image_lo demo_im) = 8" "(if has_byte demo_im 8 then image_get demo_im 8 else 0) = 7"
    by code_simp+
  from packed_words_cover_image [OF demo_image] ws f show ?thesis by (metis sum.inject(2))
qed

section \<open>Text\<close>

theorem errors_located_witness:
  "\<exists>i m. i < length (py_splitlines ''foo'') \<and>
     AsmError 1 (Unknown_mnemonic ''foo'') ''foo'' = AsmError (int i + 1) m (py_splitlines ''foo'' ! i)"
proof -
  have "assemble ''foo'' 0 None = Inl (AsmError 1 (Unknown_mnemonic ''foo'') ''foo'')"
    by code_simp
  from assemble_errors_located [OF this] show ?thesis by blast
qed

theorem unknown_mnemonic_witness:
  "encode_line (demo_line ''mul'' [''a0'']) demo_syms = Inl (AsmError 1 (Unknown_mnemonic ''mul'') ''mul'')"
proof -
  have "ln_op (demo_line ''mul'' [''a0'']) = Some ''mul''" "''mul'' \<notin> set mnemonics"
    by code_simp+
  from unknown_mnemonic [OF this, of demo_syms] show ?thesis by (simp add: demo_line_def)
qed

theorem odd_jump_witness:
  "encode_line (demo_line ''j'' [''5'']) demo_syms = Inr [j_type (Opcode_value OP_JAL) 0 4]"
proof -
  have "ln_op (demo_line ''j'' [''5'']) = Some ''j''" "length (ln_args (demo_line ''j'' [''5''])) = 1"
      "arg_val (demo_line ''j'' [''5'']) demo_syms 0 = Inr 5"
      "odd (5 - ln_pc (demo_line ''j'' [''5'']))" "- 1048576 < 5 - ln_pc (demo_line ''j'' [''5''])"
      "5 - ln_pc (demo_line ''j'' [''5'']) < 1048576"
    by code_simp+
  from odd_jump_accepted [OF this] show ?thesis by (simp add: demo_line_def take_bit_int_eq_self)
qed

theorem hex_file_witness: "map (py_int 16) (py_splitlines (to_hex_lines [0xBEEF, 7])) = [Some 0xBEEF, Some 7]"
proof -
  have "words_ok [0xBEEF, 7]" by code_simp
  from hex_file_roundtrip [OF this] show ?thesis by simp
qed

section \<open>The emulator\<close>

theorem step_trace_witness:
  "trace_mem (Some (54, 5, 2)) (demo_cpu [10851107]) (snd (step (demo_cpu [10851107])))"
proof -
  let ?c = "demo_cpu [10851107]"
  have "fst (step ?c) = Inr \<lparr>tr_pc = 0, tr_inst = 10851107, rd_write = None, mem_write = Some (54, 5, 2)\<rparr>"
    by code_simp
  then have "step ?c = (Inr \<lparr>tr_pc = 0, tr_inst = 10851107, rd_write = None, mem_write = Some (54, 5, 2)\<rparr>, snd (step ?c))"
    by (metis prod.collapse)
  from step_trace_sound [OF this] show ?thesis by simp
qed

theorem step_raise_witness: "snd (step (demo_cpu [0])) = demo_cpu [0]"
proof -
  have "fst (step (demo_cpu [0])) = Inl (Trap ''illegal'' 0 ''opcode=0x00'')"
    by code_simp
  then have "step (demo_cpu [0]) = (Inl (Trap ''illegal'' 0 ''opcode=0x00''), snd (step (demo_cpu [0])))"
    by (metis prod.collapse)
  from step_raise_unchanged [OF this] show ?thesis .
qed

theorem reachable_witness:
  "\<exists>c0 c d. RV32I_init 16 0 0x80001000 False = Inr c0 \<and> load_program [19, 0, 0, 0] None c0 = Inr c \<and>
     steps d = 1 \<and> wf_cpu d"
proof -
  obtain c0 c where i: "RV32I_init 16 0 0x80001000 False = Inr c0" "load_program [19, 0, 0, 0] None c0 = Inr c"
  proof -
    have "(case RV32I_init 16 0 0x80001000 False of Inl e \<Rightarrow> False | Inr c0 \<Rightarrow>
        (case load_program [19, 0, 0, 0] None c0 of Inl e \<Rightarrow> False | Inr c \<Rightarrow> True))"
      by code_simp
    then show thesis using that by (auto split: sum.splits)
  qed
  have "(case RV32I_init 16 0 0x80001000 False of Inl e \<Rightarrow> False | Inr c0 \<Rightarrow>
      (case load_program [19, 0, 0, 0] None c0 of Inl e \<Rightarrow> False | Inr c \<Rightarrow> \<not> isl (fst (step c)) \<and> steps (snd (step c)) = 1))"
    by code_simp
  then obtain t where t: "step c = (Inr t, snd (step c))" "steps (snd (step c)) = 1"
    by (auto simp: i) (metis prod.collapse sum.collapse(2))
  have "steps_to c (snd (step c))"
    by (rule steps_to_first [OF t(1) steps_refl])
  with reachable_wf [OF i(1) _ i(2)] have "wf_cpu (snd (step c))"
    by (simp add: byte_ok_def)
  with i t(2) show ?thesis by blast
qed

theorem load_after_store_witness:
  "load (snd (store 48 0x11223344 4 (demo_cpu []))) 49 1 False = Inr 0x33"
proof -
  have "fst (store 48 0x11223344 4 (demo_cpu [])) = Inr ()" by code_simp
  then have s: "store 48 0x11223344 (int 4) (demo_cpu []) = (Inr (), snd (store 48 0x11223344 4 (demo_cpu [])))"
    by (metis of_nat_numeral prod.collapse)
  have a: "access_ok (demo_cpu []) 48 4" "48 \<noteq> tohost_addr (demo_cpu [])" "access_ok (demo_cpu []) (48 + int 1) 1"
    by code_simp+
  from load_after_store [OF a(1,2) s _ a(3)] show ?thesis by simp
qed

theorem load_after_disjoint_store_witness:
  "load (snd (store 48 0x11223344 4 (demo_cpu []))) 52 4 False = load (demo_cpu []) 52 4 False"
proof -
  have "fst (store 48 0x11223344 4 (demo_cpu [])) = Inr ()" by code_simp
  then have s: "store 48 0x11223344 (int 4) (demo_cpu []) = (Inr (), snd (store 48 0x11223344 4 (demo_cpu [])))"
    by (metis of_nat_numeral prod.collapse)
  have a: "access_ok (demo_cpu []) 48 4" "48 \<noteq> tohost_addr (demo_cpu [])" "access_ok (demo_cpu []) 52 4"
    by code_simp+
  from load_after_disjoint_store [OF a(1,2) s a(3)] show ?thesis by simp
qed

theorem alu_reg_witness:
  "alu_reg 0 32 5 7 0 = Inr 4294967294"
proof -
  have "legal_reg 0 32" by code_simp
  from alu_reg_matches_rtl [OF this, of 5 7 0] show ?thesis by (simp add: rtl_alu_op_reg_def F7_ALT_def)
qed

theorem alu_imm_witness:
  "alu_imm 5 4294967288 2 0x40255513 0 = Inr 4294967294"
proof -
  have "legal_imm 5 (inst_funct7 0x40255513)" and f: "rtl_alu_op_imm 5 (inst_funct7 0x40255513) = ALU_SRA"
    by code_simp+
  from alu_imm_matches_rtl [OF this(1), of 4294967288 2 0]
  have "alu_imm 5 (uint (4294967288 :: u32w)) (sint (2 :: u32w)) 0x40255513 0 =
      Inr (uint (rtl_alu ALU_SRA 4294967288 2))"
    unfolding f .
  moreover have "uint (rtl_alu ALU_SRA 4294967288 2) = 4294967294"
    by code_simp
  moreover have "sint (2 :: u32w) = 2" by code_simp
  ultimately show ?thesis by simp
qed

theorem undefined_funct7_witness: "\<exists>d. alu_reg 0 1 5 7 0 = Inl (Trap ''illegal'' 0 d)"
proof -
  have "(0 :: int) = F3Op_value F3_ADD_SUB \<or> (0 :: int) = F3Op_value F3_SR" "(1 :: int) \<notin> {F7_DEFAULT, F7_ALT}"
    by code_simp+
  from undefined_funct7_diverges [OF this, of 5 7 0] show ?thesis by blast
qed

section \<open>A conformance test\<close>

text \<open>\<open>li t0, 1; sw t0, 256(x0)\<close> with \<open>tohost\<close> at 256.\<close>

definition demo_segs :: segments where
  "demo_segs = [(0, [147, 2, 16, 0, 35, 32, 80, 16])]"

lemma demo_test_cpu:
  obtains c rest where "test_cpu demo_segs 256 = Inr c" "mem c = [147, 2, 16, 0, 35, 32, 80, 16] @ rest"
    "regs_ok c" "pc c = 0" "mem_base c = 0" "tohost_addr c = 256" "\<not> halted c" "steps c = 0"
proof -
  have "seg_base demo_segs = 0" "test_mem_size demo_segs = 131072"
    by code_simp+
  then show thesis
    using that [of "\<lparr>regs = replicate 32 0, pc = 0, mem = [147, 2, 16, 0, 35, 32, 80, 16] @ drop 8 (replicate 131072 0),
      mem_base = 0, tohost_addr = 256, tohost_value = None, halted = False, halt_reason = None, steps = 0,
      csrs = [CSR_MHARTID \<mapsto> 0], trap_on_ecall = True\<rparr>" "drop 8 (replicate 131072 0)"]
    by (simp add: test_cpu_def RV32I_init_def load_segments_def load_program_def demo_segs_def regs_ok_def
        list_all_length word_ok_def del: replicate.simps)
qed

lemma demo_test_run:
  "\<exists>reason. run_test (demo_segs, Some 256) = Inr (True, reason)"
proof -
  obtain c rest where c: "test_cpu demo_segs 256 = Inr c" "mem c = [147, 2, 16, 0, 35, 32, 80, 16] @ rest"
    "regs_ok c" "pc c = 0" "mem_base c = 0" "tohost_addr c = 256" "\<not> halted c" "steps c = 0"
    using demo_test_cpu .
  have w: "1049235 = i_type (Opcode_value OP_IMM) 5 (F3Op_value F3_ADD_SUB) 0 1"
      "273686563 = s_type (Opcode_value OP_STORE) (F3Store_value F3_SW) 0 5 256"
    by code_simp+
  let ?c1 = "retire 4 (wr 5 1 c)"
  have "fetches c (pc c) 1049235"
    using c by (simp add: fetches_def fetch_Inr unpack_I_def)
  moreover have "exec_opcode (pc c) 1049235 c = (Inr (4, None), wr 5 1 c)"
    unfolding w(1) using exec_addi_word [of 5 0 "pc c" 1 c] c
    by (simp add: reg_ok_def emu_regs.read_zero u32_id)
  ultimately obtain t where s1: "step c = (Inr t, ?c1)"
    using step_exec [OF c(7)] by blast
  have r5: "r ?c1 5 = 1"
    using c(3) by (simp add: emu_regs.read_write reg_ok_def u32_id)
  let ?c2 = "?c1\<lparr>tohost_value := Some 1, halted := True, halt_reason := Some ''tohost-pass''\<rparr>"
  have "fetches ?c1 (pc ?c1) 273686563"
    using c by (simp add: fetches_def fetch_Inr unpack_I_def)
  moreover have "exec_opcode (pc ?c1) 273686563 ?c1 = (Inr (8, Some (256, 1, 4)), ?c2)"
  proof -
    have f: "inst_opcode 273686563 = Opcode_value OP_STORE" "inst_rs1 273686563 = 0" "inst_rs2 273686563 = 5"
        "store_width (inst_funct3 273686563) = Some 4" "imm_s 273686563 = 256"
      by code_simp+
    have st: "store 256 1 4 ?c1 = (Inr (), ?c2)"
      using store_tohost [of ?c1 1 4] c(6) by (simp add: u32_id)
    show ?thesis
      using st r5 by (simp add: exec_opcode_def f exec_store_def sx_simps emu_regs.read_zero u32_id)
  qed
  ultimately obtain t' where s2: "step ?c1 = (Inr t', retire 8 ?c2)"
    using step_exec [of ?c1] c(7) by fastforce
  have "run MAX_STEPS c = run MAX_STEPS (retire 8 ?c2)"
    using run_step [OF _ _ s1, of MAX_STEPS] run_step [OF _ _ s2, of MAX_STEPS] c(7,8)
    by (simp add: MAX_STEPS_def)
  then have "run MAX_STEPS c = (Inr ''tohost-pass'', retire 8 ?c2)"
    by (simp add: run_halted retire_def)
  then show ?thesis
    using c(1) by (simp add: run_test_def test_report_def demo_segs_def)
qed

theorem run_test_pass_witness:
  "\<exists>c d. test_cpu demo_segs 256 = Inr c \<and> steps_to c d \<and> tohost_value d = Some 1"
  using demo_test_run run_test_pass by blast

end
