(* ===== verification/Program_Witnesses.thy ===== *)
theory Program_Witnesses
  imports Programs Asm_Source Witnesses
begin

text \<open>
  Concrete inputs for the properties of source texts, whole programs and the loops of the benchmarks.
\<close>

section \<open>Source texts\<close>

theorem parse_int_literals_witness:
  "parse_int '' -0x0DEAD_beef'' 1 [] = Inr (- 0xDEADBEEF)"
proof -
  have "16 = (10 :: nat) \<and> ''0x'' = [] \<or> (16, ''0x'') \<in> set radix_prefixes"
    by (simp add: radix_prefixes_def)
  moreover have "''0DEADbeef'' \<noteq> []" "list_all (is_digit_of 16) ''0DEADbeef''" "''-'' = [] \<or> ''-'' = ''-''"
    "py_remove (CHR ''_'') ''-0x0DEAD_beef'' = ''-'' @ ''0x'' @ ''0DEADbeef''"
    "list_all py_isspace '' ''" "list_all py_isspace []"
    by code_simp+
  ultimately have "parse_int ('' '' @ ''-0x0DEAD_beef'' @ []) 1 [] =
      Inr (if ''-'' = [] then place_value 16 ''0DEADbeef'' else - place_value 16 ''0DEADbeef'')"
    by (rule parse_int_literals)
  moreover have "place_value 16 ''0DEADbeef'' = 0xDEADBEEF"
    unfolding digits_value_place [symmetric] by code_simp
  ultimately show ?thesis by simp
qed

definition demo_stmts :: "stmt list" where
  "demo_stmts =
    [\<lparr>st_label = None, st_op = None, st_comment = Some '' copy a word''\<rparr>,
     \<lparr>st_label = Some ''main'', st_op = Some (''lw'', [Token ''a0'', Offset ''-4'' ''sp'']), st_comment = None\<rparr>,
     \<lparr>st_label = None, st_op = Some (''ret'', []), st_comment = Some ''done''\<rparr>]"

theorem tokenize_recovers_witness:
  "map (\<lambda>ln. (ln_lineno ln, ln_label ln, ln_op ln, ln_args ln)) (tokenize (source_text demo_stmts)) =
    [(2, Some ''main'', Some ''lw'', [''a0'', ''-4'', ''sp'']), (3, None, Some ''ret'', [])]"
proof -
  have "list_all stmt_ok demo_stmts" by code_simp
  from tokenize_recovers [OF this] show ?thesis
    by (simp add: demo_stmts_def stmt_line_def)
qed

section \<open>Programs\<close>

definition demo_source :: string where
  "demo_source = source_text
    [\<lparr>st_label = None, st_op = Some (''add'', [Token ''a0'', Token ''a0'', Token ''a1'']), st_comment = None\<rparr>,
     \<lparr>st_label = None, st_op = Some (''ecall'', []), st_comment = None\<rparr>]"

theorem assemble_concatenates_witness: "assemble demo_source 0 None = Inr [11863347, 115]"
proof -
  have "\<exists>p. placed demo_source 0 None = Inr p \<and> flat_words 0 (fst p) (snd p) = Some [11863347, 115]"
  proof (cases "placed demo_source 0 None")
    case (Inl e)
    moreover have "flat_program demo_source 0 \<noteq> None" by code_simp
    ultimately show ?thesis by (simp add: flat_program_def)
  next
    case (Inr p)
    moreover have "flat_program demo_source 0 = Some [11863347, 115]" by code_simp
    ultimately show ?thesis by (simp add: flat_program_def split: prod.splits)
  qed
  then obtain lns syms where "placed demo_source 0 None = Inr (lns, syms)" "flat_words 0 lns syms = Some [11863347, 115]"
    by auto
  then show ?thesis by (rule assemble_concatenates) simp
qed

theorem more_memory_witness:
  "\<exists>d. run 10 (demo_cpu [115]) = (Inr ''ecall'', d) \<and>
     run 10 ((demo_cpu [115])\<lparr>mem := mem (demo_cpu [115]) @ [1, 2, 3]\<rparr>) = (Inr ''ecall'', d\<lparr>mem := mem d @ [1, 2, 3]\<rparr>)"
proof -
  have "fst (run 10 (demo_cpu [115])) = Inr ''ecall''" by code_simp
  then obtain d where "run 10 (demo_cpu [115]) = (Inr ''ecall'', d)"
    by (cases "run 10 (demo_cpu [115])") auto
  with more_memory_same_run [OF this, of "[1, 2, 3]"] show ?thesis by blast
qed

section \<open>The loops\<close>

lemma demo_loop_state:
  "regs_ok (demo_cpu ws)" "\<not> halted (demo_cpu ws)"
  "pc (demo_cpu ws) = 0" "r (demo_cpu ws) 1 = 0" "r (demo_cpu ws) 10 = 5" "r (demo_cpu ws) 11 = 48"
  "steps (demo_cpu ws) = 0" "\<not> trap_on_ecall (demo_cpu ws)"
  by (simp_all add: demo_cpu_def regs_ok_def r_def list_all_length word_ok_def nth_list_update)

theorem mul_witness: "\<exists>d. steps_n 196 (demo_cpu MUL_WORDS) = Inr d \<and> r d 12 = 240"
proof -
  have "holds_code (demo_cpu MUL_WORDS) 0 MUL_WORDS" by code_simp
  then show ?thesis
    using mul_correct [OF mul_assembled, of "demo_cpu MUL_WORDS"] demo_loop_state [of MUL_WORDS]
    by (auto simp: u32_id simp del: steps_n.simps)
qed

theorem gcd_witness:
  "\<exists>d. run 1000 (demo_cpu (drop 4 GCD_WORDS)) = (Inr ''ecall'', d) \<and> r d 10 = 1"
proof -
  let ?c = "demo_cpu (drop 4 GCD_WORDS)"
  have "holds_code ?c 0 (drop 4 GCD_WORDS)" "gcd (5 :: int) 48 = 1" by code_simp+
  then show ?thesis
    using gcd_correct [OF gcd_assembled, of ?c 1000] demo_loop_state [of "drop 4 GCD_WORDS"] by simp
qed

end
