(* ===== verification/Sv_Check.thy ===== *)
theory Sv_Check
  imports Encoding Python_Strings "HOL-Library.AList"
begin

text \<open>
  \<open>scripts/encoding_check.py\<close>: the scanner for \<open>rtl/pkg/riscv_pkg.sv\<close> and the comparison with the
  Python tables. \<open>re\<close> patterns are written out as scanners; a \<open>ValueError\<close> is \<open>Inl\<close> of a tag.
\<close>

section \<open>Integer literals\<close>

datatype sv_error =
  Bad_literal string
| No_closing_line string
| No_opening_line string
| Member_without_value string string
| No_localparam string

text \<open>\<open>int(s, 0)\<close>: the prefix selects the base; a decimal number has no leading zero.\<close>

definition py_int0 :: "string \<Rightarrow> int option" where
  "py_int0 s =
     (let s1 = dropWhile c_isspace s;
          s2 = (if py_startswith ''-'' s1 \<or> py_startswith ''+'' s1 then drop 1 s1 else s1);
          base = (if list_ex (\<lambda>p. py_startswith p s2) (base_prefix 16) then 16
                  else if list_ex (\<lambda>p. py_startswith p s2) (base_prefix 8) then 8
                  else if list_ex (\<lambda>p. py_startswith p s2) (base_prefix 2) then 2 else 10);
          ds = takeWhile (is_digit_of 10) s2
      in if base = 10 \<and> py_startswith ''0'' s2 \<and> list_ex (\<lambda>c. c \<noteq> CHR ''0'') ds then None
         else py_int base s)"

text \<open>\<open>(\d+)'([bdhoBDHO])([0-9a-fA-F_]+)\<close>, to the end of the string: the base and the digits.\<close>

definition sv_base :: "char \<Rightarrow> nat option" where
  "sv_base c =
     (if c = CHR ''b'' \<or> c = CHR ''B'' then Some 2
      else if c = CHR ''d'' \<or> c = CHR ''D'' then Some 10
      else if c = CHR ''h'' \<or> c = CHR ''H'' then Some 16
      else if c = CHR ''o'' \<or> c = CHR ''O'' then Some 8
      else None)"

definition quote_char :: char where
  "quote_char = CHR 0x27"

definition sized_literal :: "string \<Rightarrow> (nat \<times> string) option" where
  "sized_literal s =
     (if takeWhile py_isdigit s = [] then None
      else
        (case dropWhile py_isdigit s of
           q # b # ds \<Rightarrow>
             (if q = quote_char \<and> ds \<noteq> [] \<and> list_all (\<lambda>c. is_digit_of 16 c \<or> c = CHR ''_'') ds
              then map_option (\<lambda>base. (base, ds)) (sv_base b)
              else None)
         | _ \<Rightarrow> None))"

definition or_bad :: "string \<Rightarrow> int option \<Rightarrow> sv_error + int" where
  "or_bad s v = (case v of None \<Rightarrow> Inl (Bad_literal s) | Some x \<Rightarrow> Inr x)"

definition parse_sv_int_literal :: "string \<Rightarrow> sv_error + int" where
  "parse_sv_int_literal s0 =
     (let s = py_remove (CHR ''_'') (py_strip s0) in
      case sized_literal s of
        Some (base, ds) \<Rightarrow> or_bad s (py_int base ds)
      | None \<Rightarrow> or_bad s (py_int0 s))"

section \<open>Enums\<close>

text \<open>\<open>^\s*\}\s*NAME\s*;\<close> at the start of a line.\<close>

definition close_matches :: "string \<Rightarrow> string \<Rightarrow> bool" where
  "close_matches name line =
     (let l1 = py_lstrip line in
      py_startswith ''}'' l1 \<and>
      (let l2 = py_lstrip (drop 1 l1) in
       py_startswith name l2 \<and> py_startswith '';'' (py_lstrip (drop (length name) l2))))"

definition is_word_char :: "char \<Rightarrow> bool" where
  "is_word_char c = (py_isalpha c \<or> py_isdigit c \<or> c = CHR ''_'')"

text \<open>\<open>^\s*typedef\s+enum\b\<close>.\<close>

definition open_matches :: "string \<Rightarrow> bool" where
  "open_matches line =
     (let l1 = py_lstrip line in
      py_startswith ''typedef'' l1 \<and>
      (let l2 = drop 7 l1; l3 = py_lstrip l2; l4 = drop 4 l3 in
       l3 \<noteq> l2 \<and> py_startswith ''enum'' l3 \<and> (l4 = [] \<or> \<not> is_word_char (hd l4))))"

fun find_first :: "('a \<Rightarrow> bool) \<Rightarrow> nat \<Rightarrow> 'a list \<Rightarrow> nat option" where
  "find_first P i [] = None"
| "find_first P i (x # xs) = (if P x then Some i else find_first P (i + 1) xs)"

text \<open>The scan back from the closing line: the last opening line before it.\<close>

fun find_last :: "('a \<Rightarrow> bool) \<Rightarrow> nat \<Rightarrow> 'a list \<Rightarrow> nat option" where
  "find_last P i [] = None"
| "find_last P i (x # xs) =
     (case find_last P (i + 1) xs of Some k \<Rightarrow> Some k | None \<Rightarrow> if P x then Some i else None)"

text \<open>\<open>re.sub(r"//.*", "", raw)\<close>.\<close>

fun cut_comment :: "string \<Rightarrow> string" where
  "cut_comment [] = []"
| "cut_comment (c # s) = (if py_startswith ''//'' (c # s) then [] else c # cut_comment s)"

definition rstrip_commas :: "string \<Rightarrow> string" where
  "rstrip_commas s = rev (dropWhile (\<lambda>c. c = CHR '','') (rev s))"

definition member_text :: "string \<Rightarrow> string" where
  "member_text raw = py_strip (rstrip_commas (py_strip (cut_comment raw)))"

type_synonym members = "(string \<times> int) list"

definition parse_member :: "string \<Rightarrow> string \<Rightarrow> members \<Rightarrow> sv_error + members" where
  "parse_member typedef_name raw ms =
     (let line = member_text raw in
      if line = [] then Inr ms
      else
        (let name = takeWhile (\<lambda>c. c \<noteq> CHR ''='') line; rest = dropWhile (\<lambda>c. c \<noteq> CHR ''='') line
         in if rest = [] then Inl (Member_without_value typedef_name raw)
            else bindE (parse_sv_int_literal (py_strip (tl rest))) (\<lambda>v.
              Inr (AList.update (py_strip name) v ms))))"

definition parse_sv_enum :: "string \<Rightarrow> string \<Rightarrow> sv_error + members" where
  "parse_sv_enum sv_text typedef_name =
     (let lines = py_splitlines sv_text in
      case find_first (close_matches typedef_name) 0 lines of
        None \<Rightarrow> Inl (No_closing_line typedef_name)
      | Some close_idx \<Rightarrow>
          (case find_last open_matches 0 (take close_idx lines) of
             None \<Rightarrow> Inl (No_opening_line typedef_name)
           | Some open_idx \<Rightarrow>
               fold (\<lambda>raw m. bindE m (parse_member typedef_name raw))
                 (drop (open_idx + 1) (take close_idx lines)) (Inr [])))"

section \<open>Local parameters\<close>

text \<open>\<open>logic\s*\[[^\]]+\]\s+\<close> and \<open>int\s+\<close>: what follows the type, if it is there.\<close>

definition after_logic :: "string \<Rightarrow> string option" where
  "after_logic s =
     (if py_startswith ''logic'' s then
        (let s1 = py_lstrip (drop 5 s) in
         if py_startswith ''['' s1 then
           (let body = takeWhile (\<lambda>c. c \<noteq> CHR '']'') (drop 1 s1);
                s2 = dropWhile (\<lambda>c. c \<noteq> CHR '']'') (drop 1 s1);
                s3 = py_lstrip (drop 1 s2)
            in if body \<noteq> [] \<and> s2 \<noteq> [] \<and> s3 \<noteq> drop 1 s2 then Some s3 else None)
         else None)
      else None)"

definition after_int :: "string \<Rightarrow> string option" where
  "after_int s =
     (if py_startswith ''int'' s \<and> py_lstrip (drop 3 s) \<noteq> drop 3 s then Some (py_lstrip (drop 3 s)) else None)"

text \<open>\<open>NAME\s*=\s*([^;]+);\<close>: the value, whose surrounding white space the caller strips.\<close>

definition param_value :: "string \<Rightarrow> string \<Rightarrow> string option" where
  "param_value name s =
     (if py_startswith name s then
        (let s1 = py_lstrip (drop (length name) s);
             v = takeWhile (\<lambda>c. c \<noteq> CHR '';'') (drop 1 s1);
             rest = dropWhile (\<lambda>c. c \<noteq> CHR '';'') (drop 1 s1)
         in if py_startswith ''='' s1 \<and> v \<noteq> [] \<and> rest \<noteq> [] then Some v else None)
      else None)"

definition first_some :: "'a option list \<Rightarrow> 'a option" where
  "first_some xs = (case filter (\<lambda>x. x \<noteq> None) xs of [] \<Rightarrow> None | x # _ \<Rightarrow> x)"

definition param_at :: "string \<Rightarrow> string \<Rightarrow> string option" where
  "param_at name s =
     (if py_startswith ''localparam'' s then
        (let s1 = drop 10 s; s2 = py_lstrip s1 in
         if s2 = s1 then None
         else first_some [Option.bind (after_logic s2) (param_value name),
                          Option.bind (after_int s2) (param_value name), param_value name s2])
      else None)"

text \<open>\<open>pat.search\<close>: the first position where the pattern matches.\<close>

fun param_search :: "string \<Rightarrow> string \<Rightarrow> string option" where
  "param_search name [] = None"
| "param_search name (c # s) =
     (case param_at name (c # s) of Some v \<Rightarrow> Some v | None \<Rightarrow> param_search name s)"

definition parse_sv_localparam :: "string \<Rightarrow> string \<Rightarrow> sv_error + int" where
  "parse_sv_localparam sv_text name =
     (case param_search name sv_text of
        None \<Rightarrow> Inl (No_localparam name)
      | Some v \<Rightarrow> parse_sv_int_literal v)"

section \<open>The comparison\<close>

definition py_Opcode :: members where
  "py_Opcode =
    [(''LUI'', Opcode_value OP_LUI), (''AUIPC'', Opcode_value OP_AUIPC), (''JAL'', Opcode_value OP_JAL),
     (''JALR'', Opcode_value OP_JALR), (''BRANCH'', Opcode_value OP_BRANCH), (''LOAD'', Opcode_value OP_LOAD),
     (''STORE'', Opcode_value OP_STORE), (''IMM'', Opcode_value OP_IMM), (''REG'', Opcode_value OP_REG),
     (''FENCE'', Opcode_value OP_FENCE), (''SYSTEM'', Opcode_value OP_SYSTEM)]"

definition py_F3Op :: members where
  "py_F3Op =
    [(''ADD_SUB'', F3Op_value F3_ADD_SUB), (''SLL'', F3Op_value F3_SLL), (''SLT'', F3Op_value F3_SLT),
     (''SLTU'', F3Op_value F3_SLTU), (''XOR'', F3Op_value F3_XOR), (''SR'', F3Op_value F3_SR),
     (''OR'', F3Op_value F3_OR), (''AND'', F3Op_value F3_AND)]"

definition py_F3Branch :: members where
  "py_F3Branch =
    [(''BEQ'', F3Branch_value F3_BEQ), (''BNE'', F3Branch_value F3_BNE), (''BLT'', F3Branch_value F3_BLT),
     (''BGE'', F3Branch_value F3_BGE), (''BLTU'', F3Branch_value F3_BLTU), (''BGEU'', F3Branch_value F3_BGEU)]"

definition py_F3Load :: members where
  "py_F3Load =
    [(''LB'', F3Load_value F3_LB), (''LH'', F3Load_value F3_LH), (''LW'', F3Load_value F3_LW),
     (''LBU'', F3Load_value F3_LBU), (''LHU'', F3Load_value F3_LHU)]"

definition py_F3Store :: members where
  "py_F3Store =
    [(''SB'', F3Store_value F3_SB), (''SH'', F3Store_value F3_SH), (''SW'', F3Store_value F3_SW)]"

definition py_AluOp :: members where
  "py_AluOp =
    [(''ADD'', AluOp_value ALU_ADD), (''SUB'', AluOp_value ALU_SUB), (''AND'', AluOp_value ALU_AND),
     (''OR'', AluOp_value ALU_OR), (''XOR'', AluOp_value ALU_XOR), (''SLL'', AluOp_value ALU_SLL),
     (''SRL'', AluOp_value ALU_SRL), (''SRA'', AluOp_value ALU_SRA), (''SLT'', AluOp_value ALU_SLT),
     (''SLTU'', AluOp_value ALU_SLTU), (''PASS_B'', AluOp_value ALU_PASS_B)]"

definition py_AluSrcA :: members where
  "py_AluSrcA = [(''RS1'', AluSrcA_value ALU_A_RS1), (''PC'', AluSrcA_value ALU_A_PC)]"

definition py_AluSrcB :: members where
  "py_AluSrcB = [(''RS2'', AluSrcB_value ALU_B_RS2), (''IMM'', AluSrcB_value ALU_B_IMM)]"

definition py_WbSrc :: members where
  "py_WbSrc = [(''ALU'', WbSrc_value WB_ALU), (''MEM'', WbSrc_value WB_MEM), (''PC4'', WbSrc_value WB_PC4)]"

definition py_BranchOp :: members where
  "py_BranchOp =
    [(''NONE'', BranchOp_value BR_NONE), (''EQ'', BranchOp_value BR_EQ), (''NE'', BranchOp_value BR_NE),
     (''LT'', BranchOp_value BR_LT), (''GE'', BranchOp_value BR_GE), (''LTU'', BranchOp_value BR_LTU),
     (''GEU'', BranchOp_value BR_GEU), (''JUMP'', BranchOp_value BR_JUMP)]"

definition py_MemSize :: members where
  "py_MemSize = [(''B'', MemSize_value MEM_B), (''H'', MemSize_value MEM_H), (''W'', MemSize_value MEM_W)]"

definition ENUM_MAPPINGS :: "(string \<times> members \<times> string) list" where
  "ENUM_MAPPINGS =
    [(''opcode_e'', py_Opcode, ''OP_''), (''funct3_op_e'', py_F3Op, ''F3_''),
     (''funct3_branch_e'', py_F3Branch, ''F3_''), (''funct3_load_e'', py_F3Load, ''F3_''),
     (''funct3_store_e'', py_F3Store, ''F3_''), (''alu_op_e'', py_AluOp, ''ALU_''),
     (''alu_src_a_e'', py_AluSrcA, ''ALU_A_''), (''alu_src_b_e'', py_AluSrcB, ''ALU_B_''),
     (''wb_src_e'', py_WbSrc, ''WB_''), (''branch_op_e'', py_BranchOp, ''BR_''),
     (''mem_size_e'', py_MemSize, ''MEM_'')]"

definition LOCALPARAMS :: "(string \<times> int) list" where
  "LOCALPARAMS =
    [(''XLEN'', int XLEN), (''F7_DEFAULT'', F7_DEFAULT), (''F7_ALT'', F7_ALT),
     (''F12_ECALL'', F12_ECALL), (''F12_EBREAK'', F12_EBREAK)]"

datatype drift =
  Bad_prefix string string
| Enum_disagree string members members
| Param_disagree string int int

text \<open>Equality of dicts, as association lists with distinct keys.\<close>

definition dict_eq :: "members \<Rightarrow> members \<Rightarrow> bool" where
  "dict_eq a b = (set a = set b)"

definition strip_prefix :: "string \<Rightarrow> members \<Rightarrow> members" where
  "strip_prefix pre ms =
     fold (\<lambda>(name, v) acc. AList.update (drop (length pre) name) v acc)
       (filter (\<lambda>(name, v). py_startswith pre name) ms) []"

definition enum_errors :: "string \<Rightarrow> string \<times> members \<times> string \<Rightarrow> sv_error + drift list" where
  "enum_errors sv_text m =
     (case m of (typedef_name, py_members, pre) \<Rightarrow>
      bindE (parse_sv_enum sv_text typedef_name) (\<lambda>sv_members.
      let bad = map (\<lambda>(name, v). Bad_prefix typedef_name name)
                  (filter (\<lambda>(name, v). \<not> py_startswith pre name) sv_members);
          stripped = strip_prefix pre sv_members
      in Inr (bad @ (if dict_eq stripped py_members then [] else [Enum_disagree typedef_name stripped py_members]))))"

definition param_errors :: "string \<Rightarrow> string \<times> int \<Rightarrow> sv_error + drift list" where
  "param_errors sv_text p =
     (case p of (name, py_val) \<Rightarrow>
      bindE (parse_sv_localparam sv_text name) (\<lambda>sv_val.
      Inr (if sv_val \<noteq> py_val then [Param_disagree name sv_val py_val] else [])))"

definition encoding_errors :: "string \<Rightarrow> sv_error + drift list" where
  "encoding_errors sv_text =
     bindE (mapE (enum_errors sv_text) ENUM_MAPPINGS) (\<lambda>es.
     bindE (mapE (param_errors sv_text) LOCALPARAMS) (\<lambda>ps. Inr (concat es @ concat ps)))"

text \<open>\<open>main\<close>, given the text of \<open>riscv_pkg.sv\<close>: the exit code.\<close>

definition encoding_check :: "string \<Rightarrow> sv_error + int" where
  "encoding_check sv_text = bindE (encoding_errors sv_text) (\<lambda>es. Inr (if es = [] then 0 else 1))"

section \<open>Sized literals\<close>

lemma parse_sized:
  assumes w: "w \<noteq> []" "list_all py_isdigit w" and base: "(base, letter) \<in> {(2, CHR ''b''), (8, CHR ''o''), (10, CHR ''d''), (16, CHR ''h'')}"
    and ds: "ds \<noteq> []" "list_all (is_digit_of base) ds"
  shows "parse_sv_int_literal (w @ [quote_char, letter] @ ds) = Inr (digits_value base ds)"
proof -
  let ?s = "w @ [quote_char, letter] @ ds"
  have b16: "base \<in> {2, 8, 10, 16}" "base \<le> 16" using base by auto
  have letter: "\<not> py_isspace letter" "letter \<noteq> CHR ''_''" "\<not> py_isspace quote_char" "quote_char \<noteq> CHR ''_''"
      "\<not> py_isdigit quote_char" "sv_base letter = Some base"
    using base by (auto simp: py_isspace_def py_isdigit_def quote_char_def sv_base_def)
  have wp: "\<forall>c \<in> set w. \<not> py_isspace c \<and> c \<noteq> CHR ''_''"
  proof
    fix c assume "c \<in> set w"
    then have "is_digit_of 10 c" using w(2) by (simp add: list_all_iff digit_10)
    then show "\<not> py_isspace c \<and> c \<noteq> CHR ''_''" using digit_plain(2,11) [of 10 c] by simp
  qed
  have dp: "\<forall>c \<in> set ds. \<not> py_isspace c \<and> c \<noteq> CHR ''_''" "\<forall>c \<in> set ds. is_digit_of 16 c"
  proof -
    have d: "is_digit_of base c" if "c \<in> set ds" for c
      using ds(2) that by (simp add: list_all_iff)
    show "\<forall>c \<in> set ds. \<not> py_isspace c \<and> c \<noteq> CHR ''_''"
      using digit_plain(2,11) [OF d b16(2)] by blast
    show "\<forall>c \<in> set ds. is_digit_of 16 c"
      using digit_mono [OF d b16(2)] by blast
  qed
  have plain: "list_all (\<lambda>c. \<not> py_isspace c) ?s" "list_all (\<lambda>c. c \<noteq> CHR ''_'') ?s"
    using wp dp(1) letter(1-4) unfolding list_all_iff by auto
  note strip_plain [OF plain(1)] remove_plain [OF plain(2)]
  moreover have "takeWhile py_isdigit ?s = w" "dropWhile py_isdigit ?s = [quote_char, letter] @ ds"
    using w(2) letter(5) by (simp_all add: takeWhile_append2 dropWhile_append2 list_all_iff)
  ultimately show ?thesis
    using w(1) ds(1) dp(2) letter(6) py_int_digits [OF ds b16(1)]
    by (simp add: parse_sv_int_literal_def Let_def sized_literal_def list_all_iff or_bad_def)
qed

text \<open>A sized literal of the package, written with any width in any of the four bases, reads back
  as its value.\<close>

theorem sized_literal_roundtrip:
  "parse_sv_int_literal (fmt_d (int w) @ [quote_char, CHR ''b''] @ digits_of 2 n) = Inr (int n) \<and>
   parse_sv_int_literal (fmt_d (int w) @ [quote_char, CHR ''o''] @ digits_of 8 n) = Inr (int n) \<and>
   parse_sv_int_literal (fmt_d (int w) @ [quote_char, CHR ''d''] @ digits_of 10 n) = Inr (int n) \<and>
   parse_sv_int_literal (fmt_d (int w) @ [quote_char, CHR ''h''] @ digits_of 16 n) = Inr (int n)"
proof -
  have w: "fmt_d (int w) \<noteq> []" "list_all py_isdigit (fmt_d (int w))"
    using digits_of_nonempty digits_of_digits [of 10 w]
    by (simp_all add: format_int_def Let_def digit_10 [abs_def, symmetric] eta_contract_eq)
  show ?thesis
    using parse_sized [OF w] digits_of_nonempty digits_of_digits digits_value_digits_of by simp
qed

section \<open>What the check means\<close>

text \<open>The parsers return dicts: every key once.\<close>

lemma parse_member_keys:
  "parse_member td raw ms = Inr ms' \<Longrightarrow> distinct (map fst ms) \<Longrightarrow> distinct (map fst ms')"
  by (auto simp: parse_member_def Let_def bindE_Inr_iff distinct_update split: if_splits)

lemma parse_sv_enum_keys: "parse_sv_enum sv_text td = Inr ms \<Longrightarrow> distinct (map fst ms)"
proof -
  have raise: "fold (\<lambda>raw m. bindE m (parse_member td raw)) raws (Inl e) = Inl e" for raws e
    by (induction raws) simp_all
  have "fold (\<lambda>raw m. bindE m (parse_member td raw)) raws (Inr ms0) = Inr ms \<Longrightarrow>
      distinct (map fst ms0) \<Longrightarrow> distinct (map fst ms)" for raws ms0
  proof (induction raws arbitrary: ms0)
    case (Cons raw raws)
    then show ?case
      by (cases "parse_member td raw ms0") (auto simp: raise dest: parse_member_keys)
  qed simp
  then show "parse_sv_enum sv_text td = Inr ms \<Longrightarrow> distinct (map fst ms)"
    by (fastforce simp: parse_sv_enum_def Let_def split: option.splits)
qed

lemma update_fresh: "k \<notin> set (map fst al) \<Longrightarrow> AList.update k v al = al @ [(k, v)]"
  by (induction al) auto

lemma fold_update_fresh:
  "distinct (map fst acc @ map (\<lambda>m. g (fst m)) ms) \<Longrightarrow>
     fold (\<lambda>(name, v) acc. AList.update (g name) v acc) ms acc = acc @ map (\<lambda>(name, v). (g name, v)) ms"
proof (induction ms arbitrary: acc)
  case (Cons m ms)
  obtain name v where m: "m = (name, v)" by fastforce
  have "AList.update (g name) v acc = acc @ [(g name, v)]"
    using Cons.prems m by (intro update_fresh) auto
  then show ?case
    using Cons.IH [of "acc @ [(g name, v)]"] Cons.prems by (auto simp: m)
qed simp

lemma startswith_drop: "py_startswith pre s \<longleftrightarrow> s = pre @ drop (length pre) s"
  by (metis append_eq_conv_conj append_take_drop_id py_startswith_def)

text \<open>Stripping the prefix off and putting it back on.\<close>

lemma strip_prefix_set:
  assumes "distinct (map fst ms)" "list_all (\<lambda>(name, v). py_startswith pre name) ms"
  shows "(\<lambda>(n, v). (pre @ n, v)) ` set (strip_prefix pre ms) = set ms"
proof -
  let ?g = "drop (length pre)"
  have pres: "fst m = pre @ ?g (fst m)" if "m \<in> set ms" for m
    using assms(2) that by (auto simp: list_all_iff startswith_drop [symmetric])
  have "inj_on (\<lambda>m. ?g (fst m)) (set ms)"
  proof (rule inj_onI)
    fix x y assume xy: "x \<in> set ms" "y \<in> set ms" and eq: "?g (fst x) = ?g (fst y)"
    have "fst x = fst y" using pres [OF xy(1)] pres [OF xy(2)] eq by simp
    moreover have "inj_on fst (set ms)" using assms(1) by (simp add: distinct_map)
    ultimately show "x = y" using xy by (simp add: inj_on_def)
  qed
  then have "distinct (map (\<lambda>m. ?g (fst m)) ms)"
    using assms(1) by (simp add: distinct_map)
  moreover have "filter (\<lambda>(name, v). py_startswith pre name) ms = ms"
    using assms(2) by (simp add: filter_id_conv list_all_iff)
  ultimately have "strip_prefix pre ms = map (\<lambda>(name, v). (?g name, v)) ms"
    using fold_update_fresh [of "[]" ?g ms] by (simp add: strip_prefix_def)
  then show ?thesis
    using pres by (force simp: image_image case_prod_beta')
qed

definition enum_agrees :: "string \<Rightarrow> string \<times> members \<times> string \<Rightarrow> bool" where
  "enum_agrees sv_text m =
     (case m of (typedef_name, py_members, pre) \<Rightarrow>
      (\<exists>ms. parse_sv_enum sv_text typedef_name = Inr ms \<and> set ms = (\<lambda>(n, v). (pre @ n, v)) ` set py_members))"

lemma enum_errors_none: "enum_errors sv_text m = Inr [] \<longleftrightarrow> enum_agrees sv_text m"
proof -
  obtain td py pre where m: "m = (td, py, pre)" by (metis prod.collapse)
  have "(list_all (\<lambda>(name, v). py_startswith pre name) ms \<and> dict_eq (strip_prefix pre ms) py) \<longleftrightarrow>
      set ms = (\<lambda>(n, v). (pre @ n, v)) ` set py" if d: "distinct (map fst ms)" for ms
  proof
    assume "list_all (\<lambda>(name, v). py_startswith pre name) ms \<and> dict_eq (strip_prefix pre ms) py"
    then have all: "list_all (\<lambda>(name, v). py_startswith pre name) ms" and "set (strip_prefix pre ms) = set py"
      by (simp_all add: dict_eq_def)
    then show "set ms = (\<lambda>(n, v). (pre @ n, v)) ` set py"
      using strip_prefix_set [OF d all] by simp
  next
    assume eq: "set ms = (\<lambda>(n, v). (pre @ n, v)) ` set py"
    then have all: "list_all (\<lambda>(name, v). py_startswith pre name) ms"
      by (auto simp: list_all_iff py_startswith_def)
    have "inj (\<lambda>(n, v :: int). (pre @ n, v))"
      by (auto simp: inj_def)
    then have "set (strip_prefix pre ms) = set py"
      using strip_prefix_set [OF d all] eq by (metis inj_image_eq_iff)
    with all show "list_all (\<lambda>(name, v). py_startswith pre name) ms \<and> dict_eq (strip_prefix pre ms) py"
      by (simp add: dict_eq_def)
  qed
  note same = this
  show ?thesis
  proof (cases "parse_sv_enum sv_text td")
    case (Inr ms)
    have "enum_errors sv_text m = Inr [] \<longleftrightarrow>
        list_all (\<lambda>(name, v). py_startswith pre name) ms \<and> dict_eq (strip_prefix pre ms) py"
      by (auto simp: m enum_errors_def Inr Let_def filter_empty_conv list_all_iff)
    also have "\<dots> \<longleftrightarrow> enum_agrees sv_text m"
      using same [OF parse_sv_enum_keys [OF Inr]] by (simp add: m enum_agrees_def Inr)
    finally show ?thesis .
  qed (simp add: m enum_errors_def enum_agrees_def)
qed

lemma mapE_concat_nil:
  "(\<exists>es. mapE f xs = Inr es \<and> concat es = []) \<longleftrightarrow> list_all (\<lambda>x. f x = Inr []) xs"
  by (induction xs) (auto simp: bindE_Inr_iff)

text \<open>C33. The check exits with 0 exactly when every enum of the package has the members of its Python
  class under the prefix, with the same values and no others, and every local parameter has the
  value of its Python constant.\<close>

theorem encoding_check_agrees:
  "encoding_check sv_text = Inr 0 \<longleftrightarrow>
     list_all (enum_agrees sv_text) ENUM_MAPPINGS \<and>
     list_all (\<lambda>(name, v). parse_sv_localparam sv_text name = Inr v) LOCALPARAMS"
proof -
  have "param_errors sv_text p = Inr [] \<longleftrightarrow> (case p of (name, v) \<Rightarrow> parse_sv_localparam sv_text name = Inr v)" for p
    by (auto simp: param_errors_def bindE_Inr_iff split: prod.split)
  then have "encoding_errors sv_text = Inr [] \<longleftrightarrow>
      list_all (\<lambda>m. enum_errors sv_text m = Inr []) ENUM_MAPPINGS \<and>
      list_all (\<lambda>(name, v). parse_sv_localparam sv_text name = Inr v) LOCALPARAMS"
    using mapE_concat_nil [of "enum_errors sv_text" ENUM_MAPPINGS]
      mapE_concat_nil [of "param_errors sv_text" LOCALPARAMS]
    unfolding encoding_errors_def by (auto simp: bindE_Inr_iff)
  moreover have "encoding_check sv_text = Inr 0 \<longleftrightarrow> encoding_errors sv_text = Inr []"
    by (auto simp: encoding_check_def bindE_Inr_iff split: if_splits)
  ultimately show ?thesis by (simp add: enum_errors_none)
qed

end
