(* ===== verification/Rtl_Core.thy ===== *)
theory Rtl_Core
  imports Rtl_Units
begin

text \<open>
  The single-cycle core: the control bundle of \<open>rtl/decoder.sv\<close>, \<open>rtl/reg_file.sv\<close>,
  \<open>rtl/data_memory.sv\<close>, \<open>rtl/instr_memory.sv\<close> and the datapath of \<open>rtl/top.sv\<close>, with the default
  parameters of \<open>top\<close>. A combinational signal is a function of the state, a clock edge without
  reset a function from states to states.
\<close>

section \<open>Bit vectors\<close>

text \<open>A slice read as a number, and the assignment \<open>w[hi:lo] = v\<close>.\<close>

definition sv_field :: "nat \<Rightarrow> nat \<Rightarrow> u32w \<Rightarrow> int" where
  "sv_field hi lo w = uint (sv_slice hi lo w)"

definition sv_set :: "nat \<Rightarrow> nat \<Rightarrow> u32w \<Rightarrow> u32w \<Rightarrow> u32w" where
  "sv_set hi lo v w =
     (w AND NOT (push_bit lo (mask (hi - lo + 1)))) OR push_bit lo (take_bit (hi - lo + 1) v)"

section \<open>\<open>rtl/decoder.sv\<close>\<close>

record control =
  ct_reg_write :: bool
  ct_wb_src :: WbSrc
  ct_mem_read :: bool
  ct_mem_write :: bool
  ct_mem_size :: MemSize
  ct_mem_unsigned :: bool
  ct_alu_op :: AluOp
  ct_alu_src_a :: AluSrcA
  ct_alu_src_b :: AluSrcB
  ct_branch_op :: BranchOp
  ct_jalr :: bool
  ct_illegal :: bool

definition nop_ctrl :: control where
  "nop_ctrl = \<lparr>ct_reg_write = False, ct_wb_src = WB_ALU, ct_mem_read = False, ct_mem_write = False,
     ct_mem_size = MEM_W, ct_mem_unsigned = False, ct_alu_op = ALU_ADD, ct_alu_src_a = ALU_A_RS1,
     ct_alu_src_b = ALU_B_RS2, ct_branch_op = BR_NONE, ct_jalr = False, ct_illegal = False\<rparr>"

definition dec_branch :: "int \<Rightarrow> control" where
  "dec_branch f3 =
     (let c = nop_ctrl\<lparr>ct_alu_op := ALU_ADD, ct_alu_src_a := ALU_A_PC, ct_alu_src_b := ALU_B_IMM\<rparr> in
      case rtl_branch_op f3 of
        Some op \<Rightarrow> c\<lparr>ct_branch_op := op\<rparr>
      | None \<Rightarrow> c\<lparr>ct_branch_op := BR_NONE, ct_illegal := True\<rparr>)"

definition dec_load :: "int \<Rightarrow> control" where
  "dec_load f3 =
     (let c = nop_ctrl\<lparr>ct_reg_write := True, ct_wb_src := WB_MEM, ct_alu_op := ALU_ADD,
                ct_alu_src_a := ALU_A_RS1, ct_alu_src_b := ALU_B_IMM, ct_mem_read := True\<rparr> in
      if f3 = F3Load_value F3_LB then c\<lparr>ct_mem_size := MEM_B, ct_mem_unsigned := False\<rparr>
      else if f3 = F3Load_value F3_LH then c\<lparr>ct_mem_size := MEM_H, ct_mem_unsigned := False\<rparr>
      else if f3 = F3Load_value F3_LW then c\<lparr>ct_mem_size := MEM_W, ct_mem_unsigned := False\<rparr>
      else if f3 = F3Load_value F3_LBU then c\<lparr>ct_mem_size := MEM_B, ct_mem_unsigned := True\<rparr>
      else if f3 = F3Load_value F3_LHU then c\<lparr>ct_mem_size := MEM_H, ct_mem_unsigned := True\<rparr>
      else c\<lparr>ct_mem_read := False, ct_reg_write := False, ct_illegal := True\<rparr>)"

definition dec_store :: "int \<Rightarrow> control" where
  "dec_store f3 =
     (let c = nop_ctrl\<lparr>ct_alu_op := ALU_ADD, ct_alu_src_a := ALU_A_RS1, ct_alu_src_b := ALU_B_IMM,
                ct_mem_write := True\<rparr> in
      if f3 = F3Store_value F3_SB then c\<lparr>ct_mem_size := MEM_B\<rparr>
      else if f3 = F3Store_value F3_SH then c\<lparr>ct_mem_size := MEM_H\<rparr>
      else if f3 = F3Store_value F3_SW then c\<lparr>ct_mem_size := MEM_W\<rparr>
      else c\<lparr>ct_mem_write := False, ct_illegal := True\<rparr>)"

definition decode :: "u32w \<Rightarrow> control" where
  "decode inst =
     (let op = sv_field 6 0 inst; f3 = sv_field 14 12 inst; f7 = sv_field 31 25 inst in
      if op = Opcode_value OP_LUI then
        nop_ctrl\<lparr>ct_reg_write := True, ct_wb_src := WB_ALU, ct_alu_op := ALU_PASS_B, ct_alu_src_b := ALU_B_IMM\<rparr>
      else if op = Opcode_value OP_AUIPC then
        nop_ctrl\<lparr>ct_reg_write := True, ct_wb_src := WB_ALU, ct_alu_op := ALU_ADD,
          ct_alu_src_a := ALU_A_PC, ct_alu_src_b := ALU_B_IMM\<rparr>
      else if op = Opcode_value OP_JAL then
        nop_ctrl\<lparr>ct_reg_write := True, ct_wb_src := WB_PC4, ct_alu_op := ALU_ADD,
          ct_alu_src_a := ALU_A_PC, ct_alu_src_b := ALU_B_IMM, ct_branch_op := BR_JUMP\<rparr>
      else if op = Opcode_value OP_JALR then
        nop_ctrl\<lparr>ct_reg_write := True, ct_wb_src := WB_PC4, ct_alu_op := ALU_ADD,
          ct_alu_src_a := ALU_A_RS1, ct_alu_src_b := ALU_B_IMM, ct_branch_op := BR_JUMP, ct_jalr := True\<rparr>
      else if op = Opcode_value OP_BRANCH then dec_branch f3
      else if op = Opcode_value OP_LOAD then dec_load f3
      else if op = Opcode_value OP_STORE then dec_store f3
      else if op = Opcode_value OP_IMM then
        nop_ctrl\<lparr>ct_reg_write := True, ct_wb_src := WB_ALU, ct_alu_src_a := ALU_A_RS1,
          ct_alu_src_b := ALU_B_IMM, ct_alu_op := rtl_alu_op_imm f3 f7\<rparr>
      else if op = Opcode_value OP_REG then
        nop_ctrl\<lparr>ct_reg_write := True, ct_wb_src := WB_ALU, ct_alu_src_a := ALU_A_RS1,
          ct_alu_src_b := ALU_B_RS2, ct_alu_op := rtl_alu_op_reg f3 f7\<rparr>
      else if op = Opcode_value OP_FENCE then nop_ctrl
      else if op = Opcode_value OP_SYSTEM then (if f3 \<noteq> 0 then nop_ctrl\<lparr>ct_illegal := True\<rparr> else nop_ctrl)
      else nop_ctrl\<lparr>ct_illegal := True\<rparr>)"

section \<open>\<open>rtl/reg_file.sv\<close>\<close>

text \<open>\<open>WRITE_FIRST\<close> is 0 in \<open>top\<close>. Entry 0 of the list stands for the missing \<open>xregs[0]\<close>: no port reads or writes it.\<close>

definition rf_read :: "u32w list \<Rightarrow> int \<Rightarrow> u32w" where
  "rf_read xs i = (if i = 0 then 0 else xs ! nat i)"

definition rf_write :: "bool \<Rightarrow> int \<Rightarrow> u32w \<Rightarrow> u32w list \<Rightarrow> u32w list" where
  "rf_write we i v xs = (if we \<and> i \<noteq> 0 then xs[nat i := v] else xs)"

section \<open>\<open>rtl/data_memory.sv\<close>\<close>

definition TOHOST_ADDR :: u32w where "TOHOST_ADDR = 0x80001000"
definition UART_ADDR :: u32w where "UART_ADDR = 0xFFFF0000"
definition DMEM_WORDS :: nat where "DMEM_WORDS = 4096"
definition IMEM_WORDS :: nat where "IMEM_WORDS = 1024"

definition is_mmio :: "u32w \<Rightarrow> bool" where
  "is_mmio addr \<longleftrightarrow> addr = TOHOST_ADDR \<or> addr = UART_ADDR"

text \<open>\<open>IDX_W\<close> is \<open>$clog2(4096) = 12\<close>.\<close>

definition dmem_idx :: "u32w \<Rightarrow> nat" where
  "dmem_idx addr = nat (sv_field 13 2 addr)"

definition dmem_misaligned :: "control \<Rightarrow> u32w \<Rightarrow> bool" where
  "dmem_misaligned ct addr \<longleftrightarrow> (ct_mem_read ct \<or> ct_mem_write ct) \<and> \<not> is_mmio addr \<and>
     (case ct_mem_size ct of
        MEM_H \<Rightarrow> bit addr 0
      | MEM_W \<Rightarrow> sv_field 1 0 addr \<noteq> 0
      | MEM_B \<Rightarrow> False)"

definition sel_byte :: "u32w \<Rightarrow> u32w \<Rightarrow> u32w" where
  "sel_byte addr word =
     (let off = sv_field 1 0 addr in
      if off = 0 then sv_slice 7 0 word
      else if off = 1 then sv_slice 15 8 word
      else if off = 2 then sv_slice 23 16 word
      else sv_slice 31 24 word)"

definition sel_half :: "u32w \<Rightarrow> u32w \<Rightarrow> u32w" where
  "sel_half addr word = (if bit addr 1 then sv_slice 31 16 word else sv_slice 15 0 word)"

definition dmem_read :: "control \<Rightarrow> u32w \<Rightarrow> u32w \<Rightarrow> u32w" where
  "dmem_read ct addr word =
     (if ct_mem_read ct \<and> \<not> is_mmio addr then
        (case ct_mem_size ct of
           MEM_B \<Rightarrow> (let b = sel_byte addr word in
             if ct_mem_unsigned ct then b else push_bit 8 (sv_rep 24 (bit b 7)) OR b)
         | MEM_H \<Rightarrow> (let h = sel_half addr word in
             if ct_mem_unsigned ct then h else push_bit 16 (sv_rep 16 (bit h 15)) OR h)
         | MEM_W \<Rightarrow> word)
      else 0)"

definition next_word :: "control \<Rightarrow> u32w \<Rightarrow> u32w \<Rightarrow> u32w \<Rightarrow> u32w" where
  "next_word ct addr write_data word =
     (case ct_mem_size ct of
        MEM_B \<Rightarrow>
          (let off = sv_field 1 0 addr in
           if off = 0 then sv_set 7 0 write_data word
           else if off = 1 then sv_set 15 8 write_data word
           else if off = 2 then sv_set 23 16 write_data word
           else sv_set 31 24 write_data word)
      | MEM_H \<Rightarrow> (if bit addr 1 then sv_set 31 16 write_data word else sv_set 15 0 write_data word)
      | MEM_W \<Rightarrow> write_data)"

section \<open>\<open>rtl/top.sv\<close>\<close>

record core =
  k_pc :: u32w
  xregs :: "u32w list"
  imem :: "u32w list"
  dmem :: "u32w list"
  halted_q :: bool

definition k_inst :: "core \<Rightarrow> u32w" where
  "k_inst k = imem k ! nat (sv_field 11 2 (k_pc k))"

definition k_ctrl :: "core \<Rightarrow> control" where
  "k_ctrl k = decode (k_inst k)"

definition k_imm :: "core \<Rightarrow> u32w" where
  "k_imm k = rtl_imm (sv_field 6 0 (k_inst k)) (k_inst k)"

definition k_rs1 :: "core \<Rightarrow> u32w" where
  "k_rs1 k = rf_read (xregs k) (sv_field 19 15 (k_inst k))"

definition k_rs2 :: "core \<Rightarrow> u32w" where
  "k_rs2 k = rf_read (xregs k) (sv_field 24 20 (k_inst k))"

definition alu_y :: "core \<Rightarrow> u32w" where
  "alu_y k =
     (let ct = k_ctrl k;
          alu_a = (if ct_alu_src_a ct = ALU_A_PC then k_pc k else k_rs1 k);
          alu_b = (if ct_alu_src_b ct = ALU_B_IMM then k_imm k else k_rs2 k)
      in rtl_alu (ct_alu_op ct) alu_a alu_b)"

definition k_taken :: "core \<Rightarrow> bool" where
  "k_taken k = rtl_taken (ct_branch_op (k_ctrl k)) (k_rs1 k) (k_rs2 k)"

definition k_word :: "core \<Rightarrow> u32w" where
  "k_word k = dmem k ! dmem_idx (alu_y k)"

definition wb_data :: "core \<Rightarrow> u32w" where
  "wb_data k =
     (case ct_wb_src (k_ctrl k) of
        WB_ALU \<Rightarrow> alu_y k
      | WB_MEM \<Rightarrow> dmem_read (k_ctrl k) (alu_y k) (k_word k)
      | WB_PC4 \<Rightarrow> k_pc k + 4)"

definition next_pc_mux :: "core \<Rightarrow> u32w" where
  "next_pc_mux k =
     (if k_taken k then (if ct_jalr (k_ctrl k) then alu_y k AND NOT 1 else alu_y k) else k_pc k + 4)"

text \<open>\<open>mem_write\<close> as \<open>data_memory\<close> sees it, gated by \<open>halted_q\<close>.\<close>

definition dmem_ctrl :: "core \<Rightarrow> control" where
  "dmem_ctrl k = (k_ctrl k)\<lparr>ct_mem_write := ct_mem_write (k_ctrl k) \<and> \<not> halted_q k\<rparr>"

definition tohost_we :: "core \<Rightarrow> bool" where
  "tohost_we k \<longleftrightarrow> ct_mem_write (dmem_ctrl k) \<and> alu_y k = TOHOST_ADDR"

datatype halt_cause = HALT_NONE | HALT_ECALL | HALT_EBREAK | HALT_ILLEGAL | HALT_MISALIGNED | HALT_TOHOST

definition is_system0 :: "core \<Rightarrow> int \<Rightarrow> bool" where
  "is_system0 k f12 \<longleftrightarrow> sv_field 6 0 (k_inst k) = Opcode_value OP_SYSTEM \<and> sv_field 14 12 (k_inst k) = 0 \<and>
     sv_field 31 20 (k_inst k) = f12"

definition k_cause :: "core \<Rightarrow> halt_cause" where
  "k_cause k =
     (if halted_q k then HALT_NONE
      else if ct_illegal (k_ctrl k) then HALT_ILLEGAL
      else if dmem_misaligned (dmem_ctrl k) (alu_y k) then HALT_MISALIGNED
      else if is_system0 k F12_ECALL then HALT_ECALL
      else if is_system0 k F12_EBREAK then HALT_EBREAK
      else if tohost_we k then HALT_TOHOST
      else HALT_NONE)"

definition halt_now :: "core \<Rightarrow> bool" where
  "halt_now k \<longleftrightarrow> k_cause k \<noteq> HALT_NONE"

definition dmem_next :: "core \<Rightarrow> u32w list" where
  "dmem_next k =
     (if ct_mem_write (dmem_ctrl k) \<and> \<not> is_mmio (alu_y k) \<and> \<not> dmem_misaligned (dmem_ctrl k) (alu_y k)
      then (dmem k)[dmem_idx (alu_y k) := next_word (k_ctrl k) (alu_y k) (k_rs2 k) (k_word k)]
      else dmem k)"

text \<open>The clock edge, with \<open>rst\<close> low, and the reset edge.\<close>

definition core_cycle :: "core \<Rightarrow> core" where
  "core_cycle k =
     k\<lparr>k_pc := (if halted_q k then k_pc k else next_pc_mux k),
       xregs := rf_write (ct_reg_write (k_ctrl k) \<and> \<not> halted_q k) (sv_field 11 7 (k_inst k)) (wb_data k) (xregs k),
       dmem := dmem_next k,
       halted_q := (halted_q k \<or> halt_now k)\<rparr>"

definition core_reset :: "core \<Rightarrow> core" where
  "core_reset k = k\<lparr>k_pc := 0, xregs := replicate 32 0, halted_q := False\<rparr>"

end
