(* ===== verification/Lockstep.thy ===== *)
theory Lockstep
  imports Rtl_Core Emu_Regs Emu_Mem
begin

text \<open>
  The emulator and the single-cycle core in lockstep: a relation between their states that every
  instruction both support keeps, so that a run of the emulator is a run of the core.
\<close>

section \<open>The relation\<close>

text \<open>The byte at an address of a word array.\<close>

definition byte_at :: "u32w list \<Rightarrow> int \<Rightarrow> int" where
  "byte_at ws a = take_bit 8 (drop_bit (8 * nat (a mod 4)) (uint (ws ! nat (a div 4))))"

text \<open>Same registers, PC and data memory; the emulator's memory is as large as the core's.\<close>

definition lockstep :: "cpu \<Rightarrow> core \<Rightarrow> bool" where
  "lockstep c k \<longleftrightarrow>
     regs_ok c \<and> length (xregs k) = 32 \<and> (\<forall>i. reg_ok i \<longrightarrow> r c i = uint (rf_read (xregs k) i)) \<and>
     pc c = uint (k_pc k) \<and> halted c = halted_q k \<and>
     mem_base c = 0 \<and> length (mem c) = 4 * DMEM_WORDS \<and> length (dmem k) = DMEM_WORDS \<and>
     (\<forall>a. 0 \<le> a \<and> a < 4 * int DMEM_WORDS \<longrightarrow> mem c ! nat a = byte_at (dmem k) a) \<and>
     tohost_addr c = uint TOHOST_ADDR \<and> \<not> trap_on_ecall c"

text \<open>The instructions the core does not implement: Zicsr and MRET.\<close>

definition rtl_supports :: "int \<Rightarrow> bool" where
  "rtl_supports inst \<longleftrightarrow>
     (inst_opcode inst = Opcode_value OP_SYSTEM \<longrightarrow> inst_funct3 inst = 0 \<and> inst_funct12 inst \<noteq> F12_MRET)"

section \<open>Fields\<close>

lemma sv_field_bits: "sv_field hi lo w = take_bit (hi - lo + 1) (drop_bit lo (uint w))"
  using u32_uint [of w]
  by (simp add: sv_field_def sv_slice_def unsigned_take_bit_eq unsigned_drop_bit_eq u32_take_bit)

lemma sv_fields:
  "sv_field 6 0 w = inst_opcode (uint w)" "sv_field 14 12 w = inst_funct3 (uint w)"
  "sv_field 31 25 w = inst_funct7 (uint w)" "sv_field 19 15 w = inst_rs1 (uint w)"
  "sv_field 24 20 w = inst_rs2 (uint w)" "sv_field 11 7 w = inst_rd (uint w)"
  "sv_field 31 20 w = inst_funct12 (uint w)"
  by (simp_all add: sv_field_bits inst_opcode_def inst_funct3_def inst_funct7_def inst_rs1_def inst_rs2_def
      inst_rd_def inst_funct12_def mask_simps)

lemma inst_regs_ok [simp]: "reg_ok (inst_rs1 w)" "reg_ok (inst_rs2 w)" "reg_ok (inst_rd w)"
  using inst_fields_range [of w] by (simp_all add: reg_ok_def)

lemma u32_add_imm: "u32 (uint (a :: u32w) + i) = uint (a + word_of_int i)"
  by (simp add: u32_of_int)

lemma u32_add_4: "u32 (uint (a :: u32w) + 4) = uint (a + 4)"
  using u32_add_imm [of a 4] by simp

section \<open>Instructions that leave memory alone\<close>

lemma lockstep_regs:
  "lockstep c k \<Longrightarrow> reg_ok i \<Longrightarrow> r c i = uint (rf_read (xregs k) i)"
  by (simp add: lockstep_def)

lemma lockstep_operands:
  assumes "lockstep c k" "w = uint (k_inst k)"
  shows "r c (inst_rs1 w) = uint (k_rs1 k)" "r c (inst_rs2 w) = uint (k_rs2 k)"
  using lockstep_regs [OF assms(1)] by (simp_all add: k_rs1_def k_rs2_def sv_fields assms(2))

lemma rf_read_write:
  "length xs = 32 \<Longrightarrow> reg_ok i \<Longrightarrow> reg_ok j \<Longrightarrow>
     rf_read (rf_write we i v xs) j = (if we \<and> j = i \<and> i \<noteq> 0 then v else rf_read xs j)"
  by (auto simp: rf_read_def rf_write_def reg_ok_def nth_list_update nat_eq_iff)

lemma lockstep_write:
  assumes "lockstep c k" "reg_ok rd" "u32 v = uint v'"
  shows "lockstep ((wr rd v c)\<lparr>pc := uint n, steps := s\<rparr>)
    (k\<lparr>k_pc := n, xregs := rf_write True rd v' (xregs k)\<rparr>)"
proof -
  have r: "r (x\<lparr>pc := n', steps := s\<rparr>) i = r x i" "regs_ok (x\<lparr>pc := n', steps := s\<rparr>) = regs_ok x" for x n' i
    by (simp_all add: r_def regs_ok_def)
  have wr: "mem (wr rd v c) = mem c" "mem_base (wr rd v c) = mem_base c" "halted (wr rd v c) = halted c"
      "tohost_addr (wr rd v c) = tohost_addr c" "trap_on_ecall (wr rd v c) = trap_on_ecall c"
    by (simp_all add: wr_def)
  have len: "length (rf_write True rd v' (xregs k)) = length (xregs k)"
    by (simp add: rf_write_def)
  show ?thesis
    using assms
    by (auto simp: lockstep_def r wr len emu_regs.read_write emu_regs.write_ok rf_read_write)
qed

text \<open>A cycle of an instruction that is legal, does not access memory and does not halt.\<close>

definition quiet :: "core \<Rightarrow> bool" where
  "quiet k \<longleftrightarrow> \<not> halted_q k \<and> \<not> ct_illegal (k_ctrl k) \<and> \<not> ct_mem_write (k_ctrl k) \<and>
     \<not> dmem_misaligned (k_ctrl k) (alu_y k) \<and> \<not> is_system0 k F12_ECALL \<and> \<not> is_system0 k F12_EBREAK"

lemma quietI:
  assumes "\<not> halted_q k" "\<not> ct_illegal (k_ctrl k)" "\<not> ct_mem_read (k_ctrl k)" "\<not> ct_mem_write (k_ctrl k)"
    and "\<not> is_system0 k F12_ECALL" "\<not> is_system0 k F12_EBREAK"
  shows "quiet k"
  using assms by (simp add: quiet_def dmem_misaligned_def)

lemma quiet_cycle:
  assumes "quiet k"
  shows "core_cycle k = k\<lparr>k_pc := next_pc_mux k,
    xregs := rf_write (ct_reg_write (k_ctrl k)) (inst_rd (uint (k_inst k))) (wb_data k) (xregs k)\<rparr>"
proof -
  have "dmem_ctrl k = k_ctrl k"
    using assms by (simp add: quiet_def dmem_ctrl_def)
  with assms show ?thesis
    by (simp add: quiet_def core_cycle_def halt_now_def k_cause_def dmem_next_def tohost_we_def sv_fields)
qed

text \<open>Such an instruction with a register write, and one without.\<close>

lemma quiet_write:
  assumes "lockstep c k" "quiet k" "ct_reg_write (k_ctrl k)"
    and "u32 v = uint (wb_data k)" "n = uint (next_pc_mux k)"
  shows "lockstep ((wr (inst_rd (uint (k_inst k))) v c)\<lparr>pc := n, steps := s\<rparr>) (core_cycle k)"
  using lockstep_write [OF assms(1) _ assms(4)] quiet_cycle [OF assms(2)] assms(3,5) by simp

lemma quiet_jump:
  assumes "lockstep c k" "quiet k" "\<not> ct_reg_write (k_ctrl k)" "n = uint (next_pc_mux k)"
  shows "lockstep (c\<lparr>pc := n, steps := s\<rparr>) (core_cycle k)"
proof -
  have "lockstep ((wr 0 0 c)\<lparr>pc := n, steps := s\<rparr>) (k\<lparr>k_pc := next_pc_mux k, xregs := rf_write True 0 0 (xregs k)\<rparr>)"
    using lockstep_write [OF assms(1), of 0 0 0] assms(4) by (simp add: reg_ok_def u32_id)
  then show ?thesis
    using quiet_cycle [OF assms(2)] assms(3) by (simp add: wr_def rf_write_def)
qed

section \<open>The opcodes\<close>

text \<open>An instruction fetched by both sides, and the states after it.\<close>

definition in_step :: "Opcode \<Rightarrow> cpu \<Rightarrow> core \<Rightarrow> int \<Rightarrow> cpu \<Rightarrow> bool" where
  "in_step op c k n c1 \<longleftrightarrow> lockstep c k \<and> \<not> halted c \<and> inst_opcode (uint (k_inst k)) = Opcode_value op \<and>
     (\<exists>mw. exec_opcode (pc c) (uint (k_inst k)) c = (Inr (n, mw), c1))"

lemmas core_signals =
  k_ctrl_def decode_def sv_fields nop_ctrl_def alu_y_def k_imm_def rtl_imm_def k_taken_def wb_data_def
  next_pc_mux_def Let_def

lemma in_step_facts:
  assumes "in_step op c k n c1"
  shows "lockstep c k" "\<not> halted c" "inst_opcode (uint (k_inst k)) = Opcode_value op" "pc c = uint (k_pc k)"
    "\<not> halted_q k"
  using assms by (auto simp: in_step_def lockstep_def)

lemma in_step_exec: "in_step op c k n c1 \<Longrightarrow> \<exists>mw. exec_opcode (pc c) (uint (k_inst k)) c = (Inr (n, mw), c1)"
  by (simp add: in_step_def)

text \<open>The opcodes that write a register, by their result and next PC.\<close>

lemma step_lui:
  assumes "in_step OP_LUI c k n c1"
  shows "lockstep (c1\<lparr>pc := n, steps := s\<rparr>) (core_cycle k)"
proof -
  let ?w = "uint (k_inst k)"
  note f = in_step_facts [OF assms]
  have ex: "n = u32 (pc c + 4)" "c1 = wr (inst_rd ?w) (imm_u ?w) c"
    using in_step_exec [OF assms] f(3) by (auto simp: exec_opcode_def no_store_def exec_lui_def sx_simps)
  have q: "quiet k"
    using f(5) by (intro quietI) (simp_all add: core_signals f(3) is_system0_def)
  show ?thesis unfolding ex
    by (rule quiet_write [OF f(1) q]) (simp_all add: core_signals f(3,4) u32_of_int rtl_imm_u_lemma)
qed

lemma step_auipc:
  assumes "in_step OP_AUIPC c k n c1"
  shows "lockstep (c1\<lparr>pc := n, steps := s\<rparr>) (core_cycle k)"
proof -
  let ?w = "uint (k_inst k)"
  note f = in_step_facts [OF assms]
  have ex: "n = u32 (pc c + 4)" "c1 = wr (inst_rd ?w) (u32 (pc c + imm_u ?w)) c"
    using in_step_exec [OF assms] f(3) by (auto simp: exec_opcode_def no_store_def exec_auipc_def sx_simps)
  have q: "quiet k"
    using f(5) by (intro quietI) (simp_all add: core_signals f(3) is_system0_def)
  show ?thesis unfolding ex
    by (rule quiet_write [OF f(1) q]) (simp_all add: core_signals f(3,4) u32_of_int rtl_imm_u_lemma)
qed

lemma step_jal:
  assumes "in_step OP_JAL c k n c1"
  shows "lockstep (c1\<lparr>pc := n, steps := s\<rparr>) (core_cycle k)"
proof -
  let ?w = "uint (k_inst k)"
  note f = in_step_facts [OF assms]
  have ex: "n = u32 (pc c + imm_j ?w)" "c1 = wr (inst_rd ?w) (u32 (pc c + 4)) c"
    using in_step_exec [OF assms] f(3)
    by (auto simp: exec_opcode_def no_store_def exec_jal_def Let_def sx_simps split: if_splits)
  have q: "quiet k"
    using f(5) by (intro quietI) (simp_all add: core_signals f(3) is_system0_def)
  show ?thesis unfolding ex
    by (rule quiet_write [OF f(1) q]) (simp_all add: core_signals f(3,4) u32_of_int rtl_imm_j_lemma)
qed

lemma step_jalr:
  assumes "in_step OP_JALR c k n c1"
  shows "lockstep (c1\<lparr>pc := n, steps := s\<rparr>) (core_cycle k)"
proof -
  let ?w = "uint (k_inst k)"
  note f = in_step_facts [OF assms]
  have ex: "n = u32 ((r c (inst_rs1 ?w) + imm_i ?w) AND NOT 1)" "c1 = wr (inst_rd ?w) (u32 (pc c + 4)) c"
    using in_step_exec [OF assms] f(3)
    by (auto simp: exec_opcode_def no_store_def exec_jalr_def Let_def sx_simps split: if_splits)
  have q: "quiet k"
    using f(5) by (intro quietI) (simp_all add: core_signals f(3) is_system0_def)
  have "u32 ((uint (k_rs1 k) + imm_i ?w) AND NOT 1) = uint ((k_rs1 k + word_of_int (imm_i ?w)) AND NOT 1)"
  proof -
    have "u32 ((uint (k_rs1 k) + imm_i ?w) AND NOT 1) =
        uint (word_of_int ((uint (k_rs1 k) + imm_i ?w) AND NOT 1) :: u32w)"
      by (rule u32_of_int)
    also have "(word_of_int ((uint (k_rs1 k) + imm_i ?w) AND NOT 1) :: u32w) = (k_rs1 k + word_of_int (imm_i ?w)) AND NOT 1"
      by (simp add: of_int_and_eq)
    finally show ?thesis .
  qed
  then show ?thesis unfolding ex
    by (intro quiet_write [OF f(1) q])
      (simp_all add: core_signals f(3,4) u32_of_int rtl_imm_i_lemma lockstep_operands [OF f(1) refl])
qed

lemma step_branch:
  assumes "in_step OP_BRANCH c k n c1"
  shows "lockstep (c1\<lparr>pc := n, steps := s\<rparr>) (core_cycle k)"
proof -
  let ?w = "uint (k_inst k)"
  note f = in_step_facts [OF assms]
  obtain bop where bop: "rtl_branch_op (inst_funct3 ?w) = Some bop" "c1 = c"
    and n: "n = u32 (pc c + (if rtl_taken bop (k_rs1 k) (k_rs2 k) then imm_b ?w else 4))"
    using in_step_exec [OF assms] f(3)
    by (auto simp: exec_opcode_def no_store_def exec_branch_def Let_def sx_simps lockstep_operands [OF f(1) refl]
        branch_taken_rtl_lemma split: if_splits option.splits)
  have q: "quiet k"
    using f(5) by (intro quietI) (simp_all add: core_signals dec_branch_def bop f(3) is_system0_def)
  show ?thesis unfolding bop(2) n
    by (rule quiet_jump [OF f(1) q])
      (simp_all add: core_signals dec_branch_def bop(1) f(3,4) u32_of_int rtl_imm_b_lemma)
qed

text \<open>The emulator computes on defined encodings only; there the decoder selects the same operation.\<close>

lemma alu_imm_legal: "alu_imm (inst_funct3 w) a imm w p = Inr v \<Longrightarrow> legal_imm (inst_funct3 w) (inst_funct7 w)"
  using inst_fields_range [of w]
  by (auto simp: alu_imm_def legal_imm_def inst_funct7_def Let_def split: if_splits)

lemma alu_reg_legal: "alu_reg (inst_funct3 w) f7 a b p = Inr v \<Longrightarrow> legal_reg (inst_funct3 w) f7"
  using inst_fields_range [of w]
  by (auto simp: alu_reg_def legal_reg_def Let_def split: if_splits)

lemma sint_imm_i: "sint (word_of_int (imm_i w) :: u32w) = imm_i w"
  using imm_i_range [of w] by (simp add: sint_sbintrunc' signed_take_bit_id)

lemma step_imm:
  assumes "in_step OP_IMM c k n c1"
  shows "lockstep (c1\<lparr>pc := n, steps := s\<rparr>) (core_cycle k)"
proof -
  let ?w = "uint (k_inst k)"
  note f = in_step_facts [OF assms]
  obtain v where v: "alu_imm (inst_funct3 ?w) (uint (k_rs1 k)) (imm_i ?w) ?w (pc c) = Inr v"
    and ex: "n = u32 (pc c + 4)" "c1 = wr (inst_rd ?w) v c"
    using in_step_exec [OF assms] f(3)
    by (auto simp: exec_opcode_def no_store_def exec_imm_def sx_simps lockstep_operands [OF f(1) refl]
        split: sum.splits)
  have val: "v = uint (rtl_alu (rtl_alu_op_imm (inst_funct3 ?w) (inst_funct7 ?w)) (k_rs1 k) (word_of_int (imm_i ?w)))"
    using v alu_imm_rtl_lemma [OF alu_imm_legal [OF v], of "k_rs1 k" "word_of_int (imm_i ?w)" "pc c"]
    by (simp add: sint_imm_i)
  have q: "quiet k"
    using f(5) by (intro quietI) (simp_all add: core_signals f(3) is_system0_def)
  show ?thesis unfolding ex
    by (rule quiet_write [OF f(1) q])
      (simp_all add: core_signals f(3,4) u32_of_int rtl_imm_i_lemma val)
qed

lemma step_reg:
  assumes "in_step OP_REG c k n c1"
  shows "lockstep (c1\<lparr>pc := n, steps := s\<rparr>) (core_cycle k)"
proof -
  let ?w = "uint (k_inst k)"
  note f = in_step_facts [OF assms]
  obtain v where v: "alu_reg (inst_funct3 ?w) (inst_funct7 ?w) (uint (k_rs1 k)) (uint (k_rs2 k)) (pc c) = Inr v"
    and ex: "n = u32 (pc c + 4)" "c1 = wr (inst_rd ?w) v c"
    using in_step_exec [OF assms] f(3)
    by (auto simp: exec_opcode_def no_store_def exec_reg_def sx_simps lockstep_operands [OF f(1) refl]
        split: sum.splits)
  have val: "v = uint (rtl_alu (rtl_alu_op_reg (inst_funct3 ?w) (inst_funct7 ?w)) (k_rs1 k) (k_rs2 k))"
    using v alu_reg_rtl_lemma [OF alu_reg_legal [OF v], of "k_rs1 k" "k_rs2 k" "pc c"] by simp
  have q: "quiet k"
    using f(5) by (intro quietI) (simp_all add: core_signals f(3) is_system0_def)
  show ?thesis unfolding ex
    by (rule quiet_write [OF f(1) q]) (simp_all add: core_signals f(3,4) u32_of_int val)
qed

lemma step_fence:
  assumes "in_step OP_FENCE c k n c1"
  shows "lockstep (c1\<lparr>pc := n, steps := s\<rparr>) (core_cycle k)"
proof -
  note f = in_step_facts [OF assms]
  have ex: "n = u32 (pc c + 4)" "c1 = c"
    using in_step_exec [OF assms] f(3) by (auto simp: exec_opcode_def no_store_def sx_simps)
  have q: "quiet k"
    using f(5) by (intro quietI) (simp_all add: core_signals f(3) is_system0_def)
  show ?thesis unfolding ex
    by (rule quiet_jump [OF f(1) q]) (simp_all add: core_signals f(3,4) u32_of_int)
qed

section \<open>SYSTEM\<close>

lemma lockstep_halt:
  assumes "lockstep c k"
  shows "lockstep (c\<lparr>tohost_value := y, halted := True, halt_reason := x, pc := uint n, steps := s\<rparr>)
    (k\<lparr>k_pc := n, halted_q := True\<rparr>)"
proof -
  let ?c = "c\<lparr>tohost_value := y, halted := True, halt_reason := x, pc := uint n, steps := s\<rparr>"
  have "r ?c i = r c i" "regs_ok ?c = regs_ok c" for i
    by (simp_all add: r_def regs_ok_def)
  with assms show ?thesis by (simp add: lockstep_def)
qed

lemma step_system:
  assumes "in_step OP_SYSTEM c k n c1" "rtl_supports (uint (k_inst k))"
  shows "lockstep (c1\<lparr>pc := n, steps := s\<rparr>) (core_cycle k) \<and>
    (halted c1 \<longrightarrow> halt_reason c1 = Some ''ecall'' \<and> k_cause k = HALT_ECALL \<or>
       halt_reason c1 = Some ''ebreak'' \<and> k_cause k = HALT_EBREAK)"
proof -
  let ?w = "uint (k_inst k)"
  note f = in_step_facts [OF assms(1)]
  have sup: "inst_funct3 ?w = 0" "inst_funct12 ?w \<noteq> F12_MRET"
    using assms(2) f(3) by (simp_all add: rtl_supports_def)
  have nt: "\<not> trap_on_ecall c"
    using f(1) by (simp add: lockstep_def)
  have ct: "k_ctrl k = nop_ctrl"
    by (simp add: k_ctrl_def decode_def sv_fields f(3) sup Let_def)
  have pc4: "u32 (pc c + 4) = uint (next_pc_mux k)"
    by (simp add: next_pc_mux_def k_taken_def ct nop_ctrl_def f(4) u32_add_4)
  have n: "n = u32 (pc c + 4)"
    and c1: "inst_funct12 ?w = F12_ECALL \<and> c1 = c\<lparr>halted := True, halt_reason := Some ''ecall''\<rparr> \<or>
      inst_funct12 ?w = F12_EBREAK \<and> c1 = c\<lparr>halted := True, halt_reason := Some ''ebreak''\<rparr> \<or>
      inst_funct12 ?w = F12_WFI \<and> c1 = c"
    using in_step_exec [OF assms(1)] f(3) sup nt
    by (auto simp: exec_opcode_def no_store_def exec_system_def exec_system0_def exec_env_call_def Let_def sx_simps
        split: if_splits)
  have halt: "core_cycle k = k\<lparr>k_pc := next_pc_mux k, halted_q := True\<rparr>" if "k_cause k \<noteq> HALT_NONE"
    using that f(5) by (simp add: core_cycle_def dmem_next_def dmem_ctrl_def ct nop_ctrl_def rf_write_def halt_now_def)
  have cause: "k_cause k = (if inst_funct12 ?w = F12_ECALL then HALT_ECALL
      else if inst_funct12 ?w = F12_EBREAK then HALT_EBREAK else HALT_NONE)"
    using f(5) by (simp add: k_cause_def dmem_ctrl_def tohost_we_def ct nop_ctrl_def is_system0_def sv_fields f(3) sup
        dmem_misaligned_def)
  show ?thesis
    using c1
  proof (elim disjE conjE)
    assume "inst_funct12 ?w = F12_WFI" "c1 = c"
    moreover have "F12_WFI \<noteq> F12_ECALL" "F12_WFI \<noteq> F12_EBREAK"
      by (simp_all add: F12_WFI_def F12_ECALL_def F12_EBREAK_def)
    ultimately have "quiet k"
      using f(5) by (intro quietI) (simp_all add: ct nop_ctrl_def is_system0_def sv_fields)
    then show ?thesis
      using quiet_jump [OF f(1), of n s] f(2) \<open>c1 = c\<close> n pc4 by (simp add: ct nop_ctrl_def)
  next
    assume "inst_funct12 ?w = F12_ECALL" "c1 = c\<lparr>halted := True, halt_reason := Some ''ecall''\<rparr>"
    with cause halt n pc4 lockstep_halt [OF f(1), where x = "Some ''ecall''" and y = "tohost_value c" and n = "next_pc_mux k" and s = s] show ?thesis
      by simp
  next
    assume "inst_funct12 ?w = F12_EBREAK" "c1 = c\<lparr>halted := True, halt_reason := Some ''ebreak''\<rparr>"
    moreover have "F12_EBREAK \<noteq> F12_ECALL"
      by (simp add: F12_ECALL_def F12_EBREAK_def)
    ultimately show ?thesis
      using cause halt n pc4 lockstep_halt [OF f(1), where x = "Some ''ebreak''" and y = "tohost_value c" and n = "next_pc_mux k" and s = s] by simp
  qed
qed

end
