(* ===== verification/Lockstep_Mem.thy ===== *)
theory Lockstep_Mem
  imports Lockstep
begin

text \<open>
  Lockstep, continued: the bytes of the emulator's memory and the word array of the core's data
  memory, and the steps of loads and stores.
\<close>

section \<open>Bytes of the data memory\<close>

text \<open>An access inside the data memory: neither MMIO address is.\<close>

definition in_dmem :: "u32w \<Rightarrow> bool" where
  "in_dmem y \<longleftrightarrow> uint y < 4 * int DMEM_WORDS"

lemma in_dmem_facts:
  assumes "in_dmem y"
  shows "\<not> is_mmio y" "dmem_idx y = nat (uint y div 4)" "nat (uint y div 4) < DMEM_WORDS"
proof -
  have lt: "uint y < 16384"
    using assms by (simp add: in_dmem_def DMEM_WORDS_def)
  then show "\<not> is_mmio y"
    by (auto simp: is_mmio_def TOHOST_ADDR_def UART_ADDR_def)
  have "take_bit 12 (uint y div 4) = uint y div 4"
    by (rule take_bit_int_eq_self) (use lt in \<open>auto simp: pos_imp_zdiv_nonneg_iff\<close>)
  then show "dmem_idx y = nat (uint y div 4)"
    by (simp add: dmem_idx_def sv_field_bits drop_bit_eq_div)
  show "nat (uint y div 4) < DMEM_WORDS"
    using lt by (simp add: DMEM_WORDS_def nat_less_iff)
qed

lemma sv_offset: "sv_field (Suc 0) 0 y = uint y mod 4"
  by (simp add: sv_field_bits take_bit_eq_mod)

lemma bit_offset: "bit y 0 \<longleftrightarrow> odd (uint y)" "bit y (Suc 0) \<longleftrightarrow> uint y mod 4 \<in> {2, 3}" for y :: u32w
proof -
  show "bit y 0 \<longleftrightarrow> odd (uint y)"
    using bit_uint_iff [of y 0] by (simp add: bit_0)
  have "bit y (Suc 0) \<longleftrightarrow> odd (uint y div 2)"
    using bit_uint_iff [of y "Suc 0"] by (simp add: bit_iff_odd)
  also have "\<dots> \<longleftrightarrow> uint y mod 4 \<in> {2, 3}"
    by auto presburger+
  finally show "bit y (Suc 0) \<longleftrightarrow> uint y mod 4 \<in> {2, 3}" .
qed

lemma lockstep_byte:
  "lockstep c k \<Longrightarrow> 0 \<le> a \<Longrightarrow> a < 4 * int DMEM_WORDS \<Longrightarrow> mem_get (mem c) a = byte_at (dmem k) a"
  by (simp add: lockstep_def mem_get_def)

lemma within_word: "0 \<le> (i :: int) \<Longrightarrow> a mod 4 + i < 4 \<Longrightarrow> (a + i) mod 4 = a mod 4 + i \<and> (a + i) div 4 = a div 4"
  by presburger

text \<open>The bytes of an access that stays within a word.\<close>

lemma lockstep_read:
  assumes "lockstep c k" "0 \<le> a" "a + int n \<le> 4 * int DMEM_WORDS" "a mod 4 + int n \<le> 4"
  shows "le_read mem_get n a (mem c) = take_bit (8 * n) (drop_bit (8 * nat (a mod 4)) (uint (dmem k ! nat (a div 4))))"
proof (rule emu_mem.le_read_bytes)
  fix i assume i: "i < n"
  have "(a + int i) mod 4 = a mod 4 + int i" "(a + int i) div 4 = a div 4"
    using within_word [of "int i" a] assms(4) i by simp_all
  moreover have "nat (a mod 4 + int i) = nat (a mod 4) + i"
    by (simp add: nat_add_distrib)
  ultimately show "mem_get (mem c) (a + int i) =
      take_bit 8 (drop_bit (8 * i) (drop_bit (8 * nat (a mod 4)) (uint (dmem k ! nat (a div 4)))))"
    using lockstep_byte [OF assms(1), of "a + int i"] assms(2,3) i
    by (simp add: byte_at_def algebra_simps)
qed

section \<open>Loads\<close>

lemma load_access:
  "load c a (int n) g = Inr v \<Longrightarrow> n = 1 \<or> n = 2 \<or> n = 4 \<Longrightarrow> access_ok c a n"
  using width_mask [of n a]
  by (auto simp: load_def access_ok_def mem_index_Inr bindE_Inr_iff split: if_splits)

lemma uint_slice: "uint (sv_slice hi lo w) = take_bit (hi - lo + 1) (drop_bit lo (uint w))"
  using sv_field_bits [of hi lo w] by (simp add: sv_field_def)

lemma sel_byte_bits: "uint (sel_byte y w) = take_bit 8 (drop_bit (8 * nat (uint y mod 4)) (uint w))"
proof -
  have "uint y mod 4 \<in> {0, 1, 2, 3}" by auto
  then show ?thesis
    by (elim insertE emptyE) (simp_all add: sel_byte_def sv_offset uint_slice Let_def)
qed

lemma sel_half_bits:
  "even (uint y) \<Longrightarrow> uint (sel_half y w) = take_bit 16 (drop_bit (8 * nat (uint y mod 4)) (uint w))"
proof -
  assume "even (uint y)"
  then have "uint y mod 4 \<in> {0, 2}" by auto presburger
  then show ?thesis
    by (elim insertE emptyE) (simp_all add: sel_half_def bit_offset uint_slice)
qed

text \<open>The replication in front of a byte or a half extends its sign.\<close>

lemma sign_extended:
  assumes "uint b < 2 ^ Suc m" "Suc m + n = 32"
  shows "uint (push_bit (Suc m) (sv_rep n (bit b m)) OR b) = u32 (sext (uint b) (Suc m))"
  unfolding u32_take_bit sext_signed_take_bit
proof (rule bit_eqI)
  fix i
  have "uint b = take_bit (Suc m) (uint b)"
    using assms(1) by (simp add: take_bit_int_eq_self)
  then have high: "\<not> bit b i" if "Suc m \<le> i" "i < 32" for i
    using that bit_uint_iff [of b i] bit_take_bit_iff [of "Suc m" "uint b" i] by auto
  show "bit (uint (push_bit (Suc m) (sv_rep n (bit b m)) OR b)) i = bit (take_bit 32 (signed_take_bit m (uint b))) i"
  proof (cases "i \<le> m")
    case True
    with assms(2) show ?thesis
      by (auto simp: bit_uint_iff bit_or_iff bit_push_bit_iff bit_take_bit_iff bit_signed_take_bit_iff min_def
          simp del: push_bit_Suc)
  next
    case False
    with assms(2) high [of i] show ?thesis
      by (auto simp: bit_uint_iff bit_or_iff bit_push_bit_iff bit_take_bit_iff bit_signed_take_bit_iff
          min_def sv_rep_def bit_mask_iff simp del: push_bit_Suc)
  qed
qed

section \<open>Stores\<close>

lemma bit_sv_set: "lo \<le> hi \<Longrightarrow> n < 32 \<Longrightarrow> bit (sv_set hi lo v w) n \<longleftrightarrow> (if lo \<le> n \<and> n \<le> hi then bit v (n - lo) else bit w n)"
  by (auto simp: sv_set_def word_bits bit_and_iff bit_not_iff)

lemma byte_bits: "bit (take_bit 8 (drop_bit (8 * j) (uint (w :: u32w)))) n \<longleftrightarrow> n < 8 \<and> 8 * j + n < 32 \<and> bit w (8 * j + n)"
  by (auto simp: bit_take_bit_iff bit_drop_bit_eq bit_uint_iff)

lemma sv_set_bytes:
  assumes "j < 4" "0 < n" "p + n \<le> 4"
  shows "take_bit 8 (drop_bit (8 * j) (uint (sv_set (8 * (p + n) - 1) (8 * p) d w))) =
    (if p \<le> j \<and> j < p + n then take_bit 8 (drop_bit (8 * (j - p)) (uint d))
     else take_bit 8 (drop_bit (8 * j) (uint w)))"
proof (rule bit_eqI)
  fix m
  let ?new = "take_bit 8 (drop_bit (8 * j) (uint (sv_set (8 * (p + n) - 1) (8 * p) d w)))"
  have bounds: "8 * p \<le> 8 * (p + n) - 1" using assms by simp
  have new: "bit ?new m \<longleftrightarrow> m < 8 \<and> 8 * j + m < 32 \<and>
      (if 8 * p \<le> 8 * j + m \<and> 8 * j + m \<le> 8 * (p + n) - 1 then bit d (8 * j + m - 8 * p) else bit w (8 * j + m))"
    using bit_sv_set [OF bounds] by (auto simp: byte_bits)
  have range: "8 * p \<le> 8 * j + m \<and> 8 * j + m \<le> 8 * (p + n) - 1 \<longleftrightarrow> p \<le> j \<and> j < p + n" if "m < 8"
    using that assms by auto
  have shift: "8 * j + m - 8 * p = 8 * (j - p) + m" if "p \<le> j"
    using that by simp
  show "bit ?new m \<longleftrightarrow> bit (if p \<le> j \<and> j < p + n then take_bit 8 (drop_bit (8 * (j - p)) (uint d))
     else take_bit 8 (drop_bit (8 * j) (uint w))) m"
    unfolding new using range shift assms by (auto simp: byte_bits)
qed

definition mem_bytes :: "MemSize \<Rightarrow> nat" where
  "mem_bytes sz = (case sz of MEM_B \<Rightarrow> 1 | MEM_H \<Rightarrow> 2 | MEM_W \<Rightarrow> 4)"

lemma next_word_bytes:
  assumes "j < 4" "uint y mod int (mem_bytes (ct_mem_size ct)) = 0"
  shows "take_bit 8 (drop_bit (8 * j) (uint (next_word ct y d w))) =
    (if nat (uint y mod 4) \<le> j \<and> j < nat (uint y mod 4) + mem_bytes (ct_mem_size ct)
     then take_bit 8 (drop_bit (8 * (j - nat (uint y mod 4))) (uint d))
     else take_bit 8 (drop_bit (8 * j) (uint w)))"
proof (cases "ct_mem_size ct")
  case MEM_B
  have "uint y mod 4 \<in> {0, 1, 2, 3}" by auto
  then show ?thesis
    using sv_set_bytes [OF assms(1), of 1 0 d w] sv_set_bytes [OF assms(1), of 1 1 d w]
      sv_set_bytes [OF assms(1), of 1 2 d w] sv_set_bytes [OF assms(1), of 1 3 d w]
    by (elim insertE emptyE) (simp_all add: next_word_def MEM_B sv_offset mem_bytes_def Let_def)
next
  case MEM_H
  with assms(2) have "uint y mod 4 \<in> {0, 2}"
    by (auto simp: mem_bytes_def) presburger
  then show ?thesis
    using sv_set_bytes [OF assms(1), of 2 0 d w] sv_set_bytes [OF assms(1), of 2 2 d w]
    by (elim insertE emptyE) (simp_all add: next_word_def MEM_H bit_offset mem_bytes_def)
next
  case MEM_W
  with assms show ?thesis
    by (simp add: next_word_def mem_bytes_def)
qed

lemma lockstep_access:
  assumes "lockstep c k" "access_ok c (uint y) n"
  shows "in_dmem y" "uint y + int n \<le> 4 * int DMEM_WORDS" "uint y mod 4 + int n \<le> 4" "uint y mod int n = 0"
    "n = 2 \<or> n = 4 \<Longrightarrow> even (uint y)" "n = 4 \<Longrightarrow> uint y mod 4 = 0"
proof -
  have n: "n = 1 \<or> n = 2 \<or> n = 4" "uint y mod int n = 0" "uint y + int n \<le> 4 * int DMEM_WORDS"
    using assms by (auto simp: access_ok_def lockstep_def)
  then show "in_dmem y" "uint y + int n \<le> 4 * int DMEM_WORDS" "uint y mod int n = 0"
    by (auto simp: in_dmem_def)
  show "even (uint y)" if "n = 2 \<or> n = 4"
    using that n(2) by (elim disjE) (simp_all, presburger+)
  show "uint y mod 4 = 0" if "n = 4"
    using that n(2) by simp
  show "uint y mod 4 + int n \<le> 4"
    using n(1,2) by (elim disjE) (simp_all, presburger+)
qed

lemma not_misaligned:
  assumes "lockstep c k" "access_ok c (uint y) (mem_bytes (ct_mem_size ct))"
  shows "\<not> dmem_misaligned ct y"
  using lockstep_access [OF assms]
  by (auto simp: dmem_misaligned_def mem_bytes_def sv_offset bit_offset split: MemSize.splits)

text \<open>What the read port returns, by the bytes of the emulator.\<close>

lemma dmem_read_value:
  assumes "lockstep c k" "access_ok c (uint y) n" "ct_mem_read ct" "mem_bytes (ct_mem_size ct) = n"
  shows "uint (dmem_read ct y (dmem k ! dmem_idx y)) =
    (if ct_mem_unsigned ct \<or> n = 4 then le_read mem_get n (uint y) (mem c)
     else u32 (sext (le_read mem_get n (uint y) (mem c)) (8 * n)))"
proof -
  note acc = lockstep_access [OF assms(1,2)]
  let ?w = "dmem k ! nat (uint y div 4)"
  have w: "dmem k ! dmem_idx y = ?w" "\<not> is_mmio y"
    using in_dmem_facts [OF acc(1)] by simp_all
  have rd: "le_read mem_get n (uint y) (mem c) = take_bit (8 * n) (drop_bit (8 * nat (uint y mod 4)) (uint ?w))"
    using lockstep_read [OF assms(1) _ acc(2,3)] by simp
  show ?thesis
  proof (cases "ct_mem_size ct")
    case MEM_B
    then have n: "n = 1" using assms(4) by (simp add: mem_bytes_def)
    define b where "b = sel_byte y ?w"
    have b: "le_read mem_get n (uint y) (mem c) = uint b"
      unfolding rd b_def sel_byte_bits by (simp add: n)
    have "uint b < 2 ^ Suc 7"
      using take_bit_int_less_exp [of 8] by (simp add: b_def sel_byte_bits)
    then have "uint (push_bit (Suc 7) (sv_rep 24 (bit b 7)) OR b) = u32 (sext (uint b) (Suc 7))"
      by (rule sign_extended) simp
    moreover have "dmem_read ct y ?w = (if ct_mem_unsigned ct then b else push_bit 8 (sv_rep 24 (bit b 7)) OR b)"
      by (simp add: dmem_read_def assms(3) w(2) MEM_B Let_def b_def)
    ultimately show ?thesis
      using b by (simp add: w(1) n)
  next
    case MEM_H
    then have n: "n = 2" using assms(4) by (simp add: mem_bytes_def)
    define h where "h = sel_half y ?w"
    have half: "uint h = take_bit 16 (drop_bit (8 * nat (uint y mod 4)) (uint ?w))"
      using sel_half_bits [of y ?w] acc(5) n by (simp add: h_def)
    have h: "le_read mem_get n (uint y) (mem c) = uint h"
      unfolding rd half by (simp add: n)
    have "uint h < 2 ^ Suc 15"
      using take_bit_int_less_exp [of 16] by (simp add: half)
    then have "uint (push_bit (Suc 15) (sv_rep 16 (bit h 15)) OR h) = u32 (sext (uint h) (Suc 15))"
      by (rule sign_extended) simp
    moreover have "dmem_read ct y ?w = (if ct_mem_unsigned ct then h else push_bit 16 (sv_rep 16 (bit h 15)) OR h)"
      by (simp add: dmem_read_def assms(3) w(2) MEM_H Let_def h_def)
    ultimately show ?thesis
      using h by (simp add: w(1) n)
  next
    case MEM_W
    then have n: "n = 4" using assms(4) by (simp add: mem_bytes_def)
    moreover have "take_bit 32 (uint ?w) = uint ?w"
      using u32_uint [of ?w] by (simp add: u32_take_bit)
    ultimately show ?thesis
      using w rd assms(3) MEM_W acc(6) by (simp add: dmem_read_def)
  qed
qed

lemma load_result:
  "access_ok c a n \<Longrightarrow> g \<longrightarrow> n \<noteq> 4 \<Longrightarrow> load c a (int n) g =
     Inr (if \<not> g then le_read mem_get n (a - mem_base c) (mem c)
          else u32 (sext (le_read mem_get n (a - mem_base c) (mem c)) (8 * n)))"
  using load_unsigned [of c a n] load_signed [of c a n] by (auto simp: access_ok_def)

lemma dec_load_width:
  assumes "load_width f3 = Some (sz, g)"
  shows "sz = int (mem_bytes (ct_mem_size (dec_load f3)))" "ct_mem_read (dec_load f3)" "ct_reg_write (dec_load f3)"
    "\<not> ct_illegal (dec_load f3)" "\<not> ct_mem_write (dec_load f3)" "ct_wb_src (dec_load f3) = WB_MEM"
    "ct_alu_op (dec_load f3) = ALU_ADD" "ct_alu_src_a (dec_load f3) = ALU_A_RS1" "ct_alu_src_b (dec_load f3) = ALU_B_IMM"
    "ct_branch_op (dec_load f3) = BR_NONE"
    "ct_mem_unsigned (dec_load f3) = (\<not> g \<and> sz \<noteq> 4)" "g \<longrightarrow> sz \<noteq> 4"
  using assms by (auto simp: load_width_def dec_load_def mem_bytes_def nop_ctrl_def Let_def split: if_splits)

lemma step_load:
  assumes "in_step OP_LOAD c k n c1"
  shows "lockstep (c1\<lparr>pc := n, steps := s\<rparr>) (core_cycle k)"
proof -
  let ?w = "uint (k_inst k)"
  note f = in_step_facts [OF assms]
  obtain sz g v where wd: "load_width (inst_funct3 ?w) = Some (sz, g)"
    and ld: "load c (u32 (r c (inst_rs1 ?w) + imm_i ?w)) sz g = Inr v"
    and ex: "n = u32 (pc c + 4)" "c1 = wr (inst_rd ?w) v c"
    using in_step_exec [OF assms] f(3)
    by (auto simp: exec_opcode_def no_store_def exec_load_def sx_simps split: option.splits sum.splits)
  have ct: "k_ctrl k = dec_load (inst_funct3 ?w)"
    by (simp add: k_ctrl_def decode_def sv_fields f(3) Let_def)
  note dec = dec_load_width [OF wd, folded ct]
  let ?n = "mem_bytes (ct_mem_size (k_ctrl k))"
  have y: "alu_y k = k_rs1 k + word_of_int (imm_i ?w)"
    by (simp add: alu_y_def dec k_imm_def rtl_imm_def sv_fields f(3) rtl_imm_i_lemma Let_def)
  have addr: "u32 (r c (inst_rs1 ?w) + imm_i ?w) = uint (alu_y k)"
    by (simp add: lockstep_operands [OF f(1) refl] u32_add_imm y)
  have n: "?n = 1 \<or> ?n = 2 \<or> ?n = 4"
    by (simp add: mem_bytes_def split: MemSize.splits)
  have acc: "access_ok c (uint (alu_y k)) ?n"
    using load_access [OF ld [unfolded addr dec(1)] n] .
  have base: "mem_base c = 0"
    using f(1) by (simp add: lockstep_def)
  have val: "v = uint (wb_data k)"
    using ld load_result [OF acc, of g] dec(1,11,12) base dmem_read_value [OF f(1) acc dec(2) refl]
    by (simp add: addr wb_data_def dec(6) k_word_def)
  have q: "quiet k"
    using f(5) dec not_misaligned [OF f(1) acc] by (simp add: quiet_def is_system0_def sv_fields f(3))
  show ?thesis unfolding ex
    by (rule quiet_write [OF f(1) q])
      (simp_all add: dec val next_pc_mux_def k_taken_def f(4) u32_add_4 u32_uint)
qed

section \<open>The step of a store\<close>

lemma length_le_write [simp]: "length (le_write mem_put n a v m) = length m"
  by (induction n arbitrary: a v m) (simp_all add: mem_put_def)

lemma byte_at_update:
  assumes "i < length ws" "0 \<le> a"
  shows "byte_at (ws[i := x]) a = (if a div 4 = int i then take_bit 8 (drop_bit (8 * nat (a mod 4)) (uint x)) else byte_at ws a)"
  using assms by (auto simp: byte_at_def nth_list_update nat_eq_iff pos_imp_zdiv_nonneg_iff)

lemma stored_bytes:
  assumes "lockstep c k" "access_ok c (uint y) (mem_bytes (ct_mem_size ct))" "0 \<le> a" "a < 4 * int DMEM_WORDS"
  shows "mem_get (le_write mem_put (mem_bytes (ct_mem_size ct)) (uint y) (uint d) (mem c)) a =
    byte_at ((dmem k)[dmem_idx y := next_word ct y d (dmem k ! dmem_idx y)]) a"
proof -
  let ?n = "mem_bytes (ct_mem_size ct)" and ?j = "nat (a mod 4)" and ?off = "nat (uint y mod 4)"
  note acc = lockstep_access [OF assms(1,2)] and idx = in_dmem_facts [OF acc(1)]
  have inside: "emu_mem.inside_n (mem c) (uint y) ?n"
    using acc(2) assms(1) by (simp add: emu_inside_n lockstep_def)
  have lt: "dmem_idx y < length (dmem k)"
    using idx assms(1) by (simp add: lockstep_def)
  have div: "int (dmem_idx y) = uint y div 4"
    using idx(2) by (simp add: pos_imp_zdiv_nonneg_iff)
  have word: "byte_at ((dmem k)[dmem_idx y := next_word ct y d (dmem k ! dmem_idx y)]) a =
      (if a div 4 = uint y div 4 then
         (if ?off \<le> ?j \<and> ?j < ?off + ?n then take_bit 8 (drop_bit (8 * (?j - ?off)) (uint d)) else byte_at (dmem k) a)
       else byte_at (dmem k) a)"
  proof (cases "a div 4 = uint y div 4")
    case True
    then have idx_a: "dmem_idx y = nat (a div 4)"
      using idx(2) by simp
    have j: "?j < 4"
      by (simp add: nat_less_iff)
    have "byte_at ((dmem k)[dmem_idx y := next_word ct y d (dmem k ! dmem_idx y)]) a =
        take_bit 8 (drop_bit (8 * ?j) (uint (next_word ct y d (dmem k ! dmem_idx y))))"
      using byte_at_update [OF lt assms(3)] True div by simp
    then show ?thesis
      unfolding next_word_bytes [OF j acc(4)] using True by (simp add: byte_at_def idx_a)
  next
    case False
    then show ?thesis
      using byte_at_update [OF lt assms(3)] div by simp
  qed
  show ?thesis
  proof (cases "uint y \<le> a \<and> a < uint y + int ?n")
    case True
    then have same: "a div 4 = uint y div 4" "a mod 4 = uint y mod 4 + (a - uint y)"
      using within_word [of "a - uint y" "uint y"] acc(3) by auto
    moreover have "mem_get (le_write mem_put ?n (uint y) (uint d) (mem c)) (uint y + int (nat (a - uint y))) =
        take_bit 8 (drop_bit (8 * nat (a - uint y)) (uint d))"
      by (rule emu_mem.get_le_write_same [OF inside]) (use True in auto)
    moreover have "?j = ?off + nat (a - uint y)"
      using same(2) True by (simp add: nat_add_distrib)
    moreover have "nat (a - uint y) < ?n"
      using True by (simp add: nat_less_iff)
    ultimately show ?thesis
      using True word by simp
  next
    case False
    have same: "mem_get (le_write mem_put ?n (uint y) (uint d) (mem c)) a = byte_at (dmem k) a"
      using emu_mem.get_le_write_other [OF inside] False lockstep_byte [OF assms(1,3,4)] by force
    have none: "\<not> (?off \<le> ?j \<and> ?j < ?off + ?n)" if "a div 4 = uint y div 4"
    proof
      assume "?off \<le> ?j \<and> ?j < ?off + ?n"
      then have "uint y mod 4 \<le> a mod 4" "a mod 4 < uint y mod 4 + int ?n"
        by (simp_all add: nat_le_iff nat_less_iff)
      moreover have "a - uint y = a mod 4 - uint y mod 4"
        using that by presburger
      ultimately show False
        using False by simp
    qed
    show ?thesis
    proof (cases "a div 4 = uint y div 4")
      case True
      show ?thesis
        unfolding word if_P [OF True] if_not_P [OF none [OF True]] by (rule same)
    next
      case False
      show ?thesis
        unfolding word if_not_P [OF False] by (rule same)
    qed
  qed
qed

lemma lockstep_store:
  assumes "lockstep c k" "access_ok c (uint y) (mem_bytes (ct_mem_size ct))"
  shows "lockstep (c\<lparr>mem := le_write mem_put (mem_bytes (ct_mem_size ct)) (uint y) (uint d) (mem c), pc := uint n, steps := s\<rparr>)
    (k\<lparr>k_pc := n, dmem := (dmem k)[dmem_idx y := next_word ct y d (dmem k ! dmem_idx y)]\<rparr>)"
proof -
  let ?c = "c\<lparr>mem := le_write mem_put (mem_bytes (ct_mem_size ct)) (uint y) (uint d) (mem c), pc := uint n, steps := s\<rparr>"
  have same: "r ?c i = r c i" "regs_ok ?c = regs_ok c" for i
    by (simp_all add: r_def regs_ok_def)
  have "mem ?c ! nat a = byte_at ((dmem k)[dmem_idx y := next_word ct y d (dmem k ! dmem_idx y)]) a"
    if "0 \<le> a" "a < 4 * int DMEM_WORDS" for a
    using stored_bytes [OF assms that, of d] that by (simp add: mem_get_def)
  with assms(1) same show ?thesis by (simp add: lockstep_def)
qed

lemma dec_store_width:
  assumes "store_width f3 = Some sz"
  shows "sz = int (mem_bytes (ct_mem_size (dec_store f3)))" "\<not> ct_mem_read (dec_store f3)" "\<not> ct_reg_write (dec_store f3)"
    "\<not> ct_illegal (dec_store f3)" "ct_mem_write (dec_store f3)"
    "ct_alu_op (dec_store f3) = ALU_ADD" "ct_alu_src_a (dec_store f3) = ALU_A_RS1" "ct_alu_src_b (dec_store f3) = ALU_B_IMM"
    "ct_branch_op (dec_store f3) = BR_NONE"
  using assms by (auto simp: store_width_def dec_store_def mem_bytes_def nop_ctrl_def Let_def split: if_splits)

lemma store_access:
  "store a v (int n) c = (Inr (), c1) \<Longrightarrow> n = 1 \<or> n = 2 \<or> n = 4 \<Longrightarrow> a \<noteq> tohost_addr c \<Longrightarrow> access_ok c a n"
  using width_mask [of n a]
  by (auto simp: store_def access_ok_def mem_index_Inr sx_simps split: if_splits sum.splits)

lemma step_store:
  assumes "in_step OP_STORE c k n c1"
  shows "lockstep (c1\<lparr>pc := n, steps := s\<rparr>) (core_cycle k) \<and>
    (halted c1 \<longrightarrow> halt_reason c1 \<in> {Some ''tohost-pass'', Some ''tohost-fail''} \<and> k_cause k = HALT_TOHOST)"
proof -
  let ?w = "uint (k_inst k)"
  note f = in_step_facts [OF assms]
  obtain sz where wd: "store_width (inst_funct3 ?w) = Some sz"
    and st: "store (u32 (r c (inst_rs1 ?w) + imm_s ?w)) (r c (inst_rs2 ?w)) sz c = (Inr (), c1)"
    and n: "n = u32 (pc c + 4)"
    using in_step_exec [OF assms] f(3)
    by (auto simp: exec_opcode_def exec_store_def sx_simps split: option.splits sum.splits prod.splits)
  have ct: "k_ctrl k = dec_store (inst_funct3 ?w)"
    by (simp add: k_ctrl_def decode_def sv_fields f(3) Let_def)
  note dec = dec_store_width [OF wd, folded ct]
  let ?n = "mem_bytes (ct_mem_size (k_ctrl k))"
  have y: "alu_y k = k_rs1 k + word_of_int (imm_s ?w)"
    by (simp add: alu_y_def dec k_imm_def rtl_imm_def sv_fields f(3) rtl_imm_s_lemma Let_def)
  have st': "store (uint (alu_y k)) (uint (k_rs2 k)) (int ?n) c = (Inr (), c1)"
    using st by (simp add: lockstep_operands [OF f(1) refl] u32_add_imm y dec(1))
  have ctl: "dmem_ctrl k = k_ctrl k"
    using f(5) by (simp add: dmem_ctrl_def)
  have pc4: "u32 (pc c + 4) = uint (next_pc_mux k)"
    by (simp add: next_pc_mux_def k_taken_def dec f(4) u32_add_4)
  have th: "tohost_addr c = uint TOHOST_ADDR"
    using f(1) by (simp add: lockstep_def)
  have nosys: "\<not> is_system0 k F12_ECALL" "\<not> is_system0 k F12_EBREAK"
    by (simp_all add: is_system0_def sv_fields f(3))
  show ?thesis
  proof (cases "alu_y k = TOHOST_ADDR")
    case True
    have "k_cause k = HALT_TOHOST"
      using True f(5) nosys dec by (simp add: k_cause_def ctl dmem_misaligned_def is_mmio_def tohost_we_def)
    moreover from this have "core_cycle k = k\<lparr>k_pc := next_pc_mux k, halted_q := True\<rparr>"
      using True f(5) dec by (simp add: core_cycle_def dmem_next_def is_mmio_def rf_write_def halt_now_def)
    ultimately show ?thesis
      using st' True store_tohost [of c "uint (k_rs2 k)" "int ?n"] lockstep_halt [OF f(1), where n = "next_pc_mux k" and s = s]
      by (auto simp: th n pc4)
  next
    case False
    then have ne: "uint (alu_y k) \<noteq> tohost_addr c"
      by (simp add: th word_uint_eq_iff)
    have acc: "access_ok c (uint (alu_y k)) ?n"
      by (rule store_access [OF st' _ ne]) (simp add: mem_bytes_def split: MemSize.splits)
    have mm: "\<not> is_mmio (alu_y k)" "\<not> dmem_misaligned (k_ctrl k) (alu_y k)"
      using in_dmem_facts(1) [OF lockstep_access(1) [OF f(1) acc]] not_misaligned [OF f(1) acc] by simp_all
    have "k_cause k = HALT_NONE"
      using False f(5) nosys dec mm by (simp add: k_cause_def ctl tohost_we_def)
    then have "core_cycle k = k\<lparr>k_pc := next_pc_mux k,
        dmem := (dmem k)[dmem_idx (alu_y k) := next_word (k_ctrl k) (alu_y k) (k_rs2 k) (dmem k ! dmem_idx (alu_y k))]\<rparr>"
      using f(5) dec mm by (simp add: core_cycle_def dmem_next_def ctl rf_write_def halt_now_def k_word_def)
    moreover have "c1 = c\<lparr>mem := le_write mem_put ?n (uint (alu_y k)) (uint (k_rs2 k)) (mem c)\<rparr>"
      using st' store_memory [OF acc ne, of "uint (k_rs2 k)"] f(1) by (simp add: lockstep_def)
    ultimately show ?thesis
      using lockstep_store [OF f(1) acc, where d = "k_rs2 k" and n = "next_pc_mux k" and s = s] f(2) by (simp add: n pc4)
  qed
qed

end
