(* ===== verification/Lockstep_Run.thy ===== *)
theory Lockstep_Run
  imports Lockstep_Mem Emu_Extend
begin

text \<open>
  From one step to whole runs: a forward simulation of the emulator by the core, for code that sits
  in the instruction memory.
\<close>

section \<open>Forward simulation\<close>

text \<open>
  A step relation, a machine that runs one cycle per step, a matching of their states that a step
  keeps when a side condition holds.
\<close>

locale forward_simulation =
  fixes astep :: "'s \<Rightarrow> 's \<Rightarrow> bool"
    and cstep :: "'t \<Rightarrow> 't"
    and match :: "'s \<Rightarrow> 't \<Rightarrow> bool"
    and ok :: "'s \<Rightarrow> 't \<Rightarrow> bool"
  assumes simulation: "match s t \<Longrightarrow> ok s t \<Longrightarrow> astep s s' \<Longrightarrow> match s' (cstep t)"
begin

inductive guarded :: "'s \<Rightarrow> 't \<Rightarrow> nat \<Rightarrow> 's \<Rightarrow> bool" where
  guarded_0: "guarded s t 0 s"
| guarded_Suc: "ok s t \<Longrightarrow> astep s s1 \<Longrightarrow> guarded s1 (cstep t) n s2 \<Longrightarrow> guarded s t (Suc n) s2"

inductive_cases guarded_zeroE: "guarded s t 0 s'"

lemma guarded_match: "guarded s t n s' \<Longrightarrow> match s t \<Longrightarrow> match s' ((cstep ^^ n) t)"
proof (induction rule: guarded.induct)
  case (guarded_Suc s t s1 n s2)
  then have "match s1 (cstep t)"
    using simulation by blast
  with guarded_Suc.IH show ?case
    by (simp add: funpow_swap1)
qed simp

text \<open>The state after any number of steps on the way.\<close>

lemma guarded_at:
  "guarded s t n s' \<Longrightarrow> i < n \<Longrightarrow>
     \<exists>u u'. guarded s t i u \<and> ok u ((cstep ^^ i) t) \<and> astep u u' \<and> (Suc i = n \<longrightarrow> u' = s')"
proof (induction arbitrary: i rule: guarded.induct)
  case (guarded_Suc s t s1 n s2)
  show ?case
  proof (cases i)
    case 0
    with guarded_Suc.hyps show ?thesis
      by (auto intro: guarded_0 elim: guarded.cases)
  next
    case (Suc j)
    then obtain u u' where u: "guarded s1 (cstep t) j u" "ok u ((cstep ^^ j) (cstep t))" "astep u u'" "Suc j = n \<longrightarrow> u' = s2"
      using guarded_Suc.IH [of j] guarded_Suc.prems by auto
    have "guarded s t i u" "ok u ((cstep ^^ i) t)"
      using guarded.intros(2) [OF guarded_Suc.hyps(1,2) u(1)] u(2) by (simp_all add: Suc funpow_swap1)
    with u(3,4) Suc show ?thesis by blast
  qed
qed simp

end

section \<open>One step\<close>

text \<open>The reason a run of the emulator reports, as the core's cause.\<close>

definition cause_of :: "cpu \<Rightarrow> halt_cause" where
  "cause_of c =
     (if \<not> halted c then HALT_NONE
      else if halt_reason c = Some ''ecall'' then HALT_ECALL
      else if halt_reason c = Some ''ebreak'' then HALT_EBREAK
      else HALT_TOHOST)"

text \<open>Both sides fetch the same instruction and the core implements it.\<close>

definition same_fetch :: "cpu \<Rightarrow> core \<Rightarrow> bool" where
  "same_fetch c k \<longleftrightarrow> fetch c (pc c) = Inr (uint (k_inst k)) \<and> rtl_supports (uint (k_inst k))"

lemma wr_keeps_halted [simp]: "halted (wr i v c) = halted c"
  by (simp add: wr_def)

lemma exec_keeps_halted:
  "sx_keeps (\<lambda>c. halted c = h) (exec_lui p w)" "sx_keeps (\<lambda>c. halted c = h) (exec_auipc p w)"
  "sx_keeps (\<lambda>c. halted c = h) (exec_jal p w)" "sx_keeps (\<lambda>c. halted c = h) (exec_jalr p w)"
  "sx_keeps (\<lambda>c. halted c = h) (exec_branch p w)" "sx_keeps (\<lambda>c. halted c = h) (exec_load p w)"
  "sx_keeps (\<lambda>c. halted c = h) (exec_imm p w)" "sx_keeps (\<lambda>c. halted c = h) (exec_reg p w)"
  unfolding exec_lui_def exec_auipc_def exec_jal_def exec_jalr_def exec_branch_def exec_load_def exec_imm_def
    exec_reg_def Let_def
  by (auto intro!: sx_keeps_rules sx_keeps_modify)

lemma known_opcode:
  assumes "exec_opcode p w c = (Inr x, c1)"
  shows "\<exists>op. inst_opcode w = Opcode_value op"
proof (rule ccontr)
  assume "\<not> ?thesis"
  then have "fst (exec_opcode p w c) \<noteq> Inr x"
    by (simp add: exec_opcode_def Let_def sx_simps del: Opcode_value.simps)
  with assms show False by simp
qed

lemma opcode_dispatch:
  "inst_opcode w = Opcode_value op \<Longrightarrow> exec_opcode p w =
     (case op of
        OP_LUI \<Rightarrow> no_store (exec_lui p w) | OP_AUIPC \<Rightarrow> no_store (exec_auipc p w)
      | OP_JAL \<Rightarrow> no_store (exec_jal p w) | OP_JALR \<Rightarrow> no_store (exec_jalr p w)
      | OP_BRANCH \<Rightarrow> no_store (exec_branch p w) | OP_LOAD \<Rightarrow> no_store (exec_load p w)
      | OP_STORE \<Rightarrow> exec_store p w | OP_IMM \<Rightarrow> no_store (exec_imm p w)
      | OP_REG \<Rightarrow> no_store (exec_reg p w) | OP_FENCE \<Rightarrow> no_store (sx_return (u32 (p + 4)))
      | OP_SYSTEM \<Rightarrow> no_store (exec_system p w))"
  by (cases op) (simp_all add: exec_opcode_def)

lemma no_store_keeps: "sx_keeps I m \<Longrightarrow> sx_keeps I (no_store m)"
  unfolding no_store_def by (intro sx_keeps_rules)

lemma only_two_halt:
  assumes "exec_opcode p w c = (Inr x, c1)" "inst_opcode w = Opcode_value op" "op \<noteq> OP_STORE" "op \<noteq> OP_SYSTEM"
  shows "halted c1 = halted c"
proof -
  have "sx_keeps (\<lambda>c. halted c = h) (exec_opcode p w)" for h
    unfolding opcode_dispatch [OF assms(2)]
    using assms(3,4) by (cases op) (simp_all add: no_store_keeps exec_keeps_halted sx_keeps_basic)
  from this [of "halted c"] have "halted (snd (exec_opcode p w c)) = halted c"
    unfolding sx_keeps_def by blast
  with assms(1) show ?thesis by simp
qed

lemma step_matches:
  assumes "in_step op c k n c1" "rtl_supports (uint (k_inst k))"
  shows "lockstep (c1\<lparr>pc := n, steps := s\<rparr>) (core_cycle k)"
  using assms(1)
  by (cases op; hypsubst)
    (erule step_lui step_auipc step_jal step_jalr step_branch step_load step_store [THEN conjunct1]
      step_imm step_reg step_fence step_system [OF _ assms(2), THEN conjunct1])+

lemma lockstep_step_lemma:
  assumes "lockstep c k" "same_fetch c k" "step c = (Inr t, c')"
  shows "lockstep c' (core_cycle k) \<and> k_cause k = cause_of c'"
proof -
  let ?w = "uint (k_inst k)"
  obtain n mw c1 where nh: "\<not> halted c" and ex: "exec_opcode (pc c) ?w c = (Inr (n, mw), c1)"
    and c': "c' = c1\<lparr>pc := n, steps := steps c1 + 1\<rparr>"
    using assms(2,3) by (elim step_Inr_cases) (auto simp: same_fetch_def)
  have sup: "rtl_supports ?w"
    using assms(2) by (simp add: same_fetch_def)
  obtain op where op: "inst_opcode ?w = Opcode_value op"
    using known_opcode [OF ex] by blast
  have st: "in_step op c k n c1"
    using assms(1) nh op ex by (auto simp: in_step_def)
  have ls: "lockstep c' (core_cycle k)"
    unfolding c' by (rule step_matches [OF st sup])
  have "\<not> halted_q k" "halted c' = halted_q (core_cycle k)"
    using ls assms(1) nh by (simp_all add: lockstep_def)
  then have h: "halted c1 \<longleftrightarrow> k_cause k \<noteq> HALT_NONE"
    by (simp add: c' core_cycle_def halt_now_def)
  have "k_cause k = cause_of c'"
  proof (cases "halted c1")
    case True
    then have "op = OP_STORE \<or> op = OP_SYSTEM"
      using only_two_halt [OF ex op] nh by blast
    then show ?thesis
    proof
      assume "op = OP_STORE"
      with True st step_store [of c k n c1 0] show ?thesis
        by (auto simp: cause_of_def c')
    next
      assume "op = OP_SYSTEM"
      with True st step_system [of c k n c1 0, OF _ sup] show ?thesis
        by (auto simp: cause_of_def c')
    qed
  next
    case False
    with h show ?thesis by (simp add: cause_of_def c')
  qed
  with ls show ?thesis by blast
qed

interpretation emu_core: forward_simulation "\<lambda>c c'. \<exists>t. step c = (Inr t, c')" core_cycle lockstep same_fetch
  by unfold_locales (use lockstep_step_lemma in blast)

section \<open>Runs\<close>

text \<open>
  The instruction at the PC is the program's word there, and one the core implements; a run that stays in
  the program up to the step limit or until it halts, and does not raise. Code that overwrites itself fails this
  check, because the core fetches from a memory of its own.
\<close>

definition at_word :: "int list \<Rightarrow> cpu \<Rightarrow> bool" where
  "at_word words c =
     (case fetch c (pc c) of
        Inl _ \<Rightarrow> False
      | Inr w \<Rightarrow> 0 \<le> pc c \<and> pc c < 4 * int (length words) \<and> w = words ! nat (pc c div 4) \<and> rtl_supports w)"

function stays_in :: "int list \<Rightarrow> int \<Rightarrow> cpu \<Rightarrow> bool" where
  "stays_in words n c =
     (if \<not> halted c \<and> steps c < n then
        (if at_word words c then
           (case step c of (Inl _, _) \<Rightarrow> False | (Inr _, c') \<Rightarrow> stays_in words n c')
         else False)
      else True)"
  by pat_completeness auto
termination
  by (relation "measure (\<lambda>(words, n, c). nat (n - steps c))") (auto dest!: step_steps [OF sym])

declare stays_in.simps [simp del]

text \<open>The program in the instruction memory.\<close>

definition holds_rom :: "core \<Rightarrow> int list \<Rightarrow> bool" where
  "holds_rom k words \<longleftrightarrow> length words \<le> IMEM_WORDS \<and> (\<forall>i < length words. uint (imem k ! i) = words ! i)"

lemma core_cycle_imem [simp]: "imem (core_cycle k) = imem k"
  by (simp add: core_cycle_def)

lemma holds_rom_cycle: "holds_rom (core_cycle k) words = holds_rom k words"
  by (simp add: holds_rom_def)

lemma imem_index:
  "uint p < 4096 \<Longrightarrow> nat (sv_field 11 2 p) = nat (uint p div 4)"
proof -
  assume lt: "uint p < 4096"
  have "take_bit 10 (uint p div 4) = uint p div 4"
    by (rule take_bit_int_eq_self) (use lt in \<open>auto simp: pos_imp_zdiv_nonneg_iff\<close>)
  then show ?thesis
    by (simp add: sv_field_bits drop_bit_eq_div)
qed

lemma at_word_fetch:
  assumes "lockstep c k" "holds_rom k words" "at_word words c"
  shows "same_fetch c k"
proof -
  obtain w where w: "fetch c (pc c) = Inr w" "pc c < 4 * int (length words)"
      "w = words ! nat (pc c div 4)" "rtl_supports w"
    using assms(3) by (auto simp: at_word_def split: sum.splits)
  have p: "pc c = uint (k_pc k)"
    using assms(1) by (simp add: lockstep_def)
  have i: "nat (pc c div 4) < length words"
    using w(2) p by (simp add: nat_less_iff pos_imp_zdiv_nonneg_iff)
  have "uint (k_pc k) < 4096"
    using w(2) assms(2) p by (simp add: holds_rom_def IMEM_WORDS_def)
  then have "uint (k_inst k) = w"
    using assms(2) i w(3) by (simp add: k_inst_def imem_index holds_rom_def p)
  with w show ?thesis by (simp add: same_fetch_def)
qed

text \<open>A run that stays in the program is a guarded sequence of steps.\<close>

lemma run_guarded:
  assumes "run n c = (Inr reason, d)" "stays_in words n c" "lockstep c k" "holds_rom k words"
  shows "\<exists>m. steps d = steps c + int m \<and> emu_core.guarded c k m d"
  using assms
proof (induction n c arbitrary: k rule: run.induct)
  case (1 n c)
  show ?case
  proof (cases "\<not> halted c \<and> steps c < n")
    case True
    then obtain t c1 where st: "step c = (Inr t, c1)" and at: "at_word words c" and rest: "stays_in words n c1"
      using "1.prems"(2) by (auto simp: stays_in.simps [of words n c] split: if_splits prod.splits sum.splits)
    have ok: "same_fetch c k"
      by (rule at_word_fetch [OF "1.prems"(3,4) at])
    have ls: "lockstep c1 (core_cycle k)"
      using lockstep_step_lemma [OF "1.prems"(3) ok st] by blast
    have run: "run n c1 = (Inr reason, d)"
      using "1.prems"(1) run_step [OF _ _ st, of n] True by simp
    have rom: "holds_rom (core_cycle k) words"
      using "1.prems"(4) by (simp add: holds_rom_cycle)
    obtain m where m: "steps d = steps c1 + int m" "emu_core.guarded c1 (core_cycle k) m d"
      using "1.IH" [OF True st [symmetric] refl run rest ls rom] by blast
    have "emu_core.guarded c k (Suc m) d"
      using ok st m(2) by (blast intro: emu_core.guarded_Suc)
    with m(1) step_steps [OF st] show ?thesis
      by (intro exI [of _ "Suc m"]) simp
  next
    case False
    then have "d = c"
      using "1.prems"(1) by (auto simp: run.simps [of n c] split: if_splits)
    then show ?thesis
      by (intro exI [of _ 0]) (simp add: emu_core.guarded_0)
  qed
qed

text \<open>What a guarded sequence says of every cycle of the core.\<close>

lemma guarded_cycles:
  assumes "emu_core.guarded c k m d" "lockstep c k"
  shows "lockstep d ((core_cycle ^^ m) k)" "i < m \<Longrightarrow> \<not> halted_q ((core_cycle ^^ i) k)"
    "0 < m \<Longrightarrow> k_cause ((core_cycle ^^ (m - 1)) k) = cause_of d"
proof -
  show "lockstep d ((core_cycle ^^ m) k)"
    by (rule emu_core.guarded_match [OF assms])
  show "\<not> halted_q ((core_cycle ^^ i) k)" if i: "i < m"
  proof -
    obtain u u' t where u: "emu_core.guarded c k i u" "step u = (Inr t, u')"
      using emu_core.guarded_at [OF assms(1) i] by blast
    have "\<not> halted u"
      using u(2) by (auto simp: step_def sx_simps)
    with emu_core.guarded_match [OF u(1) assms(2)] show ?thesis
      by (simp add: lockstep_def)
  qed
  show "k_cause ((core_cycle ^^ (m - 1)) k) = cause_of d" if m: "0 < m"
  proof -
    obtain u t where u: "emu_core.guarded c k (m - 1) u" "same_fetch u ((core_cycle ^^ (m - 1)) k)" "step u = (Inr t, d)"
      using emu_core.guarded_at [OF assms(1), of "m - 1"] m by auto
    with lockstep_step_lemma emu_core.guarded_match [OF u(1) assms(2)] show ?thesis by blast
  qed
qed

text \<open>C3. Refinement: when a run of the emulator that stays in the program loaded into the core's instruction
  memory returns, the single-cycle core does the same in as many cycles as the run took steps: it ends in the
  matching state (registers, PC, data memory), it has not halted before, and its last cycle reports the
  cause that belongs to the reason of the run.\<close>

theorem core_refines_emulator:
  assumes "lockstep c k" "holds_rom k words" "stays_in words n c" "run n c = (Inr reason, d)"
  shows "\<exists>m. steps d = steps c + int m \<and> lockstep d ((core_cycle ^^ m) k) \<and>
    (\<forall>i < m. \<not> halted_q ((core_cycle ^^ i) k)) \<and>
    (0 < m \<longrightarrow> k_cause ((core_cycle ^^ (m - 1)) k) = cause_of d)"
proof -
  obtain m where m: "steps d = steps c + int m" "emu_core.guarded c k m d"
    using run_guarded [OF assms(4,3,1,2)] by blast
  with guarded_cycles [OF m(2) assms(1)] show ?thesis by blast
qed

text \<open>One instruction in lockstep: if both sides fetch the same word, the core implements it and the
  emulator's step returns, then one clock cycle takes the matching core state to the matching core state,
  and the core halts in that cycle exactly when the emulator does, with the same cause.\<close>

theorem lockstep_step:
  assumes "lockstep c k" "fetch c (pc c) = Inr (uint (k_inst k))" "rtl_supports (uint (k_inst k))"
    and "step c = (Inr t, c')"
  shows "lockstep c' (core_cycle k) \<and> k_cause k = cause_of c'"
  using lockstep_step_lemma [OF assms(1) _ assms(4)] assms(2,3) by (simp add: same_fetch_def)

end
