(* ===== verification/Core_Boot.thy ===== *)
theory Core_Boot
  imports Lockstep_Run Benchmark_Runs Riscv_Tests
begin

text \<open>
  Programs on the core: the same image loaded into the emulator and, with \<open>$readmemh\<close>, into the
  instruction and the data memory of the core puts both in lockstep; the five benchmarks run on the
  core.
\<close>

section \<open>Loading\<close>

text \<open>\<open>$readmemh\<close> into a memory of a given depth that was cleared before.\<close>

definition readmemh :: "nat \<Rightarrow> int list \<Rightarrow> u32w list" where
  "readmemh depth words = take depth (map word_of_int words @ replicate depth 0)"

definition core_boot :: "int list \<Rightarrow> core" where
  "core_boot words = core_reset \<lparr>k_pc = 0, xregs = [], imem = readmemh IMEM_WORDS words,
     dmem = readmemh DMEM_WORDS words, halted_q = False\<rparr>"

lemma length_readmemh [simp]: "length (readmemh depth words) = depth"
  by (simp add: readmemh_def)

lemma readmemh_nth:
  "i < depth \<Longrightarrow> readmemh depth words ! i = (if i < length words then word_of_int (words ! i) else 0)"
  by (simp add: readmemh_def nth_append)

lemma readmemh_bytes:
  assumes "length words \<le> depth" "0 \<le> a" "a < 4 * int depth"
  shows "byte_at (readmemh depth words) a = (words_bytes words @ replicate (4 * (depth - length words)) 0) ! nat a"
proof -
  define q j where "q = nat (a div 4)" and "j = nat (a mod 4)"
  have qj: "nat a = 4 * q + j" "j < 4" "q < depth"
    using assms(2,3) by (simp_all add: q_def j_def nat_less_iff pos_imp_zdiv_nonneg_iff)
      (simp add: nat_mult_distrib [of 4, simplified, symmetric] flip: nat_add_distrib)
  have bt: "byte_at (readmemh depth words) a = take_bit 8 (drop_bit (8 * j) (uint (readmemh depth words ! q)))"
    by (simp add: byte_at_def q_def j_def)
  show ?thesis
  proof (cases "q < length words")
    case True
    then have "nat a < length (words_bytes words)"
      using qj by simp
    with True qj words_bytes_nth [OF True qj(2)] show ?thesis
      by (simp add: bt readmemh_nth nth_append uint_word_of_int_eq)
  next
    case False
    then have "\<not> nat a < length (words_bytes words)" "nat a - length (words_bytes words) < 4 * (depth - length words)"
      using qj by auto
    with False qj show ?thesis
      by (simp add: bt readmemh_nth nth_append)
  qed
qed

lemma boot_lockstep:
  assumes "length words \<le> DMEM_WORDS"
  shows "lockstep (grow (replicate (4 * (DMEM_WORDS - length words)) 0) (bare_cpu words)) (core_boot words)"
proof -
  have rd: "r (bare_cpu words) i = 0" "rf_read (replicate 32 0) i = 0" if "reg_ok i" for i
    using that by (simp_all add: r_def bare_cpu_def rf_read_def reg_ok_def nat_less_iff del: replicate.simps)
  have ok: "regs_ok (grow e (bare_cpu words))" for e
    by (simp add: regs_ok_def bare_cpu_def list_all_length)
  show ?thesis
    using assms rd ok readmemh_bytes [OF assms]
    by (simp add: lockstep_def core_boot_def core_reset_def TOHOST_ADDR_def del: replicate.simps)
      (simp add: bare_cpu_def del: replicate.simps)
qed

lemma words_bytes_ok: "list_all byte_ok (words_bytes ws)"
  by (induction ws) (auto simp: words_bytes_Cons list_all_iff words_bytes_def [of "[]"])

lemma bare_wf: "wf_cpu (grow (replicate z 0) (bare_cpu words))"
proof -
  have "list_all byte_ok (replicate z 0)" "list_all word_ok (replicate 32 0)"
    by (simp_all add: list_all_length byte_ok_def del: replicate.simps)
  then show ?thesis
    by (simp add: wf_cpu_def bare_cpu_def words_bytes_ok del: replicate.simps)
qed

lemma boot_rom:
  assumes "length words \<le> IMEM_WORDS" "words_ok words"
  shows "holds_rom (core_boot words) words"
  using assms by (auto simp: holds_rom_def core_boot_def core_reset_def readmemh_nth words_ok_def list_all_length
      uint_word_of_int_eq take_bit_int_eq_self)

text \<open>The emulator with a memory of 16 KiB, the harness having stored the image at 0, and the core after
  reset with the image in both memories, are in lockstep.\<close>

theorem boot_in_lockstep:
  assumes "RV32I_init (4 * int DMEM_WORDS) 0 0x80001000 False = Inr c0"
    and "load_program (words_bytes words) (Some 0) (c0\<lparr>pc := 0\<rparr>) = Inr c"
  shows "lockstep c (core_boot words)"
proof -
  have len: "length words \<le> DMEM_WORDS"
    using assms by (auto simp: RV32I_init_def load_program_def Let_def DMEM_WORDS_def split: if_splits)
  have "c = grow (replicate (4 * (DMEM_WORDS - length words)) 0) (bare_cpu words)"
    using assms len
    by (auto simp: RV32I_init_def load_program_def bare_cpu_def grow_def Let_def DMEM_WORDS_def diff_mult_distrib2
        split: if_splits simp del: replicate.simps)
  with boot_lockstep [OF len] show ?thesis by simp
qed

section \<open>Staying in the program does not depend on the memory behind it\<close>

lemma at_word_grow: "at_word words c \<Longrightarrow> at_word words (grow e c)"
  by (auto simp: at_word_def fetch_grow split: sum.splits)

lemma stays_in_grow: "stays_in words n c \<Longrightarrow> stays_in words n (grow e c)"
proof (induction words n c rule: stays_in.induct)
  case (1 words n c)
  show ?case
  proof (cases "\<not> halted c \<and> steps c < n")
    case True
    then obtain t c1 where st: "step c = (Inr t, c1)" and at: "at_word words c" and rest: "stays_in words n c1"
      using "1.prems" by (auto simp: stays_in.simps [of words n c] split: if_splits prod.splits sum.splits)
    have "stays_in words n (grow e c1)"
      using "1.IH" [OF True at st [symmetric] refl rest] .
    with True at_word_grow [OF at, of e] step_grow [OF st, of e] show ?thesis
      by (simp add: stays_in.simps [of words n "grow e c"])
  next
    case False
    then show ?thesis by (subst stays_in.simps) auto
  qed
qed

section \<open>The benchmarks\<close>

lemma fib_stays: "stays_in FIB_WORDS 500000 (bare_cpu FIB_WORDS)"
  by code_simp

lemma gcd_stays: "stays_in GCD_WORDS 500000 (bare_cpu GCD_WORDS)"
  by code_simp

lemma factorial_stays: "stays_in FACTORIAL_WORDS 500000 (bare_cpu FACTORIAL_WORDS)"
  by code_simp

lemma sort_stays: "stays_in SORT_WORDS 500000 (bare_cpu SORT_WORDS)"
  by code_simp

lemma matvec_stays: "stays_in MATVEC_WORDS 500000 (bare_cpu MATVEC_WORDS)"
  by code_simp

lemma benchmark_words_ok:
  "ws \<in> {FIB_WORDS, GCD_WORDS, FACTORIAL_WORDS, SORT_WORDS, MATVEC_WORDS} \<Longrightarrow> length ws \<le> IMEM_WORDS \<and> words_ok ws"
  by (auto simp: IMEM_WORDS_def words_ok_def FIB_WORDS_def GCD_WORDS_def FACTORIAL_WORDS_def SORT_WORDS_def MATVEC_WORDS_def)

text \<open>All a harness needs to know of a benchmark.\<close>

lemma benchmark_facts:
  assumes "(name, source, expect) \<in> set BENCHMARKS"
  shows "\<exists>words n. assemble source 0 None = Inr words \<and> ends_with words n expect \<and>
    stays_in words 500000 (bare_cpu words) \<and> length words \<le> IMEM_WORDS \<and> words_ok words \<and> n \<le> 400 \<and>
    list_all (\<lambda>(i, v). 0 < i \<and> i < 32) expect"
proof -
  consider "source = FIB \<and> expect = [(10, 6765)]" | "source = GCD_SRC \<and> expect = [(10, 21)]"
    | "source = FACTORIAL \<and> expect = [(10, 40320)]" | "source = SORT \<and> expect = [(10, 1), (11, 9)]"
    | "source = MATVEC \<and> expect = [(10, 6), (11, 15), (13, 24)]"
    using assms by (auto simp: BENCHMARKS_def)
  then show ?thesis
  proof cases
    case 1
    then show ?thesis using fib_assembled fib_ends fib_stays benchmark_words_ok [of FIB_WORDS]
      by (intro exI [of _ FIB_WORDS] exI [of _ 130]) simp
  next
    case 2
    then show ?thesis using gcd_assembled gcd_ends gcd_stays benchmark_words_ok [of GCD_WORDS]
      by (intro exI [of _ GCD_WORDS] exI [of _ 50]) simp
  next
    case 3
    then show ?thesis using factorial_assembled factorial_ends factorial_stays benchmark_words_ok [of FACTORIAL_WORDS]
      by (intro exI [of _ FACTORIAL_WORDS] exI [of _ 247]) simp
  next
    case 4
    then show ?thesis using sort_assembled sort_ends sort_stays benchmark_words_ok [of SORT_WORDS]
      by (intro exI [of _ SORT_WORDS] exI [of _ 338]) simp
  next
    case 5
    then show ?thesis using matvec_assembled matvec_ends matvec_stays benchmark_words_ok [of MATVEC_WORDS]
      by (intro exI [of _ MATVEC_WORDS] exI [of _ 213]) simp
  qed
qed

text \<open>What it means that the core runs a benchmark: it halts on ECALL with the expected registers.\<close>

definition core_meets :: "string \<Rightarrow> (nat \<times> int) list \<Rightarrow> bool" where
  "core_meets source expect \<longleftrightarrow>
     (\<exists>words m. assemble source 0 None = Inr words \<and>
        (\<forall>i \<le> m. \<not> halted_q ((core_cycle ^^ i) (core_boot words))) \<and>
        k_cause ((core_cycle ^^ m) (core_boot words)) = HALT_ECALL \<and>
        list_all (\<lambda>(i, v). uint (rf_read (xregs ((core_cycle ^^ Suc m) (core_boot words))) (int i)) = v) expect)"

lemma run_ecall_halted:
  assumes "run n c = (Inr ''ecall'', d)"
  shows "halted d" "halt_reason d = Some ''ecall''"
  using run_outcome [OF assms] run_reason [OF assms] by (auto split: option.splits if_splits)

lemma core_meets_bare:
  assumes "assemble source 0 None = Inr words" "ends_with words n expect" "stays_in words 500000 (bare_cpu words)"
    and "length words \<le> IMEM_WORDS" "words_ok words" "list_all (\<lambda>(i, v). 0 < i \<and> i < 32) expect"
  shows "core_meets source expect"
proof -
  define e where "e = replicate (4 * (DMEM_WORDS - length words)) (0 :: int)"
  let ?c = "grow e (bare_cpu words)" and ?k = "core_boot words"
  obtain d where run: "run 500000 (bare_cpu words) = (Inr ''ecall'', d)"
    and d: "list_all (\<lambda>(i, v). regs d ! i = v) expect"
    using assms(2) by (auto simp: ends_with_def split: prod.splits sum.splits)
  have "length words \<le> DMEM_WORDS"
    using assms(4) by (simp add: IMEM_WORDS_def DMEM_WORDS_def)
  then have ls: "lockstep ?c ?k"
    unfolding e_def by (rule boot_lockstep)
  obtain m where m: "steps (grow e d) = steps ?c + int m" "emu_core.guarded ?c ?k m (grow e d)"
    using run_guarded [OF run_grow [OF run, of e] stays_in_grow [OF assms(3)] ls boot_rom [OF assms(4,5)]] by blast
  note cyc = guarded_cycles [OF m(2) ls]
  have halted: "halted d" "halt_reason d = Some ''ecall''"
    using run_ecall_halted [OF run] by simp_all
  have "m \<noteq> 0"
  proof
    assume "m = 0"
    with m(2) have "grow e d = ?c"
      by (auto elim: emu_core.guarded_zeroE)
    then have "halted (grow e d) = halted ?c" by simp
    with halted(1) show False
      by (simp add: bare_cpu_def grow_def)
  qed
  then obtain l where l: "m = Suc l" by (cases m) auto
  have "\<forall>i \<le> l. \<not> halted_q ((core_cycle ^^ i) ?k)"
    using cyc(2) l by simp
  moreover have "k_cause ((core_cycle ^^ l) ?k) = HALT_ECALL"
    using cyc(3) l halted by (simp add: cause_of_def)
  moreover have regs: "uint (rf_read (xregs ((core_cycle ^^ Suc l) ?k)) (int i)) = regs d ! i" if "0 < i" "i < 32" for i
    using cyc(1) that by (auto simp: l lockstep_def r_def reg_ok_def dest!: spec [of _ "int i"])
  moreover have "list_all (\<lambda>(i, v). uint (rf_read (xregs ((core_cycle ^^ Suc l) ?k)) (int i)) = v) expect"
    unfolding list_all_iff
  proof clarify
    fix i v assume "(i, v) \<in> set expect"
    with assms(6) d have "0 < i \<and> i < 32" "regs d ! i = v"
      by (auto simp: list_all_iff)
    with regs show "uint (rf_read (xregs ((core_cycle ^^ Suc l) ?k)) (int i)) = v" by blast
  qed
  ultimately show ?thesis
    using assms(1) unfolding core_meets_def by blast
qed

text \<open>Every benchmark of the repository, assembled and loaded into both memories of the single-cycle core,
  halts the core on ECALL with the register values the table expects.\<close>

theorem core_runs_benchmarks:
  "list_all (\<lambda>(name, source, expect). core_meets source expect) BENCHMARKS"
  unfolding list_all_iff
proof clarify
  fix name source expect assume "(name, source, expect) \<in> set BENCHMARKS"
  then obtain words n where "assemble source 0 None = Inr words" "ends_with words n expect"
      "stays_in words 500000 (bare_cpu words)" "length words \<le> IMEM_WORDS" "words_ok words"
      "list_all (\<lambda>(i, v). 0 < i \<and> i < 32) expect"
    using benchmark_facts by blast
  then show "core_meets source expect" by (rule core_meets_bare)
qed

end
