(* ===== verification/Python_Int.thy ===== *)
theory Python_Int
  imports Python_Strings
begin

text \<open>
  \<open>int(s, base)\<close> for texts the caller has not cleaned: underscores between digits, and base 0, which
  takes the base from the prefix. \<open>py_int\<close> of \<open>Python_Strings\<close> is the same function on text without
  underscores in a given base.
\<close>

section \<open>Underscores\<close>

text \<open>One underscore may stand between two digits, and one behind a base prefix.\<close>

fun drop_underscores :: "bool \<Rightarrow> string \<Rightarrow> string option" where
  "drop_underscores ok [] = Some []"
| "drop_underscores ok (c # s) =
     (if c = CHR ''_'' then
        (if ok \<and> s \<noteq> [] \<and> hd s \<noteq> CHR ''_'' then drop_underscores False s else None)
      else map_option (\<lambda>t. c # t) (drop_underscores True s))"

definition c_strip :: "string \<Rightarrow> string" where
  "c_strip s = rev (dropWhile c_isspace (rev (dropWhile c_isspace s)))"

definition radix_of_prefix :: "string \<Rightarrow> nat option" where
  "radix_of_prefix s =
     (if py_startswith ''0x'' s \<or> py_startswith ''0X'' s then Some 16
      else if py_startswith ''0o'' s \<or> py_startswith ''0O'' s then Some 8
      else if py_startswith ''0b'' s \<or> py_startswith ''0B'' s then Some 2
      else None)"

text \<open>A decimal literal in base 0 has no leading zero, unless it is zero.\<close>

definition int_of_text :: "nat \<Rightarrow> string \<Rightarrow> int option" where
  "int_of_text base s =
     (let t = c_strip s;
          neg = py_startswith ''-'' t;
          u = (if neg \<or> py_startswith ''+'' t then drop 1 t else t);
          pre = (case radix_of_prefix u of None \<Rightarrow> False | Some b \<Rightarrow> base = 0 \<or> base = b);
          b = (if base = 0 then (case radix_of_prefix u of None \<Rightarrow> 10 | Some b \<Rightarrow> b) else base)
      in case drop_underscores pre (if pre then drop 2 u else u) of
           None \<Rightarrow> None
         | Some ds \<Rightarrow>
             if ds = [] \<or> \<not> list_all (is_digit_of b) ds then None
             else if base = 0 \<and> \<not> pre \<and> hd ds = CHR ''0'' \<and> list_ex (\<lambda>c. c \<noteq> CHR ''0'') ds then None
             else Some (if neg then - digits_value b ds else digits_value b ds))"

lemma drop_underscores_none: "list_all (\<lambda>c. c \<noteq> CHR ''_'') s \<Longrightarrow> drop_underscores ok s = Some s"
  by (induction s arbitrary: ok) auto

lemma c_strip_plain: "list_all (\<lambda>c. \<not> c_isspace c) s \<Longrightarrow> c_strip s = s"
  by (simp add: c_strip_def dropWhile_none)

text \<open>A text of digits is read as their value, in the bases the repository uses.\<close>

lemma int_of_digits:
  assumes "s \<noteq> []" "list_all (is_digit_of base) s" "base \<in> {2, 8, 10, 16}"
  shows "int_of_text base s = Some (digits_value base s)"
proof -
  have b: "base \<le> 16" "base \<noteq> 0" using assms(3) by auto
  have plain: "list_all (\<lambda>c. \<not> c_isspace c) s" "list_all (\<lambda>c. c \<noteq> CHR ''_'') s"
    using assms(2) digit_plain(1,11) [OF _ b(1)] by (auto simp: list_all_iff)
  have sign: "\<not> py_startswith ''-'' s" "\<not> py_startswith ''+'' s"
    using assms(1,2) digit_plain(5,6) [OF _ b(1)] by (cases s; auto simp: py_startswith_def)+
  have "radix_of_prefix s \<noteq> Some base"
    using no_base_prefix [OF assms(2,3)] by (auto simp: radix_of_prefix_def base_prefix_def)
  then have "(case radix_of_prefix s of None \<Rightarrow> False | Some r \<Rightarrow> base = 0 \<or> base = r) = False"
    using b(2) by (auto split: option.splits)
  then show ?thesis
    using sign b(2) assms(1,2)
    by (simp add: int_of_text_def c_strip_plain [OF plain(1)] drop_underscores_none [OF plain(2)] Let_def)
qed

section \<open>\<open>s.split()\<close>\<close>

function py_split :: "string \<Rightarrow> string list" where
  "py_split s =
     (let t = py_lstrip s in
      if t = [] then []
      else takeWhile (\<lambda>c. \<not> py_isspace c) t # py_split (dropWhile (\<lambda>c. \<not> py_isspace c) t))"
  by pat_completeness auto
termination
proof (relation "measure length")
  fix s t assume t: "t = py_lstrip s" "t \<noteq> []"
  then have "\<not> py_isspace (hd t)"
    by (metis hd_dropWhile py_lstrip_def)
  then have "length (dropWhile (\<lambda>c. \<not> py_isspace c) t) < length t"
    using t(2) by (cases t) (auto simp: le_imp_less_Suc length_dropWhile_le)
  also have "length t \<le> length s"
    by (simp add: t(1) py_lstrip_def length_dropWhile_le)
  finally show "(dropWhile (\<lambda>c. \<not> py_isspace c) t, s) \<in> measure length"
    by simp
qed simp

declare py_split.simps [simp del]

text \<open>Splitting lines without blanks.\<close>

lemma split_lines:
  assumes "list_all (\<lambda>l. l \<noteq> [] \<and> list_all (\<lambda>c. \<not> py_isspace c) l) ls"
  shows "py_split (concat (map (\<lambda>l. l @ [CHR 0x0A]) ls)) = ls"
  using assms
proof (induction ls)
  case Nil
  show ?case by (subst py_split.simps) (simp add: py_lstrip_def)
next
  case (Cons l ls)
  let ?rest = "concat (map (\<lambda>l. l @ [CHR 0x0A]) ls)"
  have nl: "py_isspace (CHR 0x0A)" by code_simp
  have l: "l \<noteq> []" "list_all (\<lambda>c. \<not> py_isspace c) l"
    using Cons.prems by simp_all
  have strip: "py_lstrip (l @ CHR 0x0A # ?rest) = l @ CHR 0x0A # ?rest"
    using l by (cases l) (simp_all add: py_lstrip_def)
  have blank: "py_split (CHR 0x0A # ?rest) = py_split ?rest"
    using nl by (simp add: py_split.simps [of "CHR 0x0A # ?rest"] py_split.simps [of ?rest] py_lstrip_def)
  have "takeWhile (\<lambda>c. \<not> py_isspace c) (l @ CHR 0x0A # ?rest) = l"
    "dropWhile (\<lambda>c. \<not> py_isspace c) (l @ CHR 0x0A # ?rest) = CHR 0x0A # ?rest"
    using l(2) nl by (simp_all add: takeWhile_append2 dropWhile_append2 list_all_iff)
  then have "py_split (l @ CHR 0x0A # ?rest) = l # py_split ?rest"
    using strip l(1) blank by (subst py_split.simps) (simp add: Let_def)
  with Cons show ?case by simp
qed

end
