(* ===== verification/Asm_Cli.thy ===== *)
theory Asm_Cli
  imports Asm_Hex Asm_Errors Python_Int
begin

text \<open>
  \<open>tools/assembler/assemble.py\<close>: the command line \<open>_cli\<close>, from the parsed arguments to the exit status and
  the file it writes, uncaught exceptions included; and how \<open>tb/top/test_top.py\<close> reads that file.
\<close>

section \<open>The words of an image\<close>

lemma le_read_range:
  "(\<And>a. 0 \<le> get m a \<and> get m a < 256) \<Longrightarrow> 0 \<le> le_read get n a m \<and> le_read get n a m < 256 ^ n"
proof (induction n arbitrary: a)
  case (Suc n)
  have "0 \<le> le_read get n (a + 1) m" "le_read get n (a + 1) m < 256 ^ n"
    using Suc.IH [OF Suc.prems] by simp_all
  moreover have "0 \<le> get m a" "get m a < 256"
    using Suc.prems by simp_all
  ultimately show ?case by simp
qed simp

lemma assemble_words_ok:
  assumes "assemble source tb dbo = Inr ws"
  shows "words_ok ws"
proof -
  obtain im where im: "assemble_image source tb dbo = Inr im" and ws: "ws = pack_image im"
    using assms by (auto simp: assemble_def bindE_Inr_iff)
  note ok = assemble_image_ok [OF im]
  have "0 \<le> ws ! k \<and> ws ! k < 2 ^ 32" if "k < length ws" for k
    using le_read_range [of image_get im 4, OF image_get_range [OF ok]] pack_image_nth [of k im] that
    by (simp add: ws image_word_le [OF ok])
  then show ?thesis
    by (simp add: words_ok_def list_all_length)
qed

text \<open>C38. Whatever the source and the base addresses, what \<open>assemble\<close> returns are 32-bit words, so each one
  fills exactly the eight digits of its line in the hex file.\<close>

theorem assembled_words_bounded:
  "assemble source tb dbo = Inr ws \<Longrightarrow>
     list_all (\<lambda>w. 0 \<le> w \<and> w < 2 ^ 32) ws \<and> length (to_hex_lines ws) = 9 * length ws"
proof -
  assume "assemble source tb dbo = Inr ws"
  then have ok: "words_ok ws" by (rule assemble_words_ok)
  then have "length (to_hex_lines ws) = 9 * length ws"
    by (induction ws) (simp_all add: to_hex_lines_def words_ok_def hex_line(1))
  with ok show ?thesis by (simp add: words_ok_def)
qed

section \<open>\<open>_cli\<close>\<close>

text \<open>
  The arguments as \<open>argparse\<close> leaves them: the paths of the source and of the output, and the text of \<open>--base\<close> when it
  is given. Reading the source gives its text, fails with an \<open>OSError\<close>, or finds bytes that are no text
  (\<open>UnicodeDecodeError\<close>); writing the output succeeds or fails with an \<open>OSError\<close>. How the two files behave are
  parameters. \<open>_cli\<close> returns a code, with the path and the text it has written, if any; or \<open>argparse\<close> has left by
  \<open>SystemExit\<close>, which it does with code 2 for a \<open>--base\<close> that \<open>int\<close> rejects; or an exception has not been caught.
\<close>

datatype source_file = Source_text string | Read_failed | Not_text

datatype cli_exn = Asm_exn asm_exn | Unicode_error | Write_failed

datatype cli_result =
  Returned int "(string \<times> string) option"
| System_exit int
| Uncaught cli_exn

definition cli_base :: "string option \<Rightarrow> int option" where
  "cli_base base = (case base of None \<Rightarrow> Some 0 | Some s \<Rightarrow> int_of_text 0 s)"

definition cli :: "(string \<Rightarrow> source_file) \<Rightarrow> (string \<Rightarrow> bool) \<Rightarrow> string \<Rightarrow> string \<Rightarrow> string option \<Rightarrow> cli_result" where
  "cli read_text can_write source output base =
     (case cli_base base of
        None \<Rightarrow> System_exit 2
      | Some text_base \<Rightarrow>
          (case read_text source of
             Read_failed \<Rightarrow> Returned 2 None
           | Not_text \<Rightarrow> Uncaught Unicode_error
           | Source_text text \<Rightarrow>
               (case assemble text text_base None of
                  Inl (AsmError l m s) \<Rightarrow> Returned 1 None
                | Inl e \<Rightarrow> Uncaught (Asm_exn e)
                | Inr words \<Rightarrow>
                    if can_write output then Returned 0 (Some (output, to_hex_lines words))
                    else Uncaught Write_failed)))"

text \<open>\<open>sys.exit(_cli(...))\<close>: the exit status of the process; the interpreter ends with 1 after an uncaught exception.\<close>

fun exit_status :: "cli_result \<Rightarrow> int" where
  "exit_status (Returned code out) = code"
| "exit_status (System_exit code) = code"
| "exit_status (Uncaught e) = 1"

text \<open>\<open>load_hex_words\<close> of \<open>tb/top/test_top.py\<close>: the words as little-endian bytes; \<open>None\<close> is a \<open>ValueError\<close>.\<close>

fun all_some :: "'a option list \<Rightarrow> 'a list option" where
  "all_some [] = Some []"
| "all_some (x # xs) = (case x of None \<Rightarrow> None | Some v \<Rightarrow> map_option (\<lambda>vs. v # vs) (all_some xs))"

definition load_hex_words :: "string \<Rightarrow> int list option" where
  "load_hex_words text =
     map_option words_bytes
       (all_some (map (int_of_text 16) (filter (\<lambda>l. l \<noteq> []) (map py_strip (py_split text)))))"

lemma all_some_map: "all_some (map Some xs) = Some xs"
  by (induction xs) simp_all

lemma load_hex_lemma:
  assumes "words_ok ws"
  shows "load_hex_words (to_hex_lines ws) = Some (words_bytes ws)"
proof -
  have line: "fmt_x 8 w \<noteq> []" "list_all (\<lambda>c. \<not> py_isspace c) (fmt_x 8 w)" "int_of_text 16 (fmt_x 8 w) = Some w"
    if "w \<in> set ws" for w
  proof -
    have w: "0 \<le> w" "w < 2 ^ 32"
      using assms that by (auto simp: words_ok_def list_all_iff)
    note h = hex_line [OF w]
    show ne: "fmt_x 8 w \<noteq> []" using h(1) by auto
    show "list_all (\<lambda>c. \<not> py_isspace c) (fmt_x 8 w)"
      using h(2) digit_plain(2) [of 16] by (auto simp: list_all_iff)
    show "int_of_text 16 (fmt_x 8 w) = Some w"
      using int_of_digits [OF ne h(2)] py_int_digits [OF ne h(2)] h(3) by simp
  qed
  have split: "py_split (to_hex_lines ws) = map (fmt_x 8) ws"
    using split_lines [of "map (fmt_x 8) ws"] line(1,2) by (simp add: to_hex_lines_def comp_def list_all_iff)
  have "map (int_of_text 16) (filter (\<lambda>l. l \<noteq> []) (map py_strip (map (fmt_x 8) ws))) = map Some ws"
    using line by (induction ws) (simp_all add: strip_plain)
  then show ?thesis
    unfolding load_hex_words_def split by (simp add: all_some_map)
qed

text \<open>An error \<open>assemble\<close> locates: the number and the text of a line of the source.\<close>

definition located_error :: "string \<Rightarrow> int \<Rightarrow> bool" where
  "located_error text tb \<longleftrightarrow> (\<exists>i m. i < length (py_splitlines text) \<and>
     assemble text tb None = Inl (AsmError (int i + 1) m (py_splitlines text ! i)))"

lemma assemble_outcome:
  obtains words where "assemble text tb None = Inr words" "\<not> located_error text tb"
      "load_hex_words (to_hex_lines words) = Some (words_bytes words)"
  | l m s where "assemble text tb None = Inl (AsmError l m s)" "located_error text tb"
  | "assemble text tb None = Inl (PyValueError ''negative shift count'')" "\<not> located_error text tb"
proof (cases "assemble text tb None")
  case (Inl e)
  then have "e = PyValueError ''negative shift count'' \<or>
      (\<exists>i m. i < length (py_splitlines text) \<and> e = AsmError (int i + 1) m (py_splitlines text ! i))"
    by (rule assemble_errors_lemma)
  with Inl that(2,3) show thesis by (auto simp: located_error_def)
next
  case (Inr words)
  with that(1) load_hex_lemma [OF assemble_words_ok [OF Inr]] show thesis
    by (simp add: located_error_def)
qed

text \<open>C37. The command line, outcome by outcome. It writes a file exactly when \<open>--base\<close> is an integer, the source can be
  read, it assembles and the output can be written; then it returns 0, and the test bench reads the file as the bytes
  of the assembled words. It returns 1 exactly for an error located in the source. An exception escapes exactly for a
  source that is not text, for the negative shift count of a negative \<open>.align\<close>, and for an output that cannot be
  written. So the process ends with 0 exactly when a file was written, with 2 exactly when \<open>--base\<close> is no integer or
  reading the source failed, and with 1 exactly for a located error or an escaped exception, which its status does
  not tell apart.\<close>

theorem cli_contract:
  "(\<forall>code file. cli read_text can_write source output base = Returned code (Some file) \<longleftrightarrow> code = 0 \<and>
      (\<exists>tb text words. cli_base base = Some tb \<and> read_text source = Source_text text \<and>
         assemble text tb None = Inr words \<and> can_write output \<and> file = (output, to_hex_lines words) \<and>
         load_hex_words (to_hex_lines words) = Some (words_bytes words))) \<and>
   (cli read_text can_write source output base = Returned 1 None \<longleftrightarrow>
      (\<exists>tb text. cli_base base = Some tb \<and> read_text source = Source_text text \<and> located_error text tb)) \<and>
   (\<forall>e. cli read_text can_write source output base = Uncaught e \<longleftrightarrow> (\<exists>tb. cli_base base = Some tb \<and>
      (read_text source = Not_text \<and> e = Unicode_error \<or>
       (\<exists>text. read_text source = Source_text text \<and>
          (assemble text tb None = Inl (PyValueError ''negative shift count'') \<and>
             e = Asm_exn (PyValueError ''negative shift count'') \<or>
           \<not> isl (assemble text tb None) \<and> \<not> can_write output \<and> e = Write_failed))))) \<and>
   (exit_status (cli read_text can_write source output base) = 0 \<longleftrightarrow>
      (\<exists>file. cli read_text can_write source output base = Returned 0 (Some file))) \<and>
   (exit_status (cli read_text can_write source output base) = 2 \<longleftrightarrow>
      cli_base base = None \<or> read_text source = Read_failed) \<and>
   (exit_status (cli read_text can_write source output base) = 1 \<longleftrightarrow>
      cli read_text can_write source output base = Returned 1 None \<or>
      (\<exists>e. cli read_text can_write source output base = Uncaught e))"
proof (cases "cli_base base")
  case None
  then show ?thesis by (simp add: cli_def)
next
  case (Some tb)
  note tb = this
  show ?thesis
  proof (cases "read_text source")
    case (Source_text src)
    show ?thesis
      by (rule assemble_outcome [of src tb]) (cases "can_write output"; auto simp: cli_def tb Source_text)+
  qed (auto simp: cli_def tb)
qed

end
