(* ===== verification/Clocked.thy ===== *)
theory Clocked
  imports Main
begin

text \<open>The loop of the cocotb harnesses: clock edges until an output is seen after one, up to a limit.\<close>

text \<open>The number of edges and the state, or \<open>None\<close> when the limit is reached.\<close>

fun wait_edges :: "('s \<Rightarrow> 's) \<Rightarrow> ('s \<Rightarrow> bool) \<Rightarrow> nat \<Rightarrow> 's \<Rightarrow> (nat \<times> 's) option" where
  "wait_edges edge seen 0 s = None"
| "wait_edges edge seen (Suc n) s =
     (let s' = edge s in
      if seen s' then Some (1, s')
      else (case wait_edges edge seen n s' of None \<Rightarrow> None | Some (cycles, t) \<Rightarrow> Some (cycles + 1, t)))"

lemma wait_edges_at:
  assumes "\<forall>i. 0 < i \<longrightarrow> i < m \<longrightarrow> \<not> seen ((edge ^^ i) s)" "seen ((edge ^^ m) s)" "0 < m" "m \<le> n"
  shows "wait_edges edge seen n s = Some (m, (edge ^^ m) s)"
  using assms
proof (induction n arbitrary: s m)
  case (Suc n)
  show ?case
  proof (cases "m = 1")
    case False
    then obtain l where l: "m = Suc l" "0 < l" using Suc.prems(3) by (cases m) auto
    have "\<not> seen (edge s)"
      using Suc.prems(1) l by (auto dest: spec [of _ 1])
    moreover have "\<forall>i. 0 < i \<longrightarrow> i < l \<longrightarrow> \<not> seen ((edge ^^ i) (edge s))"
    proof (intro allI impI)
      fix i assume "0 < i" "i < l"
      with Suc.prems(1) l show "\<not> seen ((edge ^^ i) (edge s))"
        by (auto simp: funpow_swap1 dest: spec [of _ "Suc i"])
    qed
    ultimately show ?thesis
      using Suc.IH [of l "edge s"] Suc.prems(2,4) l by (simp add: Let_def funpow_swap1)
  qed (use Suc.prems in \<open>simp add: Let_def\<close>)
qed simp

lemma wait_edges_none:
  "\<forall>i. 0 < i \<longrightarrow> i \<le> n \<longrightarrow> \<not> seen ((edge ^^ i) s) \<Longrightarrow> wait_edges edge seen n s = None"
proof (induction n arbitrary: s)
  case (Suc n)
  have "\<not> seen (edge s)"
    using Suc.prems by (auto dest: spec [of _ 1])
  moreover have "\<forall>i. 0 < i \<longrightarrow> i \<le> n \<longrightarrow> \<not> seen ((edge ^^ i) (edge s))"
  proof (intro allI impI)
    fix i assume "0 < i" "i \<le> n"
    with Suc.prems show "\<not> seen ((edge ^^ i) (edge s))"
      by (auto simp: funpow_swap1 dest: spec [of _ "Suc i"])
  qed
  ultimately show ?case
    using Suc.IH by (simp add: Let_def)
qed simp

end
