(* ===== verification/Tb_Top.thy ===== *)
theory Tb_Top
  imports Core_Boot Asm_Cli Clocked
begin

text \<open>
  \<open>tb/top/test_top.py\<close>: the end-to-end test of the core against the emulator, from the hex file to the
  register comparison, and the program \<open>tb/top/smoke.s\<close> it runs. What the clock, the reset sequence
  and the simulator do is the function \<open>core_cycle\<close>; the test starts in a core after reset.
\<close>

section \<open>The test\<close>

definition MAX_CYCLES :: nat where "MAX_CYCLES = 1000"

definition run_emulator :: "int list \<Rightarrow> emu_exn + string \<times> cpu" where
  "run_emulator img =
     (case RV32I_init (64 * 1024) 0 0x80001000 False of
        Inl e \<Rightarrow> Inl e
      | Inr c0 \<Rightarrow>
          (case load_program img (Some 0) (c0\<lparr>pc := 0\<rparr>) of
             Inl e \<Rightarrow> Inl e
           | Inr c \<Rightarrow> (case run 100000 c of (Inl e, _) \<Rightarrow> Inl e | (Inr reason, d) \<Rightarrow> Inr (reason, d))))"

definition rtl_reg :: "core \<Rightarrow> nat \<Rightarrow> int" where
  "rtl_reg k i = (if i = 0 then 0 else uint (xregs k ! i))"

text \<open>The output \<open>halted\<close> of \<open>top\<close>, and the loop that waits for it after each rising edge.\<close>

definition core_halted :: "core \<Rightarrow> bool" where
  "core_halted k \<longleftrightarrow> halted_q k \<or> halt_now k"

definition wait_halted :: "nat \<Rightarrow> core \<Rightarrow> core option" where
  "wait_halted n k = map_option snd (wait_edges core_cycle core_halted n k)"

text \<open>The outcome of the test: a failed assertion, an exception of another kind, or a pass.\<close>

datatype tb_result = TB_PASS | TB_ASSERT string | TB_RAISE

definition smoke_lockstep :: "string \<Rightarrow> core \<Rightarrow> tb_result" where
  "smoke_lockstep hex dut =
     (case load_hex_words hex of
        None \<Rightarrow> TB_RAISE
      | Some img \<Rightarrow>
          (case run_emulator img of
             Inl e \<Rightarrow> TB_RAISE
           | Inr (reason, cpu) \<Rightarrow>
               if reason \<noteq> ''ecall'' then TB_ASSERT ''emulator did not halt on ecall''
               else (case wait_halted MAX_CYCLES dut of
                       None \<Rightarrow> TB_ASSERT ''RTL did not halt''
                     | Some k \<Rightarrow>
                         if k_cause k \<noteq> HALT_ECALL then TB_ASSERT ''halt cause''
                         else if list_all (\<lambda>i. rtl_reg k i = u32 (regs cpu ! i)) [0..<32] then TB_PASS
                         else TB_ASSERT ''register mismatch'')))"

section \<open>Waiting\<close>

text \<open>Before its last cycle a guarded run does not raise \<open>halted\<close>; in it the core raises it with the cause.\<close>

lemma guarded_halted:
  assumes "emu_core.guarded c k (Suc m) d" "lockstep c k" "halted d"
  shows "i < m \<Longrightarrow> \<not> core_halted ((core_cycle ^^ i) k)"
    "core_halted ((core_cycle ^^ m) k)" "k_cause ((core_cycle ^^ m) k) = cause_of d"
proof -
  note cyc = guarded_cycles [OF assms(1,2)]
  show "\<not> core_halted ((core_cycle ^^ i) k)" if "i < m"
    using cyc(2) [of i] cyc(2) [of "Suc i"] that by (simp add: core_halted_def core_cycle_def)
  show c: "k_cause ((core_cycle ^^ m) k) = cause_of d"
    using cyc(3) by simp
  have "halted_q ((core_cycle ^^ Suc m) k)"
    using cyc(1) assms(3) by (simp add: lockstep_def)
  then show "core_halted ((core_cycle ^^ m) k)"
    by (simp add: core_halted_def core_cycle_def)
qed

text \<open>An ECALL writes no register.\<close>

lemma ecall_keeps_regs: "k_cause k = HALT_ECALL \<Longrightarrow> xregs (core_cycle k) = xregs k"
  by (auto simp: k_cause_def is_system0_def core_cycle_def rf_write_def k_ctrl_def decode_def nop_ctrl_def Let_def
      split: if_splits)

section \<open>Programs that pass\<close>

lemma run_emulator_bare:
  assumes "run 100000 (grow (replicate z 0) (bare_cpu words)) = (Inr reason, d)" "4 * length words + z \<le> 65536"
  shows "\<exists>e. run_emulator (words_bytes words) = Inr (reason, grow e d)"
proof -
  define e where "e = replicate (65536 - (4 * length words + z)) (0 :: int)"
  have z: "replicate (65536 - nat (4 * int (length words))) (0 :: int) = replicate z 0 @ e"
    using assms(2) by (simp add: e_def flip: replicate_add)
  have "run_emulator (words_bytes words) =
      (case run 100000 (grow e (grow (replicate z 0) (bare_cpu words))) of (Inl e, _) \<Rightarrow> Inl e | (Inr reason, d) \<Rightarrow> Inr (reason, d))"
    using assms(2)
    by (simp add: run_emulator_def RV32I_init_def load_program_def bare_cpu_def grow_def z del: replicate.simps)
  with run_grow [OF assms(1), of e] show ?thesis by auto
qed

lemma smoke_outcome_lemma:
  assumes "assemble source 0 None = Inr words" "length words \<le> IMEM_WORDS" "4 * length words + z \<le> 4 * DMEM_WORDS"
    and "run 100000 (grow (replicate z 0) (bare_cpu words)) = (Inr ''ecall'', d)"
    and "stays_in words 100000 (grow (replicate z 0) (bare_cpu words))"
  shows "smoke_lockstep (to_hex_lines words) (core_boot words) =
    (if steps d = 1 then TB_ASSERT ''halt cause''
     else if steps d \<le> 1001 then TB_PASS
     else TB_ASSERT ''RTL did not halt'')"
proof -
  let ?b = "grow (replicate z 0) (bare_cpu words)" and ?k = "core_boot words"
  define e where "e = replicate (4 * DMEM_WORDS - (4 * length words + z)) (0 :: int)"
  have ok: "words_ok words"
    by (rule assemble_words_ok [OF assms(1)])
  have "replicate (4 * (DMEM_WORDS - length words)) (0 :: int) = replicate z 0 @ e"
    using assms(3) by (simp add: e_def diff_mult_distrib2 flip: replicate_add)
  then have grow: "grow (replicate (4 * (DMEM_WORDS - length words)) 0) (bare_cpu words) = grow e ?b"
    by (simp add: grow_def)
  have ls: "lockstep (grow e ?b) ?k"
    using boot_lockstep [of words] assms(3) by (simp add: grow)
  obtain m where m: "steps (grow e d) = steps (grow e ?b) + int m" "emu_core.guarded (grow e ?b) ?k m (grow e d)"
    using run_guarded [OF run_grow [OF assms(4), of e] stays_in_grow [OF assms(5)] ls boot_rom [OF assms(2) ok]] by blast
  have halted: "halted (grow e d)" "halt_reason (grow e d) = Some ''ecall''"
    using run_ecall_halted [OF assms(4)] by simp_all
  have "m \<noteq> 0"
  proof
    assume "m = 0"
    with m(2) have "grow e d = grow e ?b" by (auto elim: emu_core.guarded_zeroE)
    with halted(1) have "halted (grow e ?b)" by simp
    then show False by (simp add: bare_cpu_def)
  qed
  then obtain l where l: "m = Suc l" by (cases m) auto
  have steps: "steps d = int l + 1"
    using m(1) l by (simp add: bare_cpu_def)
  note g = guarded_halted [OF m(2) [unfolded l] ls halted(1)]
  obtain e' where emu: "run_emulator (words_bytes words) = Inr (''ecall'', grow e' d)"
    using run_emulator_bare [OF assms(4)] assms(3) by (auto simp: DMEM_WORDS_def)
  have test: "smoke_lockstep (to_hex_lines words) ?k =
      (case wait_halted MAX_CYCLES ?k of
         None \<Rightarrow> TB_ASSERT ''RTL did not halt''
       | Some k \<Rightarrow>
           if k_cause k \<noteq> HALT_ECALL then TB_ASSERT ''halt cause''
           else if list_all (\<lambda>i. rtl_reg k i = u32 (regs (grow e' d) ! i)) [0..<32] then TB_PASS
           else TB_ASSERT ''register mismatch'')"
    using load_hex_lemma [OF ok] emu by (simp add: smoke_lockstep_def)
  have cause: "k_cause ((core_cycle ^^ l) ?k) = HALT_ECALL"
    using g(3) halted by (simp add: cause_of_def)
  consider "l = 0" | "0 < l" "l \<le> MAX_CYCLES" | "MAX_CYCLES < l"
    by linarith
  then show ?thesis
  proof cases
    case 1
    with cause have h: "halted_q (core_cycle ?k)"
      by (simp add: core_cycle_def halt_now_def)
    have "wait_halted MAX_CYCLES ?k = Some ((core_cycle ^^ 1) ?k)"
      unfolding wait_halted_def
      by (subst wait_edges_at [of 1]) (use h in \<open>auto simp: core_halted_def MAX_CYCLES_def\<close>)
    moreover have "k_cause (core_cycle ?k) = HALT_NONE"
      using h by (simp add: k_cause_def)
    ultimately show ?thesis
      using 1 steps by (simp add: test)
  next
    case 2
    have wait: "wait_halted MAX_CYCLES ?k = Some ((core_cycle ^^ l) ?k)"
      unfolding wait_halted_def
      by (subst wait_edges_at [of l]) (use g(1,2) 2 in auto)
    have end_state: "lockstep (grow e d) ((core_cycle ^^ Suc l) ?k)"
      using guarded_cycles(1) [OF m(2) ls] by (simp only: l)
    have "rtl_reg ((core_cycle ^^ l) ?k) i = u32 (regs d ! i)" if "i < 32" for i
    proof -
      have "r (grow e d) (int i) = uint (rf_read (xregs ((core_cycle ^^ l) ?k)) (int i))"
        using lockstep_regs [OF end_state, of "int i"] ecall_keeps_regs [OF cause] that by (simp add: reg_ok_def)
      moreover have "regs d ! 0 = 0" "word_ok (regs d ! i)"
        using steps_to_wf [OF run_reaches [OF assms(4)] bare_wf] that by (simp_all add: wf_cpu_def list_all_length)
      ultimately show ?thesis
        by (auto simp: rtl_reg_def rf_read_def r_def u32_id word_ok_def)
    qed
    with wait cause steps 2 show ?thesis
      by (simp add: test list_all_iff MAX_CYCLES_def)
  next
    case 3
    then have "wait_halted MAX_CYCLES ?k = None"
      unfolding wait_halted_def
      by (subst wait_edges_none) (use g(1) in auto)
    with steps 3 show ?thesis by (simp add: test MAX_CYCLES_def)
  qed
qed

text \<open>C7. What the end-to-end test says of an assembled program that the emulator runs to its ECALL without
  leaving it: it passes when the program takes from 2 to 1001 instructions. A program whose first
  instruction is the ECALL fails the check of the halt cause, because the test samples the cause after a clock edge and
  \<open>top\<close> holds it only during the cycle of the ECALL; a longer one exceeds the cycle limit.\<close>

theorem smoke_outcome:
  assumes "assemble source 0 None = Inr words" "length words \<le> IMEM_WORDS" "4 * length words + z \<le> 4 * DMEM_WORDS"
    and "run 100000 (grow (replicate z 0) (bare_cpu words)) = (Inr ''ecall'', d)"
    and "stays_in words 100000 (grow (replicate z 0) (bare_cpu words))"
  shows "smoke_lockstep (to_hex_lines words) (core_boot words) =
    (if steps d = 1 then TB_ASSERT ''halt cause''
     else if steps d \<le> 1001 then TB_PASS
     else TB_ASSERT ''RTL did not halt'')"
  by (rule smoke_outcome_lemma [OF assms])

section \<open>The program\<close>

definition SMOKE :: string where
  "SMOKE = py_lines
    [''# top.sv smoke program.'',
     ''#'',
     ''# Exercises a spread of instruction types end to end and halts on'',
     ''# ECALL so the testbench sees a clean stop. The reference emulator is'',
     ''# the oracle: the test runs this same image on the emulator and the'',
     ''# RTL and compares the final register file. Expected (for a human'',
     ''# reading along): a0=5 a1=3 a2=8 a3=2 a4=42 a5=8 t0=3 t1=3.'',
     ''#'',
     ''# Data address note: I store to 0x400, well past this program's code'',
     ''# (about 0x44 bytes). The reference emulator uses ONE unified memory,'',
     ''# so a store into the code region would overwrite an instruction and'',
     ''# diverge from the RTL (which has separate imem/dmem). Keeping data'',
     ''# clear of code is the rule for every hand-written lockstep program.'',
     '''',
     ''    li   a0, 5'',
     ''    li   a1, 3'',
     ''    add  a2, a0, a1       # 8'',
     ''    sub  a3, a0, a1       # 2'',
     ''    beq  a0, a1, skip     # not taken (5 != 3)'',
     ''    addi a4, zero, 42     # reached: a4 = 42'',
     ''skip:'',
     ''    sw   a2, 0x400(zero)  # mem[0x400] = 8'',
     ''    lw   a5, 0x400(zero)  # a5 = 8 (load path)'',
     ''    li   t0, 0'',
     ''    li   t1, 3'',
     ''loop:'',
     ''    addi t0, t0, 1        # count up'',
     ''    blt  t0, t1, loop     # taken backward branch while t0 < 3'',
     ''    ecall                 # halt'']"

end
