(* ===== verification/Core_Witnesses.thy ===== *)
theory Core_Witnesses
  imports Tb_Top
begin

text \<open>
  The theorems on the core, the test bench and the assembled words at concrete programs: the gcd
  benchmark and \<open>tb/top/smoke.s\<close>.
\<close>

section \<open>The gcd benchmark\<close>

definition gcd_start :: cpu where
  "gcd_start = grow (replicate (4 * (DMEM_WORDS - length GCD_WORDS)) 0) (bare_cpu GCD_WORDS)"

lemma gcd_words_ok: "words_ok GCD_WORDS" "length GCD_WORDS \<le> IMEM_WORDS" "length GCD_WORDS \<le> DMEM_WORDS"
  by (simp_all add: words_ok_def GCD_WORDS_def IMEM_WORDS_def DMEM_WORDS_def)

lemma gcd_lockstep: "lockstep gcd_start (core_boot GCD_WORDS)"
  unfolding gcd_start_def by (rule boot_lockstep [OF gcd_words_ok(3)])

lemma gcd_start_stays: "stays_in GCD_WORDS 500000 gcd_start"
  unfolding gcd_start_def by (rule stays_in_grow [OF gcd_stays])

lemma gcd_start_run: "\<exists>d. run 500000 gcd_start = (Inr ''ecall'', d)"
proof -
  obtain d where "run 500000 (bare_cpu GCD_WORDS) = (Inr ''ecall'', d)"
    using gcd_ends by (auto simp: ends_with_def split: prod.splits sum.splits)
  from run_grow [OF this] show ?thesis
    unfolding gcd_start_def by blast
qed

lemma gcd_start_zero: "\<not> halted gcd_start" "steps gcd_start = 0"
  by (simp_all add: gcd_start_def bare_cpu_def)

theorem core_refines_emulator_witness:
  "\<exists>d m. run 500000 gcd_start = (Inr ''ecall'', d) \<and> steps d = int m \<and>
     lockstep d ((core_cycle ^^ m) (core_boot GCD_WORDS)) \<and>
     (\<forall>i < m. \<not> halted_q ((core_cycle ^^ i) (core_boot GCD_WORDS)))"
proof -
  obtain d where d: "run 500000 gcd_start = (Inr ''ecall'', d)"
    using gcd_start_run by blast
  from core_refines_emulator [OF gcd_lockstep boot_rom [OF gcd_words_ok(2,1)] gcd_start_stays d] d show ?thesis
    by (auto simp: gcd_start_zero)
qed

theorem lockstep_step_witness:
  "\<exists>t c'. step gcd_start = (Inr t, c') \<and> lockstep c' (core_cycle (core_boot GCD_WORDS)) \<and>
     k_cause (core_boot GCD_WORDS) = cause_of c'"
proof -
  obtain t c' where st: "step gcd_start = (Inr t, c')" and at: "at_word GCD_WORDS gcd_start"
    using gcd_start_stays gcd_start_zero
    by (auto simp: stays_in.simps [of GCD_WORDS 500000 gcd_start] split: if_splits prod.splits sum.splits)
  have "same_fetch gcd_start (core_boot GCD_WORDS)"
    by (rule at_word_fetch [OF gcd_lockstep boot_rom [OF gcd_words_ok(2,1)] at])
  with lockstep_step [OF gcd_lockstep _ _ st] st show ?thesis
    by (auto simp: same_fetch_def)
qed

theorem boot_in_lockstep_witness:
  "\<exists>c0 c. RV32I_init (4 * int DMEM_WORDS) 0 0x80001000 False = Inr c0 \<and>
     load_program (words_bytes GCD_WORDS) (Some 0) (c0\<lparr>pc := 0\<rparr>) = Inr c \<and> lockstep c (core_boot GCD_WORDS)"
proof -
  obtain c0 where c0: "RV32I_init (4 * int DMEM_WORDS) 0 0x80001000 False = Inr c0"
      "mem_base c0 = 0" "length (mem c0) = 4 * DMEM_WORDS"
    by (auto simp: RV32I_init_def DMEM_WORDS_def simp del: replicate.simps)
  then obtain c where c: "load_program (words_bytes GCD_WORDS) (Some 0) (c0\<lparr>pc := 0\<rparr>) = Inr c"
    using gcd_words_ok(3) by (auto simp: load_program_def Let_def)
  from boot_in_lockstep [OF c0(1) c] c0(1) c show ?thesis by blast
qed

theorem assembled_words_bounded_witness:
  "assemble GCD_SRC 0 None = Inr GCD_WORDS \<and> list_all (\<lambda>w. 0 \<le> w \<and> w < 2 ^ 32) GCD_WORDS \<and>
     length (to_hex_lines GCD_WORDS) = 9 * length GCD_WORDS"
  using assembled_words_bounded [OF gcd_assembled] gcd_assembled by blast

section \<open>The smoke program\<close>

definition SMOKE_WORDS :: "int list" where
  "SMOKE_WORDS =
    [5244179, 19, 3147155, 19, 11863603, 1085605555, 11863139, 44042003, 1086332963, 1073751939,
     659, 19, 3146515, 19, 1213075, 4267888355, 115]"

lemma smoke_assembled: "assemble SMOKE 0 None = Inr SMOKE_WORDS"
proof -
  have "flat_program SMOKE 0 = Some SMOKE_WORDS" by code_simp
  then show ?thesis by (rule assemble_flat_lemma) simp
qed

text \<open>The program stores at \<open>0x400\<close>: 960 bytes behind its 68 are enough.\<close>

definition smoke_start :: cpu where
  "smoke_start = grow (replicate 960 0) (bare_cpu SMOKE_WORDS)"

definition ends_after :: "int \<Rightarrow> cpu \<Rightarrow> bool" where
  "ends_after n c = (case run 100000 c of (Inr reason, d) \<Rightarrow> reason = ''ecall'' \<and> steps d = n | _ \<Rightarrow> False)"

lemma smoke_run: "ends_after 21 smoke_start"
  by code_simp

lemma smoke_stays: "stays_in SMOKE_WORDS 100000 smoke_start"
  by code_simp

theorem smoke_outcome_witness:
  "assemble SMOKE 0 None = Inr SMOKE_WORDS \<and>
   smoke_lockstep (to_hex_lines SMOKE_WORDS) (core_boot SMOKE_WORDS) = TB_PASS"
proof -
  obtain d where d: "run 100000 smoke_start = (Inr ''ecall'', d)" "steps d = 21"
    using smoke_run by (auto simp: ends_after_def split: prod.splits sum.splits)
  have len: "length SMOKE_WORDS \<le> IMEM_WORDS" "4 * length SMOKE_WORDS + 960 \<le> 4 * DMEM_WORDS"
    by (simp_all add: SMOKE_WORDS_def IMEM_WORDS_def DMEM_WORDS_def)
  show ?thesis
    using smoke_outcome [OF smoke_assembled len d(1) [unfolded smoke_start_def] smoke_stays [unfolded smoke_start_def]]
      smoke_assembled d(2) by simp
qed

end
