(* ===== verification/Rtl_Pipeline.thy ===== *)
theory Rtl_Pipeline
  imports Rtl_Core
begin

text \<open>
  The five-stage core: the pipeline registers (\<open>rtl/if_id_reg.sv\<close>, \<open>rtl/id_ex_reg.sv\<close>, \<open>rtl/ex_mem_reg.sv\<close>,
  \<open>rtl/mem_wb_reg.sv\<close>), \<open>rtl/hazard_unit.sv\<close>, \<open>rtl/forwarding_unit.sv\<close> and the stages of
  \<open>rtl/top_pipeline.sv\<close>, with the default parameters. A wire is a function of the flip-flops and memories,
  \<open>p_cycle\<close> the clock edge with \<open>rst\<close> low. Decoder, ALU, branch unit, immediate generator and the
  memories are those of the single-cycle core.
\<close>

section \<open>Pipeline registers\<close>

record if_id =
  d_pc :: u32w
  d_pc4 :: u32w
  d_inst :: u32w

record id_ex =
  x_ctrl :: control
  x_pc :: u32w
  x_pc4 :: u32w
  x_rs1_val :: u32w
  x_rs2_val :: u32w
  x_imm :: u32w
  x_rs1_idx :: int
  x_rs2_idx :: int
  x_rd_idx :: int

record ex_mem =
  m_ctrl :: control
  m_alu_y :: u32w
  m_rs2_val :: u32w
  m_rd_idx :: int
  m_pc4 :: u32w

record mem_wb =
  w_ctrl :: control
  w_alu_y :: u32w
  w_mem_rdata :: u32w
  w_rd_idx :: int
  w_pc4 :: u32w

text \<open>All four modules hold, load or flush; flushing wins.\<close>

definition stage_reg :: "bool \<Rightarrow> bool \<Rightarrow> 'a \<Rightarrow> 'a \<Rightarrow> 'a \<Rightarrow> 'a" where
  "stage_reg en flush bubble new old = (if flush then bubble else if en then new else old)"

definition NOP_INST :: u32w where "NOP_INST = 0x00000013"

text \<open>The control bundle \<open>'0\<close>.\<close>

definition bubble_ctrl :: control where
  "bubble_ctrl = \<lparr>ct_reg_write = False, ct_wb_src = WB_ALU, ct_mem_read = False, ct_mem_write = False,
     ct_mem_size = MEM_B, ct_mem_unsigned = False, ct_alu_op = ALU_ADD, ct_alu_src_a = ALU_A_RS1,
     ct_alu_src_b = ALU_B_RS2, ct_branch_op = BR_NONE, ct_jalr = False, ct_illegal = False\<rparr>"

definition if_id_bubble :: if_id where
  "if_id_bubble = \<lparr>d_pc = 0, d_pc4 = 0, d_inst = NOP_INST\<rparr>"

definition id_ex_bubble :: id_ex where
  "id_ex_bubble = \<lparr>x_ctrl = bubble_ctrl, x_pc = 0, x_pc4 = 0, x_rs1_val = 0, x_rs2_val = 0, x_imm = 0,
     x_rs1_idx = 0, x_rs2_idx = 0, x_rd_idx = 0\<rparr>"

definition ex_mem_bubble :: ex_mem where
  "ex_mem_bubble = \<lparr>m_ctrl = bubble_ctrl, m_alu_y = 0, m_rs2_val = 0, m_rd_idx = 0, m_pc4 = 0\<rparr>"

definition mem_wb_bubble :: mem_wb where
  "mem_wb_bubble = \<lparr>w_ctrl = bubble_ctrl, w_alu_y = 0, w_mem_rdata = 0, w_rd_idx = 0, w_pc4 = 0\<rparr>"

section \<open>\<open>rtl/hazard_unit.sv\<close>, \<open>rtl/forwarding_unit.sv\<close>\<close>

definition reads_rs1 :: "int \<Rightarrow> bool" where
  "reads_rs1 op \<longleftrightarrow> op \<in> {Opcode_value OP_REG, Opcode_value OP_STORE, Opcode_value OP_BRANCH, Opcode_value OP_IMM,
     Opcode_value OP_LOAD, Opcode_value OP_JALR}"

definition reads_rs2 :: "int \<Rightarrow> bool" where
  "reads_rs2 op \<longleftrightarrow> op \<in> {Opcode_value OP_REG, Opcode_value OP_STORE, Opcode_value OP_BRANCH}"

definition hazard_unit :: "bool \<Rightarrow> int \<Rightarrow> int \<Rightarrow> int \<Rightarrow> int \<Rightarrow> bool" where
  "hazard_unit ex_mem_read ex_rd id_opcode id_rs1 id_rs2 \<longleftrightarrow>
     (let hit_rs1 = reads_rs1 id_opcode \<and> ex_rd = id_rs1;
          hit_rs2 = reads_rs2 id_opcode \<and> ex_rd = id_rs2
      in ex_mem_read \<and> ex_rd \<noteq> 0 \<and> (hit_rs1 \<or> hit_rs2))"

definition FWD_NONE :: int where "FWD_NONE = 0"
definition FWD_EXMEM :: int where "FWD_EXMEM = 1"
definition FWD_MEMWB :: int where "FWD_MEMWB = 2"

definition forward_pick :: "bool \<Rightarrow> int \<Rightarrow> bool \<Rightarrow> int \<Rightarrow> int \<Rightarrow> int" where
  "forward_pick ex_mem_reg_write ex_mem_rd mem_wb_reg_write mem_wb_rd rs =
     (if ex_mem_reg_write \<and> ex_mem_rd \<noteq> 0 \<and> ex_mem_rd = rs then FWD_EXMEM
      else if mem_wb_reg_write \<and> mem_wb_rd \<noteq> 0 \<and> mem_wb_rd = rs then FWD_MEMWB
      else FWD_NONE)"

section \<open>\<open>rtl/top_pipeline.sv\<close>\<close>

record pipe =
  p_pc :: u32w
  p_imem :: "u32w list"
  p_id :: if_id
  p_xregs :: "u32w list"
  p_ex :: id_ex
  p_mem :: ex_mem
  p_dmem :: "u32w list"
  p_wb :: mem_wb
  ex_hc :: halt_cause
  mem_hc_carried :: halt_cause
  wb_hc :: halt_cause
  p_halted_q :: bool
  p_tohost_value :: u32w

definition p_halted :: "pipe \<Rightarrow> bool" where
  "p_halted p \<longleftrightarrow> wb_hc p \<noteq> HALT_NONE \<or> p_halted_q p"

subsection \<open>WB\<close>

definition wb_value :: "mem_wb \<Rightarrow> u32w" where
  "wb_value w = (case ct_wb_src (w_ctrl w) of WB_ALU \<Rightarrow> w_alu_y w | WB_MEM \<Rightarrow> w_mem_rdata w | WB_PC4 \<Rightarrow> w_pc4 w)"

definition wb_we :: "pipe \<Rightarrow> bool" where
  "wb_we p \<longleftrightarrow> ct_reg_write (w_ctrl (p_wb p)) \<and> \<not> p_halted p"

subsection \<open>MEM\<close>

definition mem_access :: "pipe \<Rightarrow> control" where
  "mem_access p = (m_ctrl (p_mem p))\<lparr>ct_mem_write := ct_mem_write (m_ctrl (p_mem p)) \<and> \<not> p_halted p\<rparr>"

definition mem_word :: "pipe \<Rightarrow> u32w" where
  "mem_word p = p_dmem p ! dmem_idx (m_alu_y (p_mem p))"

definition mem_rdata :: "pipe \<Rightarrow> u32w" where
  "mem_rdata p = dmem_read (mem_access p) (m_alu_y (p_mem p)) (mem_word p)"

definition p_tohost_we :: "pipe \<Rightarrow> bool" where
  "p_tohost_we p \<longleftrightarrow> ct_mem_write (mem_access p) \<and> m_alu_y (p_mem p) = TOHOST_ADDR"

definition p_dmem_next :: "pipe \<Rightarrow> u32w list" where
  "p_dmem_next p =
     (if ct_mem_write (mem_access p) \<and> \<not> is_mmio (m_alu_y (p_mem p)) \<and> \<not> dmem_misaligned (mem_access p) (m_alu_y (p_mem p))
      then (p_dmem p)[dmem_idx (m_alu_y (p_mem p)) :=
              next_word (mem_access p) (m_alu_y (p_mem p)) (m_rs2_val (p_mem p)) (mem_word p)]
      else p_dmem p)"

definition mem_hc :: "pipe \<Rightarrow> halt_cause" where
  "mem_hc p =
     (if dmem_misaligned (mem_access p) (m_alu_y (p_mem p)) then HALT_MISALIGNED
      else if p_tohost_we p then HALT_TOHOST
      else mem_hc_carried p)"

definition mem_wb_value :: "pipe \<Rightarrow> u32w" where
  "mem_wb_value p =
     (case ct_wb_src (m_ctrl (p_mem p)) of
        WB_MEM \<Rightarrow> mem_rdata p
      | WB_PC4 \<Rightarrow> m_pc4 (p_mem p)
      | WB_ALU \<Rightarrow> m_alu_y (p_mem p))"

subsection \<open>EX\<close>

definition mem_fwd_value :: "pipe \<Rightarrow> u32w" where
  "mem_fwd_value p = (if ct_wb_src (m_ctrl (p_mem p)) = WB_PC4 then m_pc4 (p_mem p) else m_alu_y (p_mem p))"

definition ex_forward :: "pipe \<Rightarrow> int \<Rightarrow> u32w \<Rightarrow> u32w" where
  "ex_forward p idx val =
     (let fwd = forward_pick (ct_reg_write (m_ctrl (p_mem p))) (m_rd_idx (p_mem p))
                  (ct_reg_write (w_ctrl (p_wb p))) (w_rd_idx (p_wb p)) idx
      in if fwd = FWD_EXMEM then mem_fwd_value p
         else if fwd = FWD_MEMWB then wb_value (p_wb p)
         else val)"

definition ex_rs1_fwd :: "pipe \<Rightarrow> u32w" where
  "ex_rs1_fwd p = ex_forward p (x_rs1_idx (p_ex p)) (x_rs1_val (p_ex p))"

definition ex_rs2_fwd :: "pipe \<Rightarrow> u32w" where
  "ex_rs2_fwd p = ex_forward p (x_rs2_idx (p_ex p)) (x_rs2_val (p_ex p))"

definition ex_alu_y :: "pipe \<Rightarrow> u32w" where
  "ex_alu_y p =
     (let ct = x_ctrl (p_ex p);
          alu_a = (if ct_alu_src_a ct = ALU_A_PC then x_pc (p_ex p) else ex_rs1_fwd p);
          alu_b = (if ct_alu_src_b ct = ALU_B_IMM then x_imm (p_ex p) else ex_rs2_fwd p)
      in rtl_alu (ct_alu_op ct) alu_a alu_b)"

subsection \<open>ID\<close>

definition id_ctrl :: "pipe \<Rightarrow> control" where
  "id_ctrl p = decode (d_inst (p_id p))"

definition id_rs1_idx :: "pipe \<Rightarrow> int" where "id_rs1_idx p = sv_field 19 15 (d_inst (p_id p))"
definition id_rs2_idx :: "pipe \<Rightarrow> int" where "id_rs2_idx p = sv_field 24 20 (d_inst (p_id p))"
definition id_rd_idx :: "pipe \<Rightarrow> int" where "id_rd_idx p = sv_field 11 7 (d_inst (p_id p))"

definition id_imm :: "pipe \<Rightarrow> u32w" where
  "id_imm p = rtl_imm (sv_field 6 0 (d_inst (p_id p))) (d_inst (p_id p))"

text \<open>A read port of the register file with \<open>WRITE_FIRST\<close>.\<close>

definition id_read :: "pipe \<Rightarrow> int \<Rightarrow> u32w" where
  "id_read p i =
     (if i = 0 then 0
      else if wb_we p \<and> w_rd_idx (p_wb p) = i then wb_value (p_wb p)
      else p_xregs p ! nat i)"

definition id_system0 :: "pipe \<Rightarrow> int \<Rightarrow> bool" where
  "id_system0 p f12 \<longleftrightarrow> sv_field 6 0 (d_inst (p_id p)) = Opcode_value OP_SYSTEM \<and>
     sv_field 14 12 (d_inst (p_id p)) = 0 \<and> sv_field 31 20 (d_inst (p_id p)) = f12"

definition id_hc :: "pipe \<Rightarrow> halt_cause" where
  "id_hc p =
     (if ct_illegal (id_ctrl p) then HALT_ILLEGAL
      else if id_system0 p F12_ECALL then HALT_ECALL
      else if id_system0 p F12_EBREAK then HALT_EBREAK
      else HALT_NONE)"

definition id_is_cond_branch :: "pipe \<Rightarrow> bool" where
  "id_is_cond_branch p \<longleftrightarrow> ct_branch_op (id_ctrl p) \<noteq> BR_NONE \<and> ct_branch_op (id_ctrl p) \<noteq> BR_JUMP"

definition id_is_jalr :: "pipe \<Rightarrow> bool" where
  "id_is_jalr p \<longleftrightarrow> ct_branch_op (id_ctrl p) = BR_JUMP \<and> ct_jalr (id_ctrl p)"

definition id_compare :: "pipe \<Rightarrow> int \<Rightarrow> u32w" where
  "id_compare p i =
     (if ct_reg_write (m_ctrl (p_mem p)) \<and> m_rd_idx (p_mem p) \<noteq> 0 \<and> m_rd_idx (p_mem p) = i
      then mem_wb_value p else id_read p i)"

definition branch_stall :: "pipe \<Rightarrow> bool" where
  "branch_stall p \<longleftrightarrow> ct_reg_write (x_ctrl (p_ex p)) \<and> x_rd_idx (p_ex p) \<noteq> 0 \<and>
     ((id_is_cond_branch p \<or> id_is_jalr p) \<and> x_rd_idx (p_ex p) = id_rs1_idx p \<or>
      id_is_cond_branch p \<and> x_rd_idx (p_ex p) = id_rs2_idx p)"

definition load_use_stall :: "pipe \<Rightarrow> bool" where
  "load_use_stall p = hazard_unit (ct_mem_read (x_ctrl (p_ex p))) (x_rd_idx (p_ex p))
     (sv_field 6 0 (d_inst (p_id p))) (id_rs1_idx p) (id_rs2_idx p)"

definition p_stall :: "pipe \<Rightarrow> bool" where
  "p_stall p \<longleftrightarrow> load_use_stall p \<or> branch_stall p"

definition id_taken :: "pipe \<Rightarrow> bool" where
  "id_taken p = rtl_taken (ct_branch_op (id_ctrl p)) (id_compare p (id_rs1_idx p)) (id_compare p (id_rs2_idx p))"

definition id_target :: "pipe \<Rightarrow> u32w" where
  "id_target p =
     (if ct_jalr (id_ctrl p) then (id_compare p (id_rs1_idx p) + id_imm p) AND NOT 1
      else d_pc (p_id p) + id_imm p)"

definition id_redirect :: "pipe \<Rightarrow> bool" where
  "id_redirect p \<longleftrightarrow> id_taken p \<and> \<not> p_stall p"

subsection \<open>IF and the clock edge\<close>

definition if_inst :: "pipe \<Rightarrow> u32w" where
  "if_inst p = p_imem p ! nat (sv_field 11 2 (p_pc p))"

definition pipe_en :: "pipe \<Rightarrow> bool" where "pipe_en p \<longleftrightarrow> \<not> p_halted p"
definition front_en :: "pipe \<Rightarrow> bool" where "front_en p \<longleftrightarrow> \<not> p_halted p \<and> \<not> p_stall p"

definition p_cycle :: "pipe \<Rightarrow> pipe" where
  "p_cycle p =
     p\<lparr>p_pc := (if front_en p then (if id_redirect p then id_target p else p_pc p + 4) else p_pc p),
       p_id := stage_reg (front_en p) (id_redirect p) if_id_bubble
                 \<lparr>d_pc = p_pc p, d_pc4 = p_pc p + 4, d_inst = if_inst p\<rparr> (p_id p),
       p_xregs := rf_write (wb_we p) (w_rd_idx (p_wb p)) (wb_value (p_wb p)) (p_xregs p),
       p_ex := stage_reg (pipe_en p) (p_stall p) id_ex_bubble
                 \<lparr>x_ctrl = id_ctrl p, x_pc = d_pc (p_id p), x_pc4 = d_pc4 (p_id p),
                  x_rs1_val = id_read p (id_rs1_idx p), x_rs2_val = id_read p (id_rs2_idx p), x_imm = id_imm p,
                  x_rs1_idx = id_rs1_idx p, x_rs2_idx = id_rs2_idx p, x_rd_idx = id_rd_idx p\<rparr> (p_ex p),
       p_mem := stage_reg (pipe_en p) False ex_mem_bubble
                 \<lparr>m_ctrl = x_ctrl (p_ex p), m_alu_y = ex_alu_y p, m_rs2_val = ex_rs2_fwd p,
                  m_rd_idx = x_rd_idx (p_ex p), m_pc4 = x_pc4 (p_ex p)\<rparr> (p_mem p),
       p_dmem := p_dmem_next p,
       p_wb := stage_reg (pipe_en p) False mem_wb_bubble
                 \<lparr>w_ctrl = m_ctrl (p_mem p), w_alu_y = m_alu_y (p_mem p), w_mem_rdata = mem_rdata p,
                  w_rd_idx = m_rd_idx (p_mem p), w_pc4 = m_pc4 (p_mem p)\<rparr> (p_wb p),
       ex_hc := (if pipe_en p then (if p_stall p then HALT_NONE else id_hc p) else ex_hc p),
       mem_hc_carried := (if pipe_en p then ex_hc p else mem_hc_carried p),
       wb_hc := (if pipe_en p then mem_hc p else wb_hc p),
       p_halted_q := (p_halted p \<or> p_halted_q p),
       p_tohost_value := (if p_tohost_we p \<and> \<not> p_halted p then m_rs2_val (p_mem p) else p_tohost_value p)\<rparr>"

text \<open>The state after a reset edge; the memories are not reset.\<close>

definition p_reset :: "pipe \<Rightarrow> pipe" where
  "p_reset p =
     p\<lparr>p_pc := 0, p_id := if_id_bubble, p_xregs := replicate 32 0, p_ex := id_ex_bubble, p_mem := ex_mem_bubble,
       p_wb := mem_wb_bubble, ex_hc := HALT_NONE, mem_hc_carried := HALT_NONE, wb_hc := HALT_NONE,
       p_halted_q := False, p_tohost_value := 0\<rparr>"

end
