(* ===== verification/Pipe_Inv.thy ===== *)
theory Pipe_Inv
  imports Rtl_Pipeline Lockstep
begin

text \<open>
  What the stages of the pipeline hold, in terms of the single-cycle core: the instructions in flight are
  consecutive instructions of the core that ignores halts, and every latched value a later stage uses is
  the core's value for that instruction.
\<close>

section \<open>The core that ignores halts\<close>

definition free :: "core \<Rightarrow> core" where
  "free k = (core_cycle k)\<lparr>halted_q := False\<rparr>"

definition adv :: "bool \<Rightarrow> core \<Rightarrow> core" where
  "adv v k = (if v then free k else k)"

abbreviation k_rd :: "core \<Rightarrow> int" where
  "k_rd k \<equiv> sv_field 11 7 (k_inst k)"

abbreviation k_op :: "core \<Rightarrow> int" where
  "k_op k \<equiv> sv_field 6 0 (k_inst k)"

lemma adv_simps [simp]: "adv True k = free k" "adv False k = k"
  by (simp_all add: adv_def)

lemma free_halted [simp]: "halted_q (free k) = False"
  by (simp add: free_def)

lemma adv_halted [simp]: "\<not> halted_q k \<Longrightarrow> \<not> halted_q (adv v k)"
  by (cases v) simp_all

lemma free_imem [simp]: "imem (free k) = imem k"
  by (simp add: free_def core_cycle_def)

lemma adv_imem [simp]: "imem (adv v k) = imem k"
  by (cases v) simp_all

lemma free_length [simp]: "length (xregs (free k)) = length (xregs k)"
  by (simp add: free_def core_cycle_def rf_write_def)

lemma adv_length [simp]: "length (xregs (adv v k)) = length (xregs k)"
  by (cases v) simp_all

lemma free_parts:
  assumes "\<not> halted_q k"
  shows "k_pc (free k) = next_pc_mux k" "dmem (free k) = dmem_next k"
    "xregs (free k) = rf_write (ct_reg_write (k_ctrl k)) (k_rd k) (wb_data k) (xregs k)"
  using assms by (simp_all add: free_def core_cycle_def)

lemma dmem_ctrl_running: "\<not> halted_q k \<Longrightarrow> dmem_ctrl k = k_ctrl k"
  by (simp add: dmem_ctrl_def)

lemma field_reg_ok [simp]: "reg_ok (sv_field 19 15 w)" "reg_ok (sv_field 24 20 w)" "reg_ok (sv_field 11 7 w)"
  by (simp_all add: sv_fields)

text \<open>What an instruction leaves in a register.\<close>

definition writes :: "core \<Rightarrow> int \<Rightarrow> bool" where
  "writes k i \<longleftrightarrow> ct_reg_write (k_ctrl k) \<and> k_rd k = i \<and> i \<noteq> 0"

lemma free_read:
  assumes "\<not> halted_q k" "length (xregs k) = 32" "reg_ok i"
  shows "rf_read (xregs (free k)) i = (if writes k i then wb_data k else rf_read (xregs k) i)"
  using assms by (auto simp: free_parts rf_read_write writes_def)

section \<open>What the decoder guarantees\<close>

text \<open>Whether the ALU result of an instruction reaches the memory or the register file.\<close>

definition uses_alu :: "control \<Rightarrow> bool" where
  "uses_alu ct \<longleftrightarrow> ct_mem_read ct \<or> ct_mem_write ct \<or> ct_reg_write ct \<and> ct_wb_src ct = WB_ALU"

lemmas decode_defs = decode_def dec_branch_def dec_load_def dec_store_def nop_ctrl_def Let_def

lemma decode_no_access:
  "ct_illegal (decode i) \<Longrightarrow> \<not> ct_mem_read (decode i) \<and> \<not> ct_mem_write (decode i)"
  "ct_mem_read (decode i) \<or> ct_mem_write (decode i) \<Longrightarrow> sv_field 6 0 i \<noteq> Opcode_value OP_SYSTEM"
  by (auto simp: decode_defs split: if_splits option.splits)

lemma decode_load:
  "ct_reg_write (decode i) \<Longrightarrow> ct_wb_src (decode i) = WB_MEM \<longleftrightarrow> ct_mem_read (decode i)"
  by (auto simp: decode_defs split: if_splits option.splits)

lemma decode_reads:
  "uses_alu (decode i) \<Longrightarrow> ct_alu_src_a (decode i) \<noteq> ALU_A_PC \<Longrightarrow> ct_alu_op (decode i) \<noteq> ALU_PASS_B \<Longrightarrow> reads_rs1 (sv_field 6 0 i)"
  "uses_alu (decode i) \<Longrightarrow> ct_alu_src_b (decode i) \<noteq> ALU_B_IMM \<Longrightarrow> reads_rs2 (sv_field 6 0 i)"
  "ct_mem_write (decode i) \<Longrightarrow> reads_rs2 (sv_field 6 0 i)"
  by (auto simp: decode_defs uses_alu_def reads_rs1_def reads_rs2_def split: if_splits option.splits)

lemma decode_jump:
  "ct_branch_op (decode i) \<noteq> BR_NONE \<Longrightarrow> ct_alu_op (decode i) = ALU_ADD \<and> ct_alu_src_b (decode i) = ALU_B_IMM \<and>
     (if ct_jalr (decode i) then ct_alu_src_a (decode i) = ALU_A_RS1 \<and> ct_branch_op (decode i) = BR_JUMP
      else ct_alu_src_a (decode i) = ALU_A_PC)"
  by (auto simp: decode_defs split: if_splits option.splits)

lemma nop_decoded:
  "decode NOP_INST = nop_ctrl\<lparr>ct_reg_write := True, ct_alu_src_b := ALU_B_IMM\<rparr>" "sv_field 11 7 NOP_INST = 0"
  "sv_field 19 15 NOP_INST = 0" "sv_field 24 20 NOP_INST = 0" "sv_field 6 0 NOP_INST = Opcode_value OP_IMM"
  by code_simp+

text \<open>The halt cause an instruction carries from ID, and the whole cause.\<close>

definition id_cause :: "core \<Rightarrow> halt_cause" where
  "id_cause k =
     (if ct_illegal (k_ctrl k) then HALT_ILLEGAL
      else if is_system0 k F12_ECALL then HALT_ECALL
      else if is_system0 k F12_EBREAK then HALT_EBREAK
      else HALT_NONE)"

lemma k_cause_stages:
  assumes "\<not> halted_q k"
  shows "k_cause k =
    (if dmem_misaligned (k_ctrl k) (alu_y k) then HALT_MISALIGNED
     else if ct_mem_write (k_ctrl k) \<and> alu_y k = TOHOST_ADDR then HALT_TOHOST
     else id_cause k)"
  using assms decode_no_access [of "k_inst k"]
  by (auto simp: k_cause_def id_cause_def tohost_we_def dmem_ctrl_running k_ctrl_def is_system0_def dmem_misaligned_def)

section \<open>What a stage holds\<close>

text \<open>
  The flag tells whether the stage holds an instruction of the core or a bubble: a word of zeros, or the NOP
  that a redirect left in IF/ID.
\<close>

definition wb_ok :: "bool \<Rightarrow> core \<Rightarrow> pipe \<Rightarrow> bool" where
  "wb_ok v k p \<longleftrightarrow>
     (if v then w_ctrl (p_wb p) = k_ctrl k \<and> w_rd_idx (p_wb p) = k_rd k \<and>
        (ct_reg_write (k_ctrl k) \<longrightarrow> wb_value (p_wb p) = wb_data k) \<and> wb_hc p = k_cause k \<and>
        (k_cause k = HALT_TOHOST \<longrightarrow> p_tohost_value p = k_rs2 k)
      else (ct_reg_write (w_ctrl (p_wb p)) \<longrightarrow> w_rd_idx (p_wb p) = 0) \<and> wb_hc p = HALT_NONE)"

definition mem_ok :: "bool \<Rightarrow> core \<Rightarrow> pipe \<Rightarrow> bool" where
  "mem_ok v k p \<longleftrightarrow>
     (if v then m_ctrl (p_mem p) = k_ctrl k \<and> m_rd_idx (p_mem p) = k_rd k \<and> m_pc4 (p_mem p) = k_pc k + 4 \<and>
        (uses_alu (k_ctrl k) \<longrightarrow> m_alu_y (p_mem p) = alu_y k) \<and>
        (ct_mem_write (k_ctrl k) \<longrightarrow> m_rs2_val (p_mem p) = k_rs2 k) \<and> mem_hc_carried p = id_cause k
      else (ct_reg_write (m_ctrl (p_mem p)) \<longrightarrow> m_rd_idx (p_mem p) = 0) \<and> \<not> ct_mem_read (m_ctrl (p_mem p)) \<and>
        \<not> ct_mem_write (m_ctrl (p_mem p)) \<and> mem_hc_carried p = HALT_NONE)"

text \<open>No instruction is in EX while the load it needs is in MEM.\<close>

definition no_load_use :: "core \<Rightarrow> pipe \<Rightarrow> bool" where
  "no_load_use k p \<longleftrightarrow>
     (ct_mem_read (m_ctrl (p_mem p)) \<and> m_rd_idx (p_mem p) \<noteq> 0 \<longrightarrow>
        (reads_rs1 (k_op k) \<longrightarrow> m_rd_idx (p_mem p) \<noteq> x_rs1_idx (p_ex p)) \<and>
        (reads_rs2 (k_op k) \<longrightarrow> m_rd_idx (p_mem p) \<noteq> x_rs2_idx (p_ex p)))"

definition ex_ok :: "bool \<Rightarrow> core \<Rightarrow> pipe \<Rightarrow> bool" where
  "ex_ok v k p \<longleftrightarrow>
     (if v then x_ctrl (p_ex p) = k_ctrl k \<and> x_pc (p_ex p) = k_pc k \<and> x_pc4 (p_ex p) = k_pc k + 4 \<and>
        x_imm (p_ex p) = k_imm k \<and> x_rd_idx (p_ex p) = k_rd k \<and>
        x_rs1_idx (p_ex p) = sv_field 19 15 (k_inst k) \<and> x_rs2_idx (p_ex p) = sv_field 24 20 (k_inst k) \<and>
        x_rs1_val (p_ex p) = rf_read (p_xregs p) (x_rs1_idx (p_ex p)) \<and>
        x_rs2_val (p_ex p) = rf_read (p_xregs p) (x_rs2_idx (p_ex p)) \<and> ex_hc p = id_cause k \<and> no_load_use k p
      else (ct_reg_write (x_ctrl (p_ex p)) \<longrightarrow> x_rd_idx (p_ex p) = 0) \<and> \<not> ct_mem_read (x_ctrl (p_ex p)) \<and>
        \<not> ct_mem_write (x_ctrl (p_ex p)) \<and> ex_hc p = HALT_NONE)"

definition id_ok :: "bool \<Rightarrow> core \<Rightarrow> pipe \<Rightarrow> bool" where
  "id_ok v k p \<longleftrightarrow>
     (if v then d_pc (p_id p) = k_pc k \<and> d_pc4 (p_id p) = k_pc k + 4 \<and> d_inst (p_id p) = k_inst k \<and>
        p_pc p = k_pc k + 4
      else d_inst (p_id p) = NOP_INST \<and> p_pc p = k_pc k)"

text \<open>
  The invariant: \<open>k\<close> is the core before the instruction in WB; the register file is that of \<open>k\<close>, the data
  memory the one after the instruction in WB.
\<close>

record slots =
  in_wb :: bool
  in_mem :: bool
  in_ex :: bool
  in_id :: bool

definition at_mem :: "slots \<Rightarrow> core \<Rightarrow> core" where "at_mem g k = adv (in_wb g) k"
definition at_ex :: "slots \<Rightarrow> core \<Rightarrow> core" where "at_ex g k = adv (in_mem g) (at_mem g k)"
definition at_id :: "slots \<Rightarrow> core \<Rightarrow> core" where "at_id g k = adv (in_ex g) (at_ex g k)"

definition pipe_inv :: "slots \<Rightarrow> core \<Rightarrow> pipe \<Rightarrow> bool" where
  "pipe_inv g k p \<longleftrightarrow>
     \<not> halted_q k \<and> \<not> p_halted_q p \<and> length (xregs k) = 32 \<and> p_imem p = imem k \<and> p_xregs p = xregs k \<and>
     p_dmem p = dmem (at_mem g k) \<and> wb_ok (in_wb g) k p \<and> mem_ok (in_mem g) (at_mem g k) p \<and>
     ex_ok (in_ex g) (at_ex g k) p \<and> id_ok (in_id g) (at_id g k) p"

end
