(* ===== verification/Pipe_Step.thy ===== *)
theory Pipe_Step
  imports Pipe_Inv
begin

text \<open>
  One clock edge of the pipeline keeps the invariant: stage by stage, the instruction moves on, a stall
  leaves a bubble behind in EX, a redirect one in ID.
\<close>

section \<open>WB: the register file\<close>

lemma inv_running:
  assumes "pipe_inv g k p"
  shows "\<not> halted_q k" "\<not> halted_q (at_mem g k)" "\<not> halted_q (at_ex g k)" "\<not> halted_q (at_id g k)"
    "length (xregs k) = 32" "length (xregs (at_mem g k)) = 32" "length (xregs (at_ex g k)) = 32"
  using assms by (simp_all add: pipe_inv_def at_mem_def at_ex_def at_id_def)

lemma wb_regs:
  assumes "pipe_inv g k p" "\<not> p_halted p"
  shows "p_xregs (p_cycle p) = xregs (at_mem g k)"
proof (cases "in_wb g")
  case True
  with assms show ?thesis
    by (auto simp: p_cycle_def pipe_inv_def wb_ok_def at_mem_def free_parts wb_we_def rf_write_def)
next
  case False
  with assms show ?thesis
    by (auto simp: p_cycle_def pipe_inv_def wb_ok_def at_mem_def wb_we_def rf_write_def)
qed

lemma wb_writes:
  assumes "pipe_inv g k p" "\<not> p_halted p" "i \<noteq> 0"
  shows "wb_we p \<and> w_rd_idx (p_wb p) = i \<longleftrightarrow> in_wb g \<and> writes k i"
    "in_wb g \<Longrightarrow> writes k i \<Longrightarrow> wb_value (p_wb p) = wb_data k"
  using assms by (auto simp: pipe_inv_def wb_ok_def writes_def wb_we_def split: if_splits)

lemma id_read_mem:
  assumes "pipe_inv g k p" "\<not> p_halted p" "reg_ok i"
  shows "id_read p i = rf_read (xregs (at_mem g k)) i"
proof -
  note run = inv_running [OF assms(1)]
  have eq: "p_xregs p = xregs k" using assms(1) by (simp add: pipe_inv_def)
  show ?thesis
  proof (cases "i = 0")
    case False
    note w = wb_writes [OF assms(1,2) False]
    have "rf_read (xregs (at_mem g k)) i = (if in_wb g \<and> writes k i then wb_data k else rf_read (xregs k) i)"
      using free_read [OF run(1,5) assms(3)] by (auto simp: at_mem_def adv_def)
    with w False eq show ?thesis
      by (auto simp: id_read_def rf_read_def)
  qed (simp add: id_read_def rf_read_def)
qed

section \<open>MEM: the data memory and the values it forwards\<close>

lemma mem_access_running: "\<not> p_halted p \<Longrightarrow> mem_access p = m_ctrl (p_mem p)"
  by (simp add: mem_access_def)

lemma mem_stage:
  assumes "pipe_inv g k p" "\<not> p_halted p" "in_mem g"
  defines "b \<equiv> at_mem g k"
  shows "mem_hc p = k_cause b" "p_dmem_next p = dmem_next b"
    "ct_mem_read (k_ctrl b) \<Longrightarrow> mem_rdata p = dmem_read (k_ctrl b) (alu_y b) (k_word b)"
    "p_tohost_we p \<longleftrightarrow> ct_mem_write (k_ctrl b) \<and> alu_y b = TOHOST_ADDR"
proof -
  have run: "\<not> halted_q b"
    using inv_running(2) [OF assms(1)] by (simp add: b_def)
  have m: "m_ctrl (p_mem p) = k_ctrl b" "uses_alu (k_ctrl b) \<Longrightarrow> m_alu_y (p_mem p) = alu_y b"
      "ct_mem_write (k_ctrl b) \<Longrightarrow> m_rs2_val (p_mem p) = k_rs2 b" "mem_hc_carried p = id_cause b"
      "p_dmem p = dmem b"
    using assms(1,3) by (simp_all add: pipe_inv_def mem_ok_def b_def)
  have acc: "mem_access p = k_ctrl b"
    using assms(2) m(1) by (simp add: mem_access_running)
  have addr: "ct_mem_read (k_ctrl b) \<or> ct_mem_write (k_ctrl b) \<Longrightarrow> m_alu_y (p_mem p) = alu_y b"
    using m(2) by (auto simp: uses_alu_def)
  show th: "p_tohost_we p \<longleftrightarrow> ct_mem_write (k_ctrl b) \<and> alu_y b = TOHOST_ADDR"
    using addr by (auto simp: p_tohost_we_def acc)
  have mis: "dmem_misaligned (k_ctrl b) (m_alu_y (p_mem p)) = dmem_misaligned (k_ctrl b) (alu_y b)"
    using addr by (cases "ct_mem_read (k_ctrl b) \<or> ct_mem_write (k_ctrl b)") (simp_all add: dmem_misaligned_def)
  show "mem_hc p = k_cause b"
    using m(4) th mis by (simp add: mem_hc_def acc k_cause_stages [OF run])
  show "p_dmem_next p = dmem_next b"
    using addr m(3,5) mis
    by (auto simp: p_dmem_next_def dmem_next_def acc dmem_ctrl_running [OF run] mem_word_def k_word_def)
  show "mem_rdata p = dmem_read (k_ctrl b) (alu_y b) (k_word b)" if "ct_mem_read (k_ctrl b)"
    using that addr m(5) by (simp add: mem_rdata_def acc mem_word_def k_word_def)
qed

lemma mem_bubble:
  assumes "pipe_inv g k p" "\<not> p_halted p" "\<not> in_mem g"
  shows "mem_hc p = HALT_NONE" "p_dmem_next p = p_dmem p" "\<not> p_tohost_we p"
  using assms
  by (simp_all add: pipe_inv_def mem_ok_def mem_hc_def mem_access_running dmem_misaligned_def p_tohost_we_def p_dmem_next_def)

lemma mem_memory:
  assumes "pipe_inv g k p" "\<not> p_halted p"
  shows "p_dmem (p_cycle p) = dmem (at_ex g k)"
proof (cases "in_mem g")
  case True
  with mem_stage(2) [OF assms True] inv_running(2) [OF assms(1)] show ?thesis
    by (simp add: p_cycle_def at_ex_def free_parts)
next
  case False
  with mem_bubble(2) [OF assms False] assms(1) show ?thesis
    by (simp add: p_cycle_def at_ex_def pipe_inv_def)
qed

lemma mem_value:
  assumes "pipe_inv g k p" "\<not> p_halted p" "in_mem g" "ct_reg_write (k_ctrl (at_mem g k))"
  shows "mem_wb_value p = wb_data (at_mem g k)"
    "\<not> ct_mem_read (k_ctrl (at_mem g k)) \<Longrightarrow> mem_fwd_value p = wb_data (at_mem g k)"
proof -
  let ?b = "at_mem g k"
  have m: "m_ctrl (p_mem p) = k_ctrl ?b" "uses_alu (k_ctrl ?b) \<Longrightarrow> m_alu_y (p_mem p) = alu_y ?b"
      "m_pc4 (p_mem p) = k_pc ?b + 4"
    using assms(1,3) by (simp_all add: pipe_inv_def mem_ok_def)
  have load: "ct_wb_src (k_ctrl ?b) = WB_MEM \<longleftrightarrow> ct_mem_read (k_ctrl ?b)"
    using decode_load assms(4) by (simp add: k_ctrl_def)
  show "mem_wb_value p = wb_data ?b"
    using m load mem_stage(3) [OF assms(1-3)] assms(4)
    by (cases "ct_wb_src (k_ctrl ?b)") (simp_all add: mem_wb_value_def wb_data_def uses_alu_def)
  show "mem_fwd_value p = wb_data ?b" if "\<not> ct_mem_read (k_ctrl ?b)"
    using m load that assms(4)
    by (cases "ct_wb_src (k_ctrl ?b)") (simp_all add: mem_fwd_value_def wb_data_def uses_alu_def)
qed

lemma mem_writes:
  assumes "pipe_inv g k p" "i \<noteq> 0"
  shows "ct_reg_write (m_ctrl (p_mem p)) \<and> m_rd_idx (p_mem p) = i \<longleftrightarrow> in_mem g \<and> writes (at_mem g k) i"
  using assms by (auto simp: pipe_inv_def mem_ok_def writes_def split: if_splits)

lemma read_at_ex:
  assumes "pipe_inv g k p" "reg_ok i"
  shows "rf_read (xregs (at_ex g k)) i =
    (if in_mem g \<and> writes (at_mem g k) i then wb_data (at_mem g k) else rf_read (xregs (at_mem g k)) i)"
  using free_read [OF inv_running(2,6) [OF assms(1)] assms(2)] by (auto simp: at_ex_def adv_def)

lemma read_at_id:
  assumes "pipe_inv g k p" "reg_ok i"
  shows "rf_read (xregs (at_id g k)) i =
    (if in_ex g \<and> writes (at_ex g k) i then wb_data (at_ex g k) else rf_read (xregs (at_ex g k)) i)"
  using free_read [OF inv_running(3,7) [OF assms(1)] assms(2)] by (auto simp: at_id_def adv_def)

lemma writes_reg_write: "writes k i \<Longrightarrow> ct_reg_write (k_ctrl k)"
  by (simp add: writes_def)

lemma id_compare_ex:
  assumes "pipe_inv g k p" "\<not> p_halted p" "reg_ok i"
  shows "id_compare p i = rf_read (xregs (at_ex g k)) i"
proof (cases "i = 0")
  case True
  then show ?thesis by (auto simp: id_compare_def id_read_def rf_read_def)
next
  case False
  show ?thesis
    using mem_writes [OF assms(1) False] mem_value(1) [OF assms(1,2)] id_read_mem [OF assms] False
      read_at_ex [OF assms(1,3)] writes_reg_write
    by (auto simp: id_compare_def)
qed

section \<open>EX: forwarding\<close>

lemma ex_forward_ex:
  assumes "pipe_inv g k p" "\<not> p_halted p" "reg_ok i" "v = rf_read (p_xregs p) i"
    and "ct_mem_read (m_ctrl (p_mem p)) \<Longrightarrow> m_rd_idx (p_mem p) \<noteq> 0 \<Longrightarrow> m_rd_idx (p_mem p) \<noteq> i"
  shows "ex_forward p i v = rf_read (xregs (at_ex g k)) i"
proof (cases "i = 0")
  case True
  then show ?thesis
    using assms(4) by (auto simp: ex_forward_def forward_pick_def rf_read_def FWD_NONE_def FWD_EXMEM_def FWD_MEMWB_def)
next
  case False
  note run = inv_running [OF assms(1)]
  have x: "p_xregs p = xregs k" and noload: "in_mem g \<Longrightarrow> writes (at_mem g k) i \<Longrightarrow> \<not> ct_mem_read (k_ctrl (at_mem g k))"
    using assms(1,5) False by (auto simp: pipe_inv_def mem_ok_def writes_def)
  have rd: "rf_read (xregs (at_mem g k)) i = (if in_wb g \<and> writes k i then wb_data k else rf_read (xregs k) i)"
    using free_read [OF run(1,5) assms(3)] by (auto simp: at_mem_def adv_def)
  have we: "wb_we p = ct_reg_write (w_ctrl (p_wb p))"
    using assms(2) by (simp add: wb_we_def)
  show ?thesis
    using mem_writes [OF assms(1) False] wb_writes [OF assms(1,2) False] mem_value(2) [OF assms(1,2)] noload
      read_at_ex [OF assms(1,3)] rd x False writes_reg_write assms(4)
    by (auto simp: ex_forward_def forward_pick_def we FWD_NONE_def FWD_EXMEM_def FWD_MEMWB_def)
qed

lemma ex_operands:
  assumes "pipe_inv g k p" "\<not> p_halted p" "in_ex g"
  shows "reads_rs1 (k_op (at_ex g k)) \<Longrightarrow> ex_rs1_fwd p = k_rs1 (at_ex g k)"
    "reads_rs2 (k_op (at_ex g k)) \<Longrightarrow> ex_rs2_fwd p = k_rs2 (at_ex g k)"
proof -
  have ex: "ex_ok True (at_ex g k) p"
    using assms(1,3) by (simp add: pipe_inv_def)
  show "ex_rs1_fwd p = k_rs1 (at_ex g k)" if "reads_rs1 (k_op (at_ex g k))"
    unfolding ex_rs1_fwd_def k_rs1_def
    using ex_forward_ex [OF assms(1,2), of "x_rs1_idx (p_ex p)"] ex that by (auto simp: ex_ok_def no_load_use_def)
  show "ex_rs2_fwd p = k_rs2 (at_ex g k)" if "reads_rs2 (k_op (at_ex g k))"
    unfolding ex_rs2_fwd_def k_rs2_def
    using ex_forward_ex [OF assms(1,2), of "x_rs2_idx (p_ex p)"] ex that by (auto simp: ex_ok_def no_load_use_def)
qed

lemma ex_alu:
  assumes "pipe_inv g k p" "\<not> p_halted p" "in_ex g" "uses_alu (k_ctrl (at_ex g k))"
  shows "ex_alu_y p = alu_y (at_ex g k)"
proof -
  let ?c = "at_ex g k"
  have ex: "x_ctrl (p_ex p) = k_ctrl ?c" "x_pc (p_ex p) = k_pc ?c" "x_imm (p_ex p) = k_imm ?c"
    using assms(1,3) by (simp_all add: pipe_inv_def ex_ok_def)
  have a: "ct_alu_src_a (k_ctrl ?c) \<noteq> ALU_A_PC \<Longrightarrow> ct_alu_op (k_ctrl ?c) \<noteq> ALU_PASS_B \<Longrightarrow> ex_rs1_fwd p = k_rs1 ?c"
    using ex_operands(1) [OF assms(1-3)] decode_reads(1) [of "k_inst ?c"] assms(4) by (simp add: k_ctrl_def)
  have b: "ct_alu_src_b (k_ctrl ?c) \<noteq> ALU_B_IMM \<Longrightarrow> ex_rs2_fwd p = k_rs2 ?c"
    using ex_operands(2) [OF assms(1-3)] decode_reads(2) [of "k_inst ?c"] assms(4) by (simp add: k_ctrl_def)
  show ?thesis
  proof (cases "ct_alu_op (k_ctrl ?c) = ALU_PASS_B")
    case True
    with b ex show ?thesis by (auto simp: ex_alu_y_def alu_y_def Let_def)
  next
    case False
    with a b ex show ?thesis by (auto simp: ex_alu_y_def alu_y_def Let_def)
  qed
qed

section \<open>ID: stalls and redirects\<close>

lemma id_signals:
  assumes "pipe_inv g k p" "in_id g"
  defines "d \<equiv> at_id g k"
  shows "id_ctrl p = k_ctrl d" "id_rs1_idx p = sv_field 19 15 (k_inst d)" "id_rs2_idx p = sv_field 24 20 (k_inst d)"
    "id_rd_idx p = k_rd d" "id_imm p = k_imm d" "id_hc p = id_cause d" "d_pc (p_id p) = k_pc d"
    "d_pc4 (p_id p) = k_pc d + 4" "d_inst (p_id p) = k_inst d" "p_pc p = k_pc d + 4"
  using assms(1,2)
  by (simp_all add: pipe_inv_def id_ok_def d_def id_ctrl_def k_ctrl_def id_rs1_idx_def id_rs2_idx_def id_rd_idx_def
      id_imm_def k_imm_def id_hc_def id_cause_def id_system0_def is_system0_def)

lemma id_nop:
  assumes "pipe_inv g k p" "\<not> in_id g"
  shows "\<not> p_stall p" "\<not> id_redirect p" "id_hc p = HALT_NONE" "id_rd_idx p = 0"
    "\<not> ct_mem_read (id_ctrl p)" "\<not> ct_mem_write (id_ctrl p)" "p_pc p = k_pc (at_id g k)"
  using assms
  by (simp_all add: pipe_inv_def id_ok_def p_stall_def load_use_stall_def hazard_unit_def branch_stall_def
      id_redirect_def id_taken_def id_hc_def id_rd_idx_def id_ctrl_def id_rs1_idx_def id_rs2_idx_def nop_decoded
      id_is_cond_branch_def id_is_jalr_def id_system0_def nop_ctrl_def reads_rs2_def)

lemma no_stall_operand:
  assumes "pipe_inv g k p" "\<not> p_halted p" "reg_ok i"
    and "ct_reg_write (x_ctrl (p_ex p)) \<Longrightarrow> x_rd_idx (p_ex p) \<noteq> 0 \<Longrightarrow> x_rd_idx (p_ex p) \<noteq> i"
  shows "id_compare p i = rf_read (xregs (at_id g k)) i"
proof -
  have "\<not> (in_ex g \<and> writes (at_ex g k) i)"
  proof
    assume w: "in_ex g \<and> writes (at_ex g k) i"
    then have "x_ctrl (p_ex p) = k_ctrl (at_ex g k)" "x_rd_idx (p_ex p) = k_rd (at_ex g k)"
      using assms(1) by (simp_all add: pipe_inv_def ex_ok_def)
    with w assms(4) show False by (simp add: writes_def)
  qed
  with id_compare_ex [OF assms(1-3)] read_at_id [OF assms(1,3)] show ?thesis by simp
qed

lemma id_branch:
  assumes "pipe_inv g k p" "\<not> p_halted p" "in_id g" "\<not> p_stall p"
  defines "d \<equiv> at_id g k"
  shows "id_taken p = k_taken d" "k_taken d \<Longrightarrow> id_target p = next_pc_mux d"
proof -
  note sg = id_signals [OF assms(1,3), folded d_def]
  have nb: "\<not> branch_stall p" using assms(4) by (simp add: p_stall_def)
  have rs1: "id_compare p (id_rs1_idx p) = k_rs1 d" if "id_is_cond_branch p \<or> id_is_jalr p"
    using no_stall_operand [OF assms(1,2), of "id_rs1_idx p"] nb that
    by (auto simp: branch_stall_def sg(2) k_rs1_def d_def)
  have rs2: "id_compare p (id_rs2_idx p) = k_rs2 d" if "id_is_cond_branch p"
    using no_stall_operand [OF assms(1,2), of "id_rs2_idx p"] nb that
    by (auto simp: branch_stall_def sg(3) k_rs2_def d_def)
  show "id_taken p = k_taken d"
  proof (cases "id_is_cond_branch p")
    case True
    with rs1 rs2 show ?thesis by (simp add: id_taken_def k_taken_def sg(1))
  next
    case False
    then consider "ct_branch_op (k_ctrl d) = BR_NONE" | "ct_branch_op (k_ctrl d) = BR_JUMP"
      by (auto simp: id_is_cond_branch_def sg(1))
    then show ?thesis
      by cases (simp_all add: id_taken_def k_taken_def sg(1))
  qed
  show "id_target p = next_pc_mux d" if t: "k_taken d"
  proof -
    have "ct_branch_op (k_ctrl d) \<noteq> BR_NONE"
      using t by (auto simp: k_taken_def)
    then have j: "ct_alu_op (k_ctrl d) = ALU_ADD" "ct_alu_src_b (k_ctrl d) = ALU_B_IMM"
        "if ct_jalr (k_ctrl d) then ct_alu_src_a (k_ctrl d) = ALU_A_RS1 \<and> ct_branch_op (k_ctrl d) = BR_JUMP
         else ct_alu_src_a (k_ctrl d) = ALU_A_PC"
      using decode_jump [of "k_inst d"] by (simp_all add: k_ctrl_def)
    show ?thesis
    proof (cases "ct_jalr (k_ctrl d)")
      case True
      with j(3) have "id_is_jalr p" by (simp add: id_is_jalr_def sg(1))
      with True j t rs1 show ?thesis
        by (simp add: id_target_def next_pc_mux_def alu_y_def Let_def sg(1,5))
    next
      case False
      with j t show ?thesis
        by (simp add: id_target_def next_pc_mux_def alu_y_def Let_def sg(1,5,7))
    qed
  qed
qed

end
