(* ===== verification/Pipe_Refine.thy ===== *)
theory Pipe_Refine
  imports Pipe_Step
begin

text \<open>
  The pipeline refines the single-cycle core: the invariant holds along the run, the pipeline makes
  progress, so it halts when the core does, with the core's registers and memory, after at most three cycles
  per instruction.
\<close>

section \<open>The invariant is kept\<close>

definition next_slots :: "slots \<Rightarrow> pipe \<Rightarrow> slots" where
  "next_slots g p = \<lparr>in_wb = in_mem g, in_mem = in_ex g, in_ex = in_id g \<and> \<not> p_stall p,
     in_id = (if p_stall p then in_id g else \<not> id_redirect p)\<rparr>"

lemma next_slots_at:
  "at_mem (next_slots g p) (at_mem g k) = at_ex g k"
  "at_ex (next_slots g p) (at_mem g k) = at_id g k"
  "at_id (next_slots g p) (at_mem g k) = adv (in_id g \<and> \<not> p_stall p) (at_id g k)"
  by (simp_all add: next_slots_def at_mem_def at_ex_def at_id_def)

lemma step_wb:
  assumes "pipe_inv g k p" "\<not> p_halted p"
  shows "wb_ok (in_mem g) (at_mem g k) (p_cycle p)"
proof (cases "in_mem g")
  case True
  let ?b = "at_mem g k"
  note st = mem_stage [OF assms True]
  have m: "m_ctrl (p_mem p) = k_ctrl ?b" "m_rd_idx (p_mem p) = k_rd ?b"
      "ct_mem_write (k_ctrl ?b) \<Longrightarrow> m_rs2_val (p_mem p) = k_rs2 ?b"
    using assms(1) True by (simp_all add: pipe_inv_def mem_ok_def)
  have wb: "p_wb (p_cycle p) = \<lparr>w_ctrl = m_ctrl (p_mem p), w_alu_y = m_alu_y (p_mem p), w_mem_rdata = mem_rdata p,
      w_rd_idx = m_rd_idx (p_mem p), w_pc4 = m_pc4 (p_mem p)\<rparr>" "wb_hc (p_cycle p) = mem_hc p"
      "p_tohost_value (p_cycle p) = (if p_tohost_we p then m_rs2_val (p_mem p) else p_tohost_value p)"
    using assms(2) by (simp_all add: p_cycle_def stage_reg_def pipe_en_def)
  have val: "wb_value (p_wb (p_cycle p)) = mem_wb_value p"
    by (simp add: wb_value_def mem_wb_value_def wb split: WbSrc.splits)
  have "k_cause ?b = HALT_TOHOST \<Longrightarrow> ct_mem_write (k_ctrl ?b) \<and> alu_y ?b = TOHOST_ADDR"
    by (auto simp: k_cause_stages [OF inv_running(2) [OF assms(1)]] id_cause_def split: if_splits)
  with m st mem_value(1) [OF assms True] val wb True show ?thesis
    by (simp add: wb_ok_def)
next
  case False
  with assms mem_bubble(1) [OF assms False] show ?thesis
    by (simp add: wb_ok_def p_cycle_def stage_reg_def pipe_en_def pipe_inv_def mem_ok_def)
qed

lemma step_mem:
  assumes "pipe_inv g k p" "\<not> p_halted p"
  shows "mem_ok (in_ex g) (at_ex g k) (p_cycle p)"
proof (cases "in_ex g")
  case True
  have "ct_mem_write (k_ctrl (at_ex g k)) \<Longrightarrow> ex_rs2_fwd p = k_rs2 (at_ex g k)"
    using ex_operands(2) [OF assms True] decode_reads(3) by (simp add: k_ctrl_def)
  with assms True ex_alu [OF assms True] show ?thesis
    by (simp add: mem_ok_def p_cycle_def stage_reg_def pipe_en_def pipe_inv_def ex_ok_def)
next
  case False
  with assms show ?thesis
    by (simp add: mem_ok_def p_cycle_def stage_reg_def pipe_en_def pipe_inv_def ex_ok_def)
qed

lemma step_ex:
  assumes "pipe_inv g k p" "\<not> p_halted p"
  shows "ex_ok (in_id g \<and> \<not> p_stall p) (at_id g k) (p_cycle p)"
proof (cases "p_stall p")
  case True
  with assms(2) show ?thesis
    by (simp add: ex_ok_def p_cycle_def stage_reg_def pipe_en_def id_ex_bubble_def bubble_ctrl_def)
next
  case False
  note ns = this
  show ?thesis
  proof (cases "in_id g")
    case True
    note sg = id_signals [OF assms(1) True]
    have rd: "id_read p i = rf_read (p_xregs (p_cycle p)) i" if "reg_ok i" for i
      using id_read_mem [OF assms that] wb_regs [OF assms] by simp
    have haz: "\<not> hazard_unit (ct_mem_read (x_ctrl (p_ex p))) (x_rd_idx (p_ex p)) (k_op (at_id g k))
        (id_rs1_idx p) (id_rs2_idx p)"
      using ns by (simp add: p_stall_def load_use_stall_def sg(9))
    have "no_load_use (at_id g k) (p_cycle p)"
      using haz ns assms(2)
      by (auto simp: no_load_use_def hazard_unit_def p_cycle_def stage_reg_def pipe_en_def)
    with True ns assms(2) rd sg show ?thesis
      by (simp add: ex_ok_def p_cycle_def stage_reg_def pipe_en_def)
  next
    case False
    with ns assms(2) id_nop [OF assms(1) False] show ?thesis
      by (simp add: ex_ok_def p_cycle_def stage_reg_def pipe_en_def)
  qed
qed

lemma fetch_next:
  assumes "pipe_inv g k p" "p_pc p = k_pc s" "imem s = imem k"
  shows "if_inst p = k_inst s"
  using assms by (simp add: if_inst_def k_inst_def pipe_inv_def)

lemma step_id:
  assumes "pipe_inv g k p" "\<not> p_halted p"
  shows "id_ok (in_id (next_slots g p)) (adv (in_id g \<and> \<not> p_stall p) (at_id g k)) (p_cycle p)"
proof -
  let ?d = "at_id g k"
  have im: "imem ?d = imem k" "imem (free ?d) = imem k"
    by (simp_all add: at_id_def at_ex_def at_mem_def)
  show ?thesis
  proof (cases "in_id g")
    case True
    note sg = id_signals [OF assms(1) True]
    show ?thesis
    proof (cases "p_stall p")
      case True
      with \<open>in_id g\<close> sg show ?thesis
        by (simp add: id_ok_def next_slots_def p_cycle_def stage_reg_def front_en_def id_redirect_def)
    next
      case False
      note br = id_branch [OF assms \<open>in_id g\<close> False]
      have pc: "k_pc (free ?d) = next_pc_mux ?d"
        using free_parts(1) inv_running(4) [OF assms(1)] by blast
      show ?thesis
      proof (cases "k_taken ?d")
        case True
        with \<open>in_id g\<close> False br pc assms(2) show ?thesis
          by (simp add: id_ok_def next_slots_def p_cycle_def stage_reg_def front_en_def id_redirect_def if_id_bubble_def)
      next
        case False
        then have "k_pc (free ?d) = k_pc ?d + 4"
          by (simp add: pc next_pc_mux_def)
        with \<open>in_id g\<close> \<open>\<not> p_stall p\<close> False br sg(10) fetch_next [OF assms(1) _ im(2)] assms(2) show ?thesis
          by (simp add: id_ok_def next_slots_def p_cycle_def stage_reg_def front_en_def id_redirect_def)
      qed
    qed
  next
    case False
    with id_nop [OF assms(1) False] fetch_next [OF assms(1) _ im(1)] assms(2) show ?thesis
      by (simp add: id_ok_def next_slots_def p_cycle_def stage_reg_def front_en_def)
  qed
qed

lemma pipe_inv_step:
  assumes "pipe_inv g k p" "\<not> p_halted p"
  shows "pipe_inv (next_slots g p) (at_mem g k) (p_cycle p)"
proof -
  have "in_wb (next_slots g p) = in_mem g" "in_mem (next_slots g p) = in_ex g"
      "in_ex (next_slots g p) = (in_id g \<and> \<not> p_stall p)"
    by (simp_all add: next_slots_def)
  moreover have "p_imem (p_cycle p) = imem (at_mem g k)" "\<not> p_halted_q (p_cycle p)"
    using assms by (simp_all add: p_cycle_def pipe_inv_def at_mem_def p_halted_def)
  ultimately show ?thesis
    using inv_running(2,6) [OF assms(1)] wb_regs [OF assms] mem_memory [OF assms] step_wb [OF assms] step_mem [OF assms]
      step_ex [OF assms] step_id [OF assms]
    by (simp add: pipe_inv_def next_slots_at)
qed

section \<open>Progress\<close>

text \<open>
  The number of instructions that have reached EX counts three times, and an instruction in ID counts for
  the cycles it may still wait there: every cycle adds at least one.
\<close>

definition potential :: "slots \<Rightarrow> nat \<Rightarrow> nat" where
  "potential g a = 3 * (a + of_bool (in_wb g) + of_bool (in_mem g) + of_bool (in_ex g)) +
     (if in_id g then (if in_ex g then 1 else 2) else 0)"

lemma stall_needs_ex:
  assumes "pipe_inv g k p" "p_stall p"
  shows "in_id g" "in_ex g"
proof -
  show "in_id g" using id_nop(1) [OF assms(1)] assms(2) by blast
  have "ct_mem_read (x_ctrl (p_ex p)) \<or> ct_reg_write (x_ctrl (p_ex p)) \<and> x_rd_idx (p_ex p) \<noteq> 0"
    using assms(2) by (auto simp: p_stall_def load_use_stall_def hazard_unit_def branch_stall_def Let_def)
  then show "in_ex g"
    using assms(1) by (auto simp: pipe_inv_def ex_ok_def split: if_splits)
qed

lemma potential_grows:
  assumes "pipe_inv g k p"
  shows "potential g a < potential (next_slots g p) (a + of_bool (in_wb g))"
proof (cases "p_stall p")
  case True
  with stall_needs_ex [OF assms True] show ?thesis
    by (simp add: potential_def next_slots_def)
next
  case False
  with id_nop(2) [OF assms] show ?thesis
    by (cases "in_id g") (auto simp: potential_def next_slots_def)
qed

text \<open>No stage is reached before its time.\<close>

definition filled :: "nat \<Rightarrow> slots \<Rightarrow> nat \<Rightarrow> bool" where
  "filled t g a \<longleftrightarrow>
     (let b = a + of_bool (in_wb g); c = b + of_bool (in_mem g); d = c + of_bool (in_ex g); e = d + of_bool (in_id g)
      in b \<le> t - 3 \<and> c \<le> t - 2 \<and> d \<le> t - 1 \<and> e \<le> t)"

lemma filled_step:
  assumes "filled t g a"
  shows "filled (Suc t) (next_slots g p) (a + of_bool (in_wb g))"
  using assms by (auto simp: filled_def next_slots_def Let_def of_bool_def split: if_splits)

section \<open>Runs\<close>

lemma free_core:
  assumes "\<not> halted_q k" "k_cause k = HALT_NONE"
  shows "free k = core_cycle k"
  using assms by (simp add: free_def core_cycle_def halt_now_def)

lemma free_steps:
  assumes "\<not> halted_q k" "\<forall>i < h. k_cause ((core_cycle ^^ i) k) = HALT_NONE" "a \<le> h"
  shows "(free ^^ a) k = (core_cycle ^^ a) k \<and> \<not> halted_q ((core_cycle ^^ a) k)"
  using assms(3)
proof (induction a)
  case (Suc a)
  then have a: "(free ^^ a) k = (core_cycle ^^ a) k" "\<not> halted_q ((core_cycle ^^ a) k)"
      "k_cause ((core_cycle ^^ a) k) = HALT_NONE"
    using assms(2) by auto
  have "(free ^^ Suc a) k = free ((core_cycle ^^ a) k)"
    by (simp add: a(1))
  also have "\<dots> = (core_cycle ^^ Suc a) k"
    by (simp add: free_core [OF a(2,3)])
  finally show ?case
    using free_halted [of "(core_cycle ^^ a) k"] free_core [OF a(2,3)] by simp
qed (use assms(1) in simp)

lemma at_mem_funpow: "at_mem g ((free ^^ a) k) = (free ^^ (a + of_bool (in_wb g))) k"
  by (simp add: at_mem_def adv_def)

text \<open>The state of the pipeline after \<open>t\<close> cycles, as long as it has not halted before.\<close>

lemma pipe_after:
  assumes "pipe_inv \<lparr>in_wb = False, in_mem = False, in_ex = False, in_id = False\<rparr> k p"
    and "\<forall>i < t. \<not> p_halted ((p_cycle ^^ i) p)"
    and "\<forall>i < h. k_cause ((core_cycle ^^ i) k) = HALT_NONE" "k_cause ((core_cycle ^^ h) k) \<noteq> HALT_NONE"
  shows "\<exists>g a. pipe_inv g ((core_cycle ^^ a) k) ((p_cycle ^^ t) p) \<and> a \<le> h \<and> t \<le> potential g a \<and> filled t g a"
  using assms(2)
proof (induction t)
  case 0
  show ?case
    by (rule exI [of _ "\<lparr>in_wb = False, in_mem = False, in_ex = False, in_id = False\<rparr>"], rule exI [of _ 0])
      (use assms(1) in \<open>simp add: filled_def Let_def\<close>)
next
  case (Suc t)
  then obtain g a where ih: "pipe_inv g ((core_cycle ^^ a) k) ((p_cycle ^^ t) p)" "a \<le> h" "t \<le> potential g a" "filled t g a"
    by auto
  have run: "\<not> p_halted ((p_cycle ^^ t) p)"
    using Suc.prems by simp
  have k0: "\<not> halted_q k"
    using assms(1) by (simp add: pipe_inv_def)
  let ?g = "next_slots g ((p_cycle ^^ t) p)" and ?a = "a + of_bool (in_wb g)"
  have le: "?a \<le> h"
  proof (cases "in_wb g")
    case True
    then have "k_cause ((core_cycle ^^ a) k) = HALT_NONE"
      using ih(1) run by (simp add: pipe_inv_def wb_ok_def p_halted_def)
    with assms(4) have "a \<noteq> h" by blast
    with ih(2) True show ?thesis by simp
  qed (use ih(2) in simp)
  have "at_mem g ((core_cycle ^^ a) k) = (core_cycle ^^ ?a) k"
    using at_mem_funpow [of g a k] free_steps [OF k0 assms(3) ih(2)] free_steps [OF k0 assms(3) le] by simp
  then have "pipe_inv ?g ((core_cycle ^^ ?a) k) ((p_cycle ^^ Suc t) p)"
    using pipe_inv_step [OF ih(1) run] by simp
  moreover have "Suc t \<le> potential ?g ?a"
    using potential_grows [OF ih(1), of a] ih(3) by simp
  ultimately show ?case
    using le filled_step [OF ih(4)] by blast
qed

lemma reset_inv:
  assumes "p_imem p = imem k" "p_dmem p = dmem k"
  shows "pipe_inv \<lparr>in_wb = False, in_mem = False, in_ex = False, in_id = False\<rparr> (core_reset k) (p_reset p)"
  using assms
  by (simp add: pipe_inv_def at_mem_def at_ex_def at_id_def wb_ok_def mem_ok_def ex_ok_def id_ok_def core_reset_def
      p_reset_def mem_wb_bubble_def ex_mem_bubble_def id_ex_bubble_def if_id_bubble_def bubble_ctrl_def
      del: replicate.simps)

lemma potential_bound: "potential g a \<le> 3 * a + 11"
  by (simp add: potential_def of_bool_def)

lemma frozen:
  assumes "p_halted p"
  shows "p_halted (p_cycle p)" "wb_hc (p_cycle p) = wb_hc p" "p_xregs (p_cycle p) = p_xregs p"
    "p_dmem (p_cycle p) = p_dmem p" "p_tohost_value (p_cycle p) = p_tohost_value p"
  using assms
  by (auto simp: p_cycle_def p_halted_def pipe_en_def wb_we_def rf_write_def p_dmem_next_def mem_access_def p_tohost_we_def)

text \<open>What the pipeline shows in a state in which it has halted.\<close>

definition pipe_shows :: "core \<Rightarrow> pipe \<Rightarrow> bool" where
  "pipe_shows k q \<longleftrightarrow> p_halted q \<and> wb_hc q = k_cause k \<and> p_xregs q = xregs k \<and> p_dmem q = dmem (core_cycle k) \<and>
     (k_cause k = HALT_TOHOST \<longrightarrow> p_tohost_value q = k_rs2 k)"

lemma pipe_shows_frozen: "pipe_shows k p \<Longrightarrow> pipe_shows k ((p_cycle ^^ n) p)"
  by (induction n) (simp_all add: pipe_shows_def frozen)

lemma pipe_halts:
  assumes "p_imem p = imem k" "p_dmem p = dmem k"
    and "\<forall>i < h. k_cause ((core_cycle ^^ i) (core_reset k)) = HALT_NONE"
    and "k_cause ((core_cycle ^^ h) (core_reset k)) \<noteq> HALT_NONE"
  shows "\<exists>t. h + 4 \<le> t \<and> t \<le> 3 * h + 12 \<and> (\<forall>i < t. \<not> p_halted ((p_cycle ^^ i) (p_reset p))) \<and>
    pipe_shows ((core_cycle ^^ h) (core_reset k)) ((p_cycle ^^ t) (p_reset p))"
proof -
  let ?P = "p_reset p" and ?K = "core_reset k"
  note after = pipe_after [OF reset_inv [OF assms(1,2)] _ assms(3,4)]
  have "\<exists>t \<le> 3 * h + 12. p_halted ((p_cycle ^^ t) ?P)"
  proof (rule ccontr)
    assume "\<not> ?thesis"
    then have "\<forall>i < 3 * h + 12. \<not> p_halted ((p_cycle ^^ i) ?P)" by auto
    from after [OF this] obtain g a where "a \<le> h" "3 * h + 12 \<le> potential g a" by blast
    with potential_bound [of g a] show False by simp
  qed
  then obtain t0 where t0: "t0 \<le> 3 * h + 12" "p_halted ((p_cycle ^^ t0) ?P)" by blast
  define t where "t = (LEAST t. p_halted ((p_cycle ^^ t) ?P))"
  have t: "p_halted ((p_cycle ^^ t) ?P)" "t \<le> 3 * h + 12"
    using LeastI [of "\<lambda>t. p_halted ((p_cycle ^^ t) ?P)", OF t0(2)]
      Least_le [of "\<lambda>t. p_halted ((p_cycle ^^ t) ?P)", OF t0(2)] t0(1) by (simp_all add: t_def)
  have before: "\<forall>i < t. \<not> p_halted ((p_cycle ^^ i) ?P)"
    using not_less_Least by (auto simp: t_def)
  obtain g a where inv: "pipe_inv g ((core_cycle ^^ a) ?K) ((p_cycle ^^ t) ?P)" "a \<le> h" "filled t g a"
    using after [OF before] by blast
  let ?s = "(core_cycle ^^ a) ?K"
  have "wb_hc ((p_cycle ^^ t) ?P) \<noteq> HALT_NONE"
    using t(1) inv(1) by (simp add: p_halted_def pipe_inv_def)
  then have wb: "in_wb g" and hc: "wb_hc ((p_cycle ^^ t) ?P) = k_cause ?s"
    using inv(1) by (auto simp: pipe_inv_def wb_ok_def split: if_splits)
  have "k_cause ?s \<noteq> HALT_NONE"
    using hc \<open>wb_hc _ \<noteq> HALT_NONE\<close> by simp
  with assms(3) inv(2) have a: "a = h"
    by (metis le_neq_implies_less)
  have "dmem (free ?s) = dmem (core_cycle ?s)"
    by (simp add: free_def)
  then have "pipe_shows ?s ((p_cycle ^^ t) ?P)"
    using t(1) hc inv(1) wb by (simp add: pipe_shows_def pipe_inv_def at_mem_def wb_ok_def)
  moreover have "h + 4 \<le> t"
    using inv(3) wb a by (auto simp: filled_def Let_def)
  ultimately show ?thesis
    using before t(2) a by blast
qed

text \<open>C5. The pipeline refines the single-cycle core. When the core, after reset, first halts at
  instruction \<open>h\<close> (counted from 0), the pipeline with the same memories halts too, between \<open>h + 4\<close> and
  \<open>3 * h + 12\<close> cycles after reset and not before, and stays there: it reports the same cause, its registers
  are those before the halting instruction, its data memory and tohost value those after it. Forwarding, stalls
  and flushes do not change a result.\<close>

theorem pipeline_refines_core:
  assumes "p_imem p = imem k" "p_dmem p = dmem k"
    and "\<forall>i < h. k_cause ((core_cycle ^^ i) (core_reset k)) = HALT_NONE"
    and "k_cause ((core_cycle ^^ h) (core_reset k)) \<noteq> HALT_NONE"
  shows "\<exists>t. h + 4 \<le> t \<and> t \<le> 3 * h + 12 \<and> (\<forall>i < t. \<not> p_halted ((p_cycle ^^ i) (p_reset p))) \<and>
    (\<forall>n. pipe_shows ((core_cycle ^^ h) (core_reset k)) ((p_cycle ^^ (n + t)) (p_reset p)))"
proof -
  obtain t where t: "h + 4 \<le> t" "t \<le> 3 * h + 12" "\<forall>i < t. \<not> p_halted ((p_cycle ^^ i) (p_reset p))"
      "pipe_shows ((core_cycle ^^ h) (core_reset k)) ((p_cycle ^^ t) (p_reset p))"
    using pipe_halts [OF assms] by blast
  have "pipe_shows ((core_cycle ^^ h) (core_reset k)) ((p_cycle ^^ (n + t)) (p_reset p))" for n
    using pipe_shows_frozen [OF t(4), of n] by (simp add: funpow_add)
  with t(1-3) show ?thesis by blast
qed

end
