(* ===== verification/Pipe_Lockstep.thy ===== *)
theory Pipe_Lockstep
  imports Pipe_Refine Lockstep_Run
begin

text \<open>The pipeline and the emulator, by way of the single-cycle core.\<close>

lemma halting_writes_nothing:
  assumes "k_cause k \<notin> {HALT_NONE, HALT_MISALIGNED}"
  shows "xregs (core_cycle k) = xregs k"
proof -
  have run: "\<not> halted_q k" using assms by (auto simp: k_cause_def split: if_splits)
  have "\<not> ct_reg_write (k_ctrl k)"
    using assms by (auto simp: k_cause_stages [OF run] id_cause_def is_system0_def k_ctrl_def decode_defs
        split: if_splits option.splits)
  then show ?thesis by (simp add: core_cycle_def rf_write_def)
qed

lemma k_cause_running: "k_cause k \<noteq> HALT_NONE \<longleftrightarrow> \<not> halted_q k \<and> halted_q (core_cycle k)"
  by (auto simp: core_cycle_def halt_now_def) (simp add: k_cause_def)

lemma guarded_causes:
  assumes "emu_core.guarded c k (Suc h) d" "lockstep c k"
  shows "\<forall>i < h. k_cause ((core_cycle ^^ i) k) = HALT_NONE" "k_cause ((core_cycle ^^ h) k) = cause_of d"
    "lockstep d (core_cycle ((core_cycle ^^ h) k))"
proof -
  note cyc = guarded_cycles [OF assms]
  show "\<forall>i < h. k_cause ((core_cycle ^^ i) k) = HALT_NONE"
  proof (intro allI impI)
    fix i assume "i < h"
    then have "\<not> halted_q ((core_cycle ^^ Suc i) k)"
      using cyc(2) [of "Suc i"] by simp
    then show "k_cause ((core_cycle ^^ i) k) = HALT_NONE"
      using k_cause_running [of "(core_cycle ^^ i) k"] by auto
  qed
  show "k_cause ((core_cycle ^^ h) k) = cause_of d" "lockstep d (core_cycle ((core_cycle ^^ h) k))"
    using cyc(1,3) by simp_all
qed

text \<open>What the pipeline shows when it stops where the emulator stopped.\<close>

definition pipe_agrees :: "cpu \<Rightarrow> pipe \<Rightarrow> bool" where
  "pipe_agrees d q \<longleftrightarrow> p_halted q \<and> wb_hc q = cause_of d \<and>
     (\<forall>i. reg_ok i \<longrightarrow> r d i = uint (rf_read (p_xregs q) i)) \<and>
     (\<forall>a. 0 \<le> a \<and> a < 4 * int DMEM_WORDS \<longrightarrow> mem d ! nat a = byte_at (p_dmem q) a)"

lemma pipe_agrees_shows:
  assumes "pipe_shows k q" "lockstep d (core_cycle k)" "halted d" "k_cause k = cause_of d"
  shows "pipe_agrees d q"
proof -
  have "cause_of d \<notin> {HALT_NONE, HALT_MISALIGNED}"
    using assms(3) by (auto simp: cause_of_def)
  then have "xregs (core_cycle k) = xregs k"
    using halting_writes_nothing [of k] assms(4) by simp
  with assms show ?thesis
    by (simp add: pipe_agrees_def pipe_shows_def lockstep_def)
qed

lemma pipeline_runs:
  assumes "lockstep c (core_reset k)" "holds_rom k words" "stays_in words n c" "run n c = (Inr reason, d)" "halted d"
    and "p_imem p = imem k" "p_dmem p = dmem k"
  shows "\<exists>m t. steps d = steps c + int m \<and> m + 3 \<le> t \<and> t \<le> 3 * m + 9 \<and>
    (\<forall>i < t. \<not> p_halted ((p_cycle ^^ i) (p_reset p))) \<and> (\<forall>j. pipe_agrees d ((p_cycle ^^ (j + t)) (p_reset p)))"
proof -
  let ?K = "core_reset k"
  have "holds_rom ?K words"
    using assms(2) by (simp add: holds_rom_def core_reset_def)
  then obtain m where m: "steps d = steps c + int m" "emu_core.guarded c ?K m d"
    using run_guarded [OF assms(4,3,1)] by blast
  have "\<not> halted c"
    using assms(1) by (simp add: lockstep_def core_reset_def)
  then obtain h where h: "m = Suc h"
    using m(2) assms(5) by (cases m) (auto elim: emu_core.guarded_zeroE)
  let ?k = "(core_cycle ^^ h) ?K"
  note cause = guarded_causes [OF m(2) [unfolded h] assms(1)]
  have "k_cause ?k \<noteq> HALT_NONE"
    using assms(5) cause(2) by (auto simp: cause_of_def)
  from pipe_halts [OF assms(6,7) cause(1) this] obtain t where t: "h + 4 \<le> t" "t \<le> 3 * h + 12"
      "\<forall>i < t. \<not> p_halted ((p_cycle ^^ i) (p_reset p))" "pipe_shows ?k ((p_cycle ^^ t) (p_reset p))"
    by blast
  have "pipe_agrees d ((p_cycle ^^ (j + t)) (p_reset p))" for j
    using pipe_agrees_shows [OF _ cause(3) assms(5) cause(2)] pipe_shows_frozen [OF t(4), of j] by (simp add: funpow_add)
  with t(1-3) m(1) h show ?thesis by (intro exI [of _ m] exI [of _ t]) simp
qed

text \<open>C4. The pipeline refines the emulator: when a run of the emulator that stays in the program of the
  instruction memory halts after \<open>m\<close> instructions, the pipeline started on the same memories halts after
  between \<open>m + 3\<close> and \<open>3 * m + 9\<close> cycles, not before, and from then on shows the emulator's registers and
  memory and the cause that belongs to the emulator's reason.\<close>

theorem pipeline_refines_emulator:
  assumes "lockstep c (core_reset k)" "holds_rom k words" "stays_in words n c" "run n c = (Inr reason, d)" "halted d"
    and "p_imem p = imem k" "p_dmem p = dmem k"
  shows "\<exists>m t. steps d = steps c + int m \<and> m + 3 \<le> t \<and> t \<le> 3 * m + 9 \<and>
    (\<forall>i < t. \<not> p_halted ((p_cycle ^^ i) (p_reset p))) \<and> (\<forall>j. pipe_agrees d ((p_cycle ^^ (j + t)) (p_reset p)))"
  by (rule pipeline_runs [OF assms])

end
