(* ===== verification/Tb_Cpi.thy ===== *)
theory Tb_Cpi
  imports Core_Boot Pipe_Lockstep Clocked
begin

text \<open>
  \<open>tb/cpi/test_cpi.py\<close>: the measurement of one program on the pipeline, with the comparison of the final
  registers against the emulator, and its outcome on the benchmarks.
\<close>

section \<open>The measurement\<close>

definition CPI_MAX_CYCLES :: nat where "CPI_MAX_CYCLES = 200000"

text \<open>\<open>_load\<close>: both memories of the design, word by word.\<close>

definition load_words :: "int list \<Rightarrow> pipe \<Rightarrow> pipe" where
  "load_words words dut =
     dut\<lparr>p_imem := map (\<lambda>i. if i < length words then word_of_int (words ! i) else 0) [0..<IMEM_WORDS],
         p_dmem := map (\<lambda>i. if i < length words then word_of_int (words ! i) else 0) [0..<DMEM_WORDS]\<rparr>"

definition p_rtl_reg :: "pipe \<Rightarrow> nat \<Rightarrow> int" where
  "p_rtl_reg p i = (if i = 0 then 0 else uint (p_xregs p ! i))"

text \<open>A failed assertion, or an exception of another kind; otherwise the instructions and the cycles.\<close>

datatype cpi_exn = CPI_ASSERT string | CPI_RAISE

definition measure :: "string \<Rightarrow> (nat \<times> int) list \<Rightarrow> pipe \<Rightarrow> cpi_exn + int \<times> nat" where
  "measure src expect dut =
     (case assemble src 0 None of
        Inl e \<Rightarrow> Inl CPI_RAISE
      | Inr words \<Rightarrow>
          (case emu_run (64 * 1024) 500000 words of
             Inl e \<Rightarrow> Inl CPI_RAISE
           | Inr (reason, cpu) \<Rightarrow>
               if reason \<noteq> ''ecall'' then Inl (CPI_ASSERT ''emulator halted'')
               else if \<not> list_all (\<lambda>(i, v). regs cpu ! i = v) expect then Inl (CPI_ASSERT ''emulator register'')
               else (case wait_edges p_cycle p_halted CPI_MAX_CYCLES (p_reset (load_words words dut)) of
                       None \<Rightarrow> Inl (CPI_ASSERT ''no halt'')
                     | Some (cycles, q) \<Rightarrow>
                         if wb_hc q \<noteq> HALT_ECALL then Inl (CPI_ASSERT ''halt cause not ECALL'')
                         else if list_all (\<lambda>i. p_rtl_reg q i = u32 (regs cpu ! i)) [0..<32] then Inr (steps cpu, cycles)
                         else Inl (CPI_ASSERT ''register mismatch''))))"

section \<open>Programs that pass\<close>

lemma load_words_memories:
  "p_imem (load_words words dut) = imem (core_boot words)" "p_dmem (load_words words dut) = dmem (core_boot words)"
  by (auto simp: load_words_def core_boot_def core_reset_def readmemh_nth intro!: nth_equalityI)

lemma core_boot_reset: "core_reset (core_boot words) = core_boot words"
  by (simp add: core_boot_def core_reset_def)

lemma measure_bare:
  assumes "assemble src 0 None = Inr words" "ends_with words n expect" "stays_in words 500000 (bare_cpu words)"
    and "length words \<le> IMEM_WORDS" "words_ok words" "n \<le> 60000"
  shows "\<exists>cycles. measure src expect dut = Inr (n, cycles) \<and> n + 3 \<le> int cycles \<and> int cycles \<le> 3 * n + 9"
proof -
  let ?k = "core_boot words" and ?p = "p_reset (load_words words dut)"
  define e where "e = replicate (4 * (DMEM_WORDS - length words)) (0 :: int)"
  obtain d where run: "run 500000 (bare_cpu words) = (Inr ''ecall'', d)" "steps d = n"
    and d: "list_all (\<lambda>(i, v). regs d ! i = v) expect"
    using assms(2) by (auto simp: ends_with_def split: prod.splits sum.splits)
  have len: "length words \<le> DMEM_WORDS"
    using assms(4) by (simp add: IMEM_WORDS_def DMEM_WORDS_def)
  have halted: "halted d" "halt_reason d = Some ''ecall''"
    using run_ecall_halted [OF run(1)] by simp_all
  have ls: "lockstep (grow e (bare_cpu words)) (core_reset ?k)"
    unfolding e_def core_boot_reset by (rule boot_lockstep [OF len])
  from pipeline_runs [OF ls boot_rom [OF assms(4,5)] stays_in_grow [OF assms(3)] run_grow [OF run(1), of e] _
      load_words_memories, of dut] halted(1)
  obtain m t where t: "steps d = int m" "m + 3 \<le> t" "t \<le> 3 * m + 9" "\<forall>i < t. \<not> p_halted ((p_cycle ^^ i) ?p)"
      and agree: "pipe_agrees (grow e d) ((p_cycle ^^ t) ?p)"
    by (auto simp: bare_cpu_def dest: spec [of _ 0])
  let ?q = "(p_cycle ^^ t) ?p"
  have q: "p_halted ?q" "wb_hc ?q = HALT_ECALL"
    using agree halted by (simp_all add: pipe_agrees_def cause_of_def)
  have wait: "wait_edges p_cycle p_halted CPI_MAX_CYCLES ?p = Some (t, ?q)"
    by (rule wait_edges_at) (use t q(1) run(2) assms(6) in \<open>auto simp: CPI_MAX_CYCLES_def\<close>)
  have wf: "wf_cpu d"
    using steps_to_wf [OF run_reaches [OF run(1)]] bare_wf [of 0 words] by (simp add: grow_def)
  have regs: "p_rtl_reg ?q i = u32 (regs d ! i)" if "i < 32" for i
  proof -
    have "reg_ok (int i)" using that by (simp add: reg_ok_def)
    then have "r (grow e d) (int i) = uint (rf_read (p_xregs ?q) (int i))"
      using agree by (simp add: pipe_agrees_def)
    moreover have "regs d ! 0 = 0" "word_ok (regs d ! i)"
      using wf that by (simp_all add: wf_cpu_def list_all_length)
    ultimately show ?thesis
      by (auto simp: p_rtl_reg_def rf_read_def r_def u32_id word_ok_def)
  qed
  obtain e' where "emu_run (64 * 1024) 500000 words = Inr (''ecall'', grow e' d)"
    using emu_run_bare [OF _ run(1), of "64 * 1024"] assms(4) by (auto simp: IMEM_WORDS_def)
  then have "measure src expect dut = Inr (n, t)"
    using assms(1) d wait q(2) regs run(2) by (simp add: measure_def list_all_iff)
  with t(1-3) run(2) show ?thesis by auto
qed

text \<open>C6. The measurement of every benchmark passes on the pipeline, whatever the design held before: all its
  assertions hold, it counts the instructions the emulator executes, and between \<open>n + 3\<close> and
  \<open>3 * n + 9\<close> cycles for \<open>n\<close> instructions.\<close>

theorem benchmarks_measured:
  "list_all (\<lambda>(name, source, expect). \<exists>n cycles. measure source expect dut = Inr (n, cycles) \<and>
     n + 3 \<le> int cycles \<and> int cycles \<le> 3 * n + 9) BENCHMARKS"
  unfolding list_all_iff
proof clarify
  fix name source expect assume "(name, source, expect) \<in> set BENCHMARKS"
  then obtain words n where w: "assemble source 0 None = Inr words" "ends_with words n expect"
      "stays_in words 500000 (bare_cpu words)" "length words \<le> IMEM_WORDS" "words_ok words" "n \<le> 400"
    using benchmark_facts by blast
  show "\<exists>n cycles. measure source expect dut = Inr (n, cycles) \<and> n + 3 \<le> int cycles \<and> int cycles \<le> 3 * n + 9"
    using measure_bare [OF w(1-5), of dut] w(6) by auto
qed

end
