(* ===== verification/Elf_Load.thy ===== *)
theory Elf_Load
  imports Riscv_Tests
begin

text \<open>
  \<open>load_elf\<close> of \<open>tools/refmodel/riscv_tests_runner.py\<close>. What the third-party \<open>elftools\<close> reads from the file is
  its argument: the sections by name with the symbols of each, in order, and the program headers with
  their data.
\<close>

record elf_segment =
  p_type :: string
  p_filesz :: int
  p_paddr :: int
  seg_data :: "int list"

text \<open>The symbol loop leaves at the first match; the section loop goes on to the next table.\<close>

definition scan_section :: "string \<times> (string \<times> int) list \<Rightarrow> int option \<Rightarrow> int option" where
  "scan_section sec tohost =
     (if fst sec = ''.symtab'' then
        (case map_of (snd sec) ''tohost'' of None \<Rightarrow> tohost | Some v \<Rightarrow> Some v)
      else tohost)"

definition loadable :: "elf_segment list \<Rightarrow> segments" where
  "loadable segs = map (\<lambda>s. (p_paddr s, seg_data s)) (filter (\<lambda>s. p_type s = ''PT_LOAD'' \<and> p_filesz s > 0) segs)"

definition load_elf :: "(string \<times> (string \<times> int) list) list \<Rightarrow> elf_segment list \<Rightarrow> segments \<times> int option" where
  "load_elf sections segs = (loadable segs, fold scan_section sections None)"

text \<open>The symbol is the first one of that name in the last symbol table that has one.\<close>

lemma scan_section_iff:
  "scan_section sec t = Some v \<longleftrightarrow>
     fst sec = ''.symtab'' \<and> map_of (snd sec) ''tohost'' = Some v \<or> t = Some v \<and> scan_section sec None = None"
  by (auto simp: scan_section_def split: option.splits)

lemma scan_sections:
  "fold scan_section sections t = Some v \<longleftrightarrow>
     (\<exists>pre syms post. sections = pre @ (''.symtab'', syms) # post \<and> map_of syms ''tohost'' = Some v \<and>
        list_all (\<lambda>sec. scan_section sec None = None) post) \<or>
     t = Some v \<and> list_all (\<lambda>sec. scan_section sec None = None) sections"
proof (induction sections arbitrary: t)
  case (Cons sec sections)
  have "(\<exists>pre syms post. sec # sections = pre @ (''.symtab'', syms) # post \<and> map_of syms ''tohost'' = Some v \<and>
          list_all (\<lambda>sec. scan_section sec None = None) post) \<longleftrightarrow>
      (\<exists>pre syms post. sections = pre @ (''.symtab'', syms) # post \<and> map_of syms ''tohost'' = Some v \<and>
          list_all (\<lambda>sec. scan_section sec None = None) post) \<or>
      fst sec = ''.symtab'' \<and> map_of (snd sec) ''tohost'' = Some v \<and> list_all (\<lambda>sec. scan_section sec None = None) sections"
    by (cases sec) (auto simp: Cons_eq_append_conv)
  then show ?case
    by (auto simp: Cons.IH scan_section_iff [of sec t])
qed simp

text \<open>C31. A conformance test is reported as passed only if its file has a \<open>tohost\<close> symbol in a symbol table with
  no later table defining another, and the program of its loadable segments, run from the lowest of them, stored the
  value 1 at that address within the step cap.\<close>

theorem elf_test_pass:
  assumes "run_test (load_elf sections segs) = Inr (True, reason)"
  shows "\<exists>pre syms post th c d. sections = pre @ (''.symtab'', syms) # post \<and> map_of syms ''tohost'' = Some th \<and>
    list_all (\<lambda>sec. scan_section sec None = None) post \<and>
    test_cpu (loadable segs) th = Inr c \<and> steps_to c d \<and> tohost_value d = Some 1 \<and> steps d \<le> MAX_STEPS"
proof -
  obtain th c d where th: "fold scan_section sections None = Some th" and run: "test_cpu (loadable segs) th = Inr c"
      "steps_to c d" "tohost_value d = Some 1" "steps d \<le> MAX_STEPS"
    using run_test_pass [of "loadable segs" "fold scan_section sections None" reason] assms
    by (auto simp: load_elf_def)
  with scan_sections [of sections None th] show ?thesis by fastforce
qed

end
