(* ===== verification/Pipe_Witnesses.thy ===== *)
theory Pipe_Witnesses
  imports Core_Witnesses Tb_Cpi Elf_Load Witnesses
begin

text \<open>The theorems on the pipeline and on the conformance tests' files at concrete inputs.\<close>

lemma gcd_guarded:
  "\<exists>h d. run 500000 gcd_start = (Inr ''ecall'', d) \<and> halted d \<and> emu_core.guarded gcd_start (core_boot GCD_WORDS) (Suc h) d"
proof -
  obtain d where d: "run 500000 gcd_start = (Inr ''ecall'', d)"
    using gcd_start_run by blast
  obtain m where m: "emu_core.guarded gcd_start (core_boot GCD_WORDS) m d"
    using run_guarded [OF d gcd_start_stays gcd_lockstep boot_rom [OF gcd_words_ok(2,1)]] by blast
  have "halted d" by (rule run_ecall_halted(1) [OF d])
  then obtain h where "m = Suc h"
    using m gcd_start_zero(1) by (cases m) (auto elim: emu_core.guarded_zeroE)
  with m d \<open>halted d\<close> show ?thesis by blast
qed

theorem pipeline_refines_core_witness:
  "\<forall>dut. \<exists>h t. h + 4 \<le> t \<and> t \<le> 3 * h + 12 \<and>
     k_cause ((core_cycle ^^ h) (core_boot GCD_WORDS)) = HALT_ECALL \<and>
     pipe_shows ((core_cycle ^^ h) (core_boot GCD_WORDS)) ((p_cycle ^^ t) (p_reset (load_words GCD_WORDS dut)))"
proof
  fix dut
  obtain h d where run: "run 500000 gcd_start = (Inr ''ecall'', d)" "halted d"
      and g: "emu_core.guarded gcd_start (core_boot GCD_WORDS) (Suc h) d"
    using gcd_guarded by blast
  note c = guarded_causes [OF g gcd_lockstep]
  have cause: "k_cause ((core_cycle ^^ h) (core_boot GCD_WORDS)) = HALT_ECALL"
    using c(2) run_ecall_halted [OF run(1)] by (simp add: cause_of_def)
  have none: "\<forall>i < h. k_cause ((core_cycle ^^ i) (core_reset (core_boot GCD_WORDS))) = HALT_NONE"
    "k_cause ((core_cycle ^^ h) (core_reset (core_boot GCD_WORDS))) \<noteq> HALT_NONE"
    using c(1) cause by (simp_all add: core_boot_reset)
  obtain t where t: "h + 4 \<le> t" "t \<le> 3 * h + 12"
      "\<forall>n. pipe_shows ((core_cycle ^^ h) (core_boot GCD_WORDS)) ((p_cycle ^^ (n + t)) (p_reset (load_words GCD_WORDS dut)))"
    using pipeline_refines_core [OF load_words_memories none, of dut] by (auto simp: core_boot_reset)
  from t(3) have "pipe_shows ((core_cycle ^^ h) (core_boot GCD_WORDS)) ((p_cycle ^^ (0 + t)) (p_reset (load_words GCD_WORDS dut)))"
    by (rule spec)
  with t(1,2) cause
  show "\<exists>h t. h + 4 \<le> t \<and> t \<le> 3 * h + 12 \<and> k_cause ((core_cycle ^^ h) (core_boot GCD_WORDS)) = HALT_ECALL \<and>
     pipe_shows ((core_cycle ^^ h) (core_boot GCD_WORDS)) ((p_cycle ^^ t) (p_reset (load_words GCD_WORDS dut)))"
    by (intro exI [of _ h] exI [of _ t]) simp
qed

theorem pipeline_refines_emulator_witness:
  "\<forall>dut. \<exists>d m t. run 500000 gcd_start = (Inr ''ecall'', d) \<and> steps d = int m \<and> m + 3 \<le> t \<and> t \<le> 3 * m + 9 \<and>
     pipe_agrees d ((p_cycle ^^ t) (p_reset (load_words GCD_WORDS dut)))"
proof
  fix dut
  obtain d where d: "run 500000 gcd_start = (Inr ''ecall'', d)" "halted d"
    using gcd_guarded by blast
  have ls: "lockstep gcd_start (core_reset (core_boot GCD_WORDS))"
    using gcd_lockstep by (simp add: core_boot_reset)
  obtain m t where t: "steps d = int m" "m + 3 \<le> t" "t \<le> 3 * m + 9"
      "\<forall>j. pipe_agrees d ((p_cycle ^^ (j + t)) (p_reset (load_words GCD_WORDS dut)))"
    using pipeline_refines_emulator [OF ls boot_rom [OF gcd_words_ok(2,1)] gcd_start_stays d load_words_memories, of dut]
    by (auto simp: gcd_start_zero)
  from t(4) have "pipe_agrees d ((p_cycle ^^ (0 + t)) (p_reset (load_words GCD_WORDS dut)))"
    by (rule spec)
  with d t(1-3) show "\<exists>d m t. run 500000 gcd_start = (Inr ''ecall'', d) \<and> steps d = int m \<and> m + 3 \<le> t \<and> t \<le> 3 * m + 9 \<and>
     pipe_agrees d ((p_cycle ^^ t) (p_reset (load_words GCD_WORDS dut)))"
    by (intro exI [of _ d] exI [of _ m] exI [of _ t]) simp
qed

text \<open>A file with two segments, of which one is loaded, and the symbol behind another one.\<close>

definition demo_sections :: "(string \<times> (string \<times> int) list) list" where
  "demo_sections = [(''.text'', []), (''.symtab'', [(''_start'', 0), (''tohost'', 256)]), (''.strtab'', [])]"

definition demo_headers :: "elf_segment list" where
  "demo_headers =
    [\<lparr>p_type = ''PT_LOAD'', p_filesz = 8, p_paddr = 0, seg_data = [147, 2, 16, 0, 35, 32, 80, 16]\<rparr>,
     \<lparr>p_type = ''PT_NOTE'', p_filesz = 4, p_paddr = 64, seg_data = [1, 2, 3, 4]\<rparr>]"

theorem elf_test_pass_witness:
  "\<exists>c d. load_elf demo_sections demo_headers = (demo_segs, Some 256) \<and> test_cpu demo_segs 256 = Inr c \<and>
     steps_to c d \<and> tohost_value d = Some 1"
proof -
  have elf: "load_elf demo_sections demo_headers = (demo_segs, Some 256)"
    by (simp add: load_elf_def demo_sections_def demo_headers_def loadable_def demo_segs_def scan_section_def)
  then obtain reason where "run_test (load_elf demo_sections demo_headers) = Inr (True, reason)"
    using demo_test_run by auto
  from elf_test_pass [OF this] obtain th c d where "test_cpu (loadable demo_headers) th = Inr c" "steps_to c d"
      "tohost_value d = Some 1" "\<exists>pre syms post. demo_sections = pre @ (''.symtab'', syms) # post \<and> map_of syms ''tohost'' = Some th"
    by blast
  moreover have "loadable demo_headers = demo_segs"
    using elf by (simp add: load_elf_def)
  moreover from calculation(4) have "th = 256"
    by (auto simp: demo_sections_def Cons_eq_append_conv)
  ultimately show ?thesis using elf by auto
qed

end
