(* ===== verification/Spec2Isabelle.thy ===== *)
theory Spec2Isabelle
  imports Program_Witnesses Sv_Check Pipe_Witnesses
begin

text \<open>
  RiscForge: an RV32I assembler, a reference emulator and the tools around them
  ============================================================================

  The repository holds an RV32I core in SystemVerilog and the Python tools it is tested with: a
  two-pass assembler (\<open>tools/assembler/assemble.py\<close>), a reference emulator
  (\<open>tools/refmodel/rv32i_emu.py\<close>), the runner of the rv32ui conformance suite
  (\<open>tools/refmodel/riscv_tests_runner.py\<close>), the shared encoding tables
  (\<open>tools/refmodel/encoding.py\<close>), a check that they agree with the hardware package
  (\<open>scripts/encoding_check.py\<close>) and the benchmark programs (\<open>tools/benchmarks/programs.py\<close>).
  The assembler turns a source text into 32-bit words, a harness stores them into the emulator's
  memory, the emulator runs them and is the oracle the hardware is compared with.  This development
  models those tools, the single-cycle core (\<open>rtl/top.sv\<close>), the five-stage pipeline
  (\<open>rtl/top_pipeline.sv\<close>) and the two tests that compare them with the emulator
  (\<open>tb/top/test_top.py\<close>, \<open>tb/cpi/test_cpi.py\<close>).

  Theories and the code they model
  --------------------------------
  \<^item> \<open>Python_Base\<close>, \<open>Python_Strings\<close>: masks and shifts of unbounded ints as \<open>take_bit\<close> and \<open>drop_bit\<close>,
    the sum and state-exception monads, the \<open>str\<close> and \<open>int\<close> operations the tools call, on ASCII text.
  \<^item> \<open>Encoding\<close>: the enumerations and constants of \<open>encoding.py\<close>.
  \<^item> \<open>Asm_Text\<close>: \<open>AsmError\<close>, \<open>parse_reg\<close>, \<open>parse_int\<close>, \<open>Line\<close>, \<open>_split_args\<close>, \<open>tokenize\<close>.
    \<open>Asm_Pack\<close>: \<open>fit_signed\<close>, \<open>fit_unsigned\<close> and the six packers.  \<open>Asm_Encode\<close>: \<open>_resolve\<close> and
    \<open>encode_line\<close>, one definition per group of mnemonics.  \<open>Asm_Layout\<close>: \<open>pass1\<close>, the size pass,
    the byte image, \<open>assemble\<close> and \<open>to_hex_lines\<close>.
  \<^item> \<open>Emu_Bits\<close>, \<open>Emu_State\<close>, \<open>Emu_Step\<close>, \<open>Emu_Run\<close>: the class \<open>RV32I\<close>: masks and immediate
    decoders; the record \<open>cpu\<close> with one field per attribute, memory and registers; \<open>step\<close> with one
    definition per branch of its dispatch; \<open>run\<close>.  An exception is an \<open>Inl\<close> value beside the state
    it leaves.
  \<^item> \<open>Rtl_Units\<close>: \<open>rtl/alu.sv\<close>, \<open>rtl/branch_unit.sv\<close>, \<open>rtl/imm_gen.sv\<close> and the operation selectors of
    \<open>rtl/decoder.sv\<close> on 32-bit words.  \<open>Rtl_Core\<close>: the control bundle of the decoder, \<open>rtl/reg_file.sv\<close>,
    \<open>rtl/data_memory.sv\<close>, \<open>rtl/instr_memory.sv\<close> and the datapath of \<open>rtl/top.sv\<close>: the record \<open>core\<close>
    holds the flip-flops and memories, a wire is a function of it, \<open>core_cycle\<close> is the clock edge with
    \<open>rst\<close> low and \<open>core_reset\<close> the one with \<open>rst\<close> high.  \<open>Core_Boot\<close> has \<open>$readmemh\<close>.
  \<^item> \<open>Rtl_Pipeline\<close>: \<open>rtl/if_id_reg.sv\<close>, \<open>rtl/id_ex_reg.sv\<close>, \<open>rtl/ex_mem_reg.sv\<close>, \<open>rtl/mem_wb_reg.sv\<close>,
    \<open>rtl/hazard_unit.sv\<close>, \<open>rtl/forwarding_unit.sv\<close> and the stages of \<open>rtl/top_pipeline.sv\<close>: one record per
    pipeline register, the record \<open>pipe\<close> for all flip-flops and memories, \<open>p_cycle\<close> for the clock edge.
  \<^item> \<open>Python_Int\<close>, \<open>Asm_Cli\<close>: \<open>int(s, base)\<close> with underscores and base 0, \<open>s.split()\<close>; \<open>_cli\<close> from the parsed
    arguments to the written file and the exit status, or the exception that escapes, with the file system as a
    parameter.
  \<^item> \<open>Clocked\<close>, \<open>Tb_Cpi\<close>: the waiting loop of the harnesses and the measurement of \<open>tb/cpi/test_cpi.py\<close>.
    \<open>Tb_Top\<close>: \<open>tb/top/test_top.py\<close>, from the hex file to the comparison of the registers, and the program
    \<open>tb/top/smoke.s\<close> it runs.
  \<^item> \<open>Riscv_Tests\<close>: \<open>run_test\<close> and \<open>main\<close> of the conformance runner, for any \<open>load_elf\<close>.  \<open>Elf_Load\<close>:
    \<open>load_elf\<close>, with the sections and program headers that the elftools package reads as arguments.
  \<^item> \<open>Sv_Check\<close>: the parsers and \<open>main\<close> of \<open>encoding_check.py\<close>, with the text of the package as argument.
  \<^item> \<open>Benchmarks\<close>: the programs and the emulator half of the harness \<open>tb/cpi/test_cpi.py\<close>.

  Library
  -------
  \<^item> \<open>Byte_Memory\<close>: the locale of little-endian byte stores; interpreted by the emulator's memory
    (\<open>Emu_Mem\<close>) and by the assembler's image (\<open>Asm_Image\<close>).  \<open>Emu_Regs\<close>: the locale of a register file
    with a zero register, interpreted by \<open>r\<close> and \<open>wr\<close>.  \<open>Codec\<close>: the locale of an immediate format
    that decodes what it encodes, interpreted by the five pairs of a packer and a decoder.
  \<^item> \<open>Emu_Inv\<close>, \<open>Emu_Correct\<close>: well-formed states, the trace of a step, agreement with the hardware units.
  \<^item> \<open>Asm_Exec\<close>, \<open>Asm_Lines\<close>, \<open>Asm_Correct\<close>, \<open>Asm_Flow\<close>: a source line, assembled and stored at its address,
    makes the emulator do what the mnemonic says: one theorem per group of mnemonics, on the whole state
    (\<open>reg_effect\<close>, \<open>store_effect\<close>) and with the traps of misaligned targets and failing accesses.
  \<^item> \<open>Asm_Placement\<close>, \<open>Asm_Program\<close>, \<open>Asm_Load\<close>: every line gets its own bytes, pass 1 reserves as much as
    pass 2 emits, so the whole image, loaded, holds the code of every line at its address, whatever the bases, as long
    as the text lines end before the data base; the default data base is such a base for a text base that is a
    multiple of 4096, and \<open>Asm_Errors\<close> shows a text base for which it is not.
    \<open>Asm_Errors\<close>: every failure of the assembler names a line of its source.  \<open>Asm_Hex\<close>: the hex file
    is read back as the words it was written from.  \<open>Asm_Source\<close>: \<open>tokenize\<close> recovers the statements of a
    printed source, \<open>parse_int\<close> the number a literal denotes.
  \<^item> \<open>Asm_Flat\<close>, \<open>Emu_Extend\<close>: a program without gaps is the concatenation of its lines' words, and a run is
    the same in a larger memory; with them \<open>Benchmark_Runs\<close> evaluates the five benchmarks, source to final
    registers.  \<open>Emu_Stretch\<close>: one lemma per instruction for stretches of steps that write registers only;
    \<open>Programs\<close> composes them to the loops of two benchmarks, for all inputs: the multiplication subroutine
    and the subtractive gcd.
  \<^item> \<open>Lockstep\<close>, \<open>Lockstep_Mem\<close>: the relation of emulator and core states (registers, PC, data memory
    byte by byte, halted) and, opcode by opcode, that a step of the one is a cycle of the other.
    \<open>Lockstep_Run\<close>: the locale of forward simulations under a side condition, interpreted by the two
    machines, and its consequence for whole runs: the core refines the emulator as long as the program
    executes the words in the instruction memory and uses no CSR or MRET instruction.
    \<open>Core_Boot\<close> establishes the relation after loading and runs the benchmarks on the core;
    \<open>Tb_Top\<close> gives the outcome of the end-to-end test.
  \<^item> \<open>Pipe_Inv\<close>, \<open>Pipe_Step\<close>, \<open>Pipe_Refine\<close>: the stages of the pipeline hold consecutive instructions of the
    core that ignores halts, or bubbles; every latched value that a later stage uses is the core's value.  A
    clock edge keeps this, and a potential shows that the pipeline makes progress, so it halts when the
    core does, after at most three cycles per instruction.  \<open>Pipe_Lockstep\<close> carries this to the emulator,
    \<open>Tb_Cpi\<close> to the measured benchmarks.
  \<^item> \<open>Witnesses\<close>, \<open>Program_Witnesses\<close>, \<open>Core_Witnesses\<close>, \<open>Pipe_Witnesses\<close>: concrete inputs that satisfy the hypotheses of each property.

  Bounds
  ------
  No definition uses fuel.  \<open>run\<close> terminates because every step that does not raise increments
  \<open>steps\<close>, which the loop bounds by \<open>max_steps\<close>; the measure is their difference.  The text functions
  recurse on what is left of the text.  The step counts of the loops are exact (\<open>4 * a1 + 4\<close>
  for the multiplication) or bounds (\<open>4 * (a0 + a1) + 1\<close> for the gcd, whose operands shrink every round).
  Numbers are Python's unbounded ints, masked where the code
  masks them; the properties about registers read them as 32-bit words.

  Not modelled
  ------------
  What \<open>argparse\<close> does, file access and printing (the output of \<open>_cli\<close> and of the two \<open>main\<close>
  functions); the wording of \<open>AsmError\<close> messages, of which the constructor and its values are kept;
  CPython's limit on the number of digits \<open>int\<close> accepts; text outside ASCII, where \<open>str.isalpha\<close>, \<open>str.lower\<close> and \<open>int\<close> follow Unicode tables;
  \<open>MemoryError\<close> of an \<open>.align\<close> with an enormous argument; the elftools package; the UART outputs of
  the cores, their reset while running, and the cocotb benches of single units.
\<close>

end
